(* ===== verification/Prelude.thy ===== *)
theory Prelude
  imports Main
begin

text \<open>
  What every other theory of the development shares: the model of Python text, floor and
  ceiling division, the outcome type of code that raises, and the generic list lemmas that
  carry the component proofs.

  Two kinds of text appear in the sidecar. Free text (chat lines, names, prompts) is a Python
  \<open>str\<close>, a sequence of Unicode code points, and is modelled as \<open>ustr\<close>, a list of code points as
  natural numbers. Text that the code itself builds from ASCII (amounts of money, identifiers,
  configuration values) is modelled as an Isabelle \<open>string\<close>.
\<close>

section \<open>Named collections\<close>

named_theorems outcome_simps \<open>rewriting of outcomes, i.e. of code that may raise\<close>
named_theorems money_simps \<open>arithmetic of stored money\<close>

section \<open>Text\<close>

type_synonym ustr = "nat list"

text \<open>An ASCII literal as code points.\<close>

definition u :: "string \<Rightarrow> ustr" where
  "u s = map of_char s"

text \<open>
  The number of bytes one code point takes in UTF-8. Lone surrogates cannot be encoded at all;
  the strings that reach a byte bound have already been through a validator that refuses them.
\<close>

definition utf8_width :: "nat \<Rightarrow> nat" where
  "utf8_width c = (if c < 128 then 1 else if c < 2048 then 2 else if c < 65536 then 3 else 4)"

lemma utf8_width_bounds: "1 \<le> utf8_width c \<and> utf8_width c \<le> 4"
  by (simp add: utf8_width_def)

lemma sum_list_width_ge_length: "length s \<le> sum_list (map utf8_width s)"
proof (induction s)
  case (Cons c s)
  with utf8_width_bounds [of c] show ?case by simp
qed simp

section \<open>Outcomes\<close>

text \<open>
  Code that may raise returns \<open>Inl\<close> of what it raised or \<open>Inr\<close> of its value. \<open>and_then\<close> runs the
  rest of a block unless an exception has already left it; \<open>assuring\<close> is a guard that raises.
\<close>

definition and_then :: "'e + 'a \<Rightarrow> ('a \<Rightarrow> 'e + 'b) \<Rightarrow> 'e + 'b" where
  "and_then r f = (case r of Inl e \<Rightarrow> Inl e | Inr x \<Rightarrow> f x)"

definition assuring :: "bool \<Rightarrow> 'e \<Rightarrow> 'e + unit" where
  "assuring b e = (if b then Inr () else Inl e)"

lemma and_then_simps [simp, outcome_simps]:
  "and_then (Inl e) f = Inl e"
  "and_then (Inr x) f = f x"
  by (simp_all add: and_then_def)

lemma and_then_Inr_iff [outcome_simps]:
  "and_then r f = Inr y \<longleftrightarrow> (\<exists>x. r = Inr x \<and> f x = Inr y)"
  by (cases r) auto

lemma and_then_Inl_iff [outcome_simps]:
  "and_then r f = Inl e \<longleftrightarrow> r = Inl e \<or> (\<exists>x. r = Inr x \<and> f x = Inl e)"
  by (cases r) auto

lemma assuring_simps [simp, outcome_simps]:
  "assuring True e = Inr ()"
  "assuring False e = Inl e"
  "assuring b e = Inr x \<longleftrightarrow> b"
  by (simp_all add: assuring_def)

section \<open>Python's integer division\<close>

text \<open>Python's \<open>-(-n // d)\<close>: the quotient rounded up, for a positive divisor.\<close>

definition ceil_div :: "int \<Rightarrow> int \<Rightarrow> int" where
  "ceil_div n d = - ((- n) div d)"

lemma ceil_div_upper: "0 < d \<Longrightarrow> n \<le> ceil_div n d * d"
  unfolding ceil_div_def
  by (smt (verit) minus_mult_left mult.commute pos_imp_zdiv_neg_iff
      minus_div_mult_eq_mod pos_mod_sign)

lemma ceil_div_lower: "0 < d \<Longrightarrow> ceil_div n d * d < n + d"
  unfolding ceil_div_def
  by (smt (verit) minus_mult_left minus_div_mult_eq_mod pos_mod_bound)

lemma ceil_div_unique:
  assumes "0 < d" "n \<le> q * d" "q * d < n + d"
  shows "ceil_div n d = q"
proof -
  have "- n = (- q) * d + (q * d - n)" by simp
  then have "(- n) div d = - q"
    using assms by (intro int_div_pos_eq [where r = "q * d - n"]) (auto simp: algebra_simps)
  then show ?thesis by (simp add: ceil_div_def)
qed

lemma ceil_div_exact [simp]: "0 < d \<Longrightarrow> ceil_div (q * d) d = q"
  by (rule ceil_div_unique) auto

lemma ceil_div_mono: "0 < d \<Longrightarrow> m \<le> n \<Longrightarrow> ceil_div m d \<le> ceil_div n d"
  by (simp add: ceil_div_def zdiv_mono1)

lemma ceil_div_le_iff: "0 < d \<Longrightarrow> ceil_div n d \<le> q \<longleftrightarrow> n \<le> q * d"
proof
  assume d: "0 < d" and "ceil_div n d \<le> q"
  then have "ceil_div n d * d \<le> q * d" by simp
  with ceil_div_upper [OF d, of n] show "n \<le> q * d" by linarith
next
  assume d: "0 < d" and "n \<le> q * d"
  from ceil_div_mono [OF d this(2)] d show "ceil_div n d \<le> q" by simp
qed

section \<open>Sums over filtered lists\<close>

lemma sum_list_filter_le:
  fixes f :: "'a \<Rightarrow> int"
  assumes "\<forall>x \<in> set xs. 0 \<le> f x" and "\<forall>x \<in> set xs. P x \<longrightarrow> Q x"
  shows "sum_list (map f (filter P xs)) \<le> sum_list (map f (filter Q xs))"
  using assms by (induction xs) fastforce+

lemma sum_list_filter_nonneg:
  fixes f :: "'a \<Rightarrow> int"
  assumes "\<forall>x \<in> set xs. 0 \<le> f x"
  shows "0 \<le> sum_list (map f (filter P xs))"
  using assms by (induction xs) auto

text \<open>Changing one uniquely identified element removes exactly its own contribution.\<close>

lemma sum_list_remove_one:
  fixes f :: "'a \<Rightarrow> int"
  assumes "distinct (map k xs)" and "r \<in> set xs" and "P r"
  shows "sum_list (map f (filter (\<lambda>x. P x \<and> k x \<noteq> k r) xs)) = sum_list (map f (filter P xs)) - f r"
  using assms
proof (induction xs)
  case (Cons x xs)
  show ?case
  proof (cases "x = r")
    case True
    with Cons.prems have "\<forall>y \<in> set xs. k y \<noteq> k r" by (auto simp: image_iff)
    then have "filter (\<lambda>x. P x \<and> k x \<noteq> k r) xs = filter P xs"
      by (intro filter_cong) auto
    with True Cons.prems show ?thesis by simp
  next
    case False
    with Cons.prems have r: "r \<in> set xs" by simp
    with Cons.prems have "k x \<noteq> k r" by (auto simp: image_iff)
    with Cons r show ?thesis by simp
  qed
qed simp

end
