(* ===== verification/Decimal_Arith.thy ===== *)
theory Decimal_Arith
  imports Complex_Main Prelude
begin

text \<open>
  Python's \<open>decimal\<close> module as far as the sidecar uses it, in its default context: 28 digits of
  precision, rounding half to even, exponents between -999999 and 999999, and a trapped
  \<open>Overflow\<close>. Construction from text is exact; every arithmetic result is rounded to the context.
  A finite decimal is a coefficient and a power of ten. Nothing in the sidecar can observe the
  sign of a zero, so zero has no sign here.
\<close>

section \<open>Values\<close>

datatype fdec = Fdec (coef: int) (expo: int)

datatype decimal = Finite fdec | Infinite bool | NotANumber

definition fval :: "fdec \<Rightarrow> rat" where
  "fval d = of_int (coef d) * 10 powi (expo d)"

definition fdec_of_int :: "int \<Rightarrow> fdec" where
  "fdec_of_int n = Fdec n 0"

lemma fval_of_int [simp]: "fval (fdec_of_int n) = of_int n"
  by (simp add: fval_def fdec_of_int_def)

text \<open>Comparison with an integer, exact as Python's is.\<close>

definition fdec_le_int :: "fdec \<Rightarrow> int \<Rightarrow> bool" where
  "fdec_le_int d n =
     (if 0 \<le> expo d then coef d * 10 ^ nat (expo d) \<le> n else coef d \<le> n * 10 ^ nat (- expo d))"

section \<open>Counting digits\<close>

fun ndigits :: "nat \<Rightarrow> nat" where
  "ndigits n = (if n < 10 then 1 else Suc (ndigits (n div 10)))"

declare ndigits.simps [simp del]

lemma ndigits_pos [simp]: "0 < ndigits n"
  by (subst ndigits.simps) simp

lemma less_power_ndigits: "n < 10 ^ ndigits n"
proof (induction n rule: ndigits.induct)
  case (1 n)
  show ?case
  proof (cases "n < 10")
    case False
    with "1" have "n div 10 < 10 ^ ndigits (n div 10)" by simp
    then have "n < 10 * 10 ^ ndigits (n div 10)" by linarith
    with False show ?thesis by (subst ndigits.simps) simp
  qed (subst ndigits.simps, simp)
qed

lemma power_ndigits_le: "0 < n \<Longrightarrow> 10 ^ (ndigits n - 1) \<le> n"
proof (induction n rule: ndigits.induct)
  case (1 n)
  show ?case
  proof (cases "n < 10")
    case True
    with "1.prems" show ?thesis by (simp add: ndigits.simps [of n])
  next
    case False
    then have "0 < n div 10" by linarith
    with False "1.IH" have "10 ^ (ndigits (n div 10) - 1) \<le> n div 10" by simp
    then have "10 * 10 ^ (ndigits (n div 10) - 1) \<le> n" by linarith
    moreover have "10 * 10 ^ (ndigits (n div 10) - 1) = (10 :: nat) ^ ndigits (n div 10)"
      using ndigits_pos [of "n div 10"] by (cases "ndigits (n div 10)") auto
    ultimately show ?thesis using False by (simp add: ndigits.simps [of n])
  qed
qed

lemma ndigits_le_iff:
  assumes "0 < k"
  shows "ndigits n \<le> k \<longleftrightarrow> n < 10 ^ k"
proof
  assume "ndigits n \<le> k"
  then have "(10 :: nat) ^ ndigits n \<le> 10 ^ k" by (simp add: power_increasing)
  with less_power_ndigits [of n] show "n < 10 ^ k" by linarith
next
  assume lt: "n < 10 ^ k"
  show "ndigits n \<le> k"
  proof (cases "n = 0")
    case True
    with assms show ?thesis by (simp add: ndigits.simps)
  next
    case False
    then have "(10 :: nat) ^ (ndigits n - 1) \<le> n" by (intro power_ndigits_le) simp
    with lt have "(10 :: nat) ^ (ndigits n - 1) < 10 ^ k" by linarith
    then have "ndigits n - 1 < k" by simp
    then show ?thesis by linarith
  qed
qed

lemma ndigits_eqI:
  assumes "10 ^ k \<le> n" and "n < 10 ^ Suc k"
  shows "ndigits n = Suc k"
proof (rule antisym)
  show "ndigits n \<le> Suc k" using assms(2) by (simp add: ndigits_le_iff)
  have "k < ndigits n"
  proof (cases k)
    case (Suc j)
    with assms(1) show ?thesis using ndigits_le_iff [of k n] by (simp add: not_le [symmetric])
  qed simp
  then show "Suc k \<le> ndigits n" by simp
qed

section \<open>Rounding half to even\<close>

definition round_half_even :: "int \<Rightarrow> int \<Rightarrow> int" where
  "round_half_even n d =
     (let q = n div d; r = n mod d in
      if 2 * r < d then q else if d < 2 * r then q + 1 else if even q then q else q + 1)"

lemma round_half_even_exact [simp]: "0 < d \<Longrightarrow> round_half_even (q * d) d = q"
  by (simp add: round_half_even_def)

lemma round_half_even_le:
  assumes "0 < d" and "n \<le> q * d"
  shows "round_half_even n d \<le> q"
proof (cases "n = q * d")
  case True
  with assms show ?thesis by simp
next
  case False
  with assms have less: "n < q * d" by simp
  have "n div d < q"
  proof (rule ccontr)
    assume "\<not> n div d < q"
    with assms(1) have "q * d \<le> n div d * d" by simp
    also have "\<dots> \<le> n" using assms(1) by (metis div_mult_mod_eq le_add_same_cancel1 pos_mod_sign)
    finally show False using less by simp
  qed
  then show ?thesis by (auto simp: round_half_even_def Let_def)
qed

lemma round_half_even_nonneg:
  assumes "0 < d" and "0 \<le> n"
  shows "0 \<le> round_half_even n d"
proof -
  from assms have "0 \<le> n div d" by (simp add: pos_imp_zdiv_nonneg_iff)
  then show ?thesis by (auto simp: round_half_even_def Let_def)
qed

section \<open>The context\<close>

definition dec_prec :: int where "dec_prec = 28"
definition dec_etiny :: int where "dec_etiny = - 1000026"
definition dec_etop :: int where "dec_etop = 999972"
definition dec_emax :: int where "dec_emax = 999999"

lemmas dec_context = dec_prec_def dec_etiny_def dec_etop_def dec_emax_def

text \<open>
  Every arithmetic result passes through \<open>dec_fix\<close>, which rounds the exact result (a coefficient
  and an exponent) to the context. \<open>None\<close> is the trapped \<open>Overflow\<close> signal, which Python raises.
\<close>

definition dec_fix :: "int \<Rightarrow> int \<Rightarrow> fdec option" where
  "dec_fix c e =
     (if c = 0 then Some (Fdec 0 (max dec_etiny (min e dec_emax)))
      else let lo = int (ndigits (nat \<bar>c\<bar>)) + e - dec_prec; m = max lo dec_etiny in
           if dec_etop < lo then None
           else if e < m then
             (let c' = round_half_even c (10 ^ nat (m - e)) in
              if dec_prec < int (ndigits (nat \<bar>c'\<bar>)) then
                (if dec_etop < m + 1 then None else Some (Fdec (c' div 10) (m + 1)))
              else Some (Fdec c' m))
           else Some (Fdec c e))"

definition dec_mul :: "fdec \<Rightarrow> fdec \<Rightarrow> fdec option" where
  "dec_mul a b = dec_fix (coef a * coef b) (expo a + expo b)"

definition dec_add :: "fdec \<Rightarrow> fdec \<Rightarrow> fdec option" where
  "dec_add a b =
     (let m = min (expo a) (expo b) in
      dec_fix (coef a * 10 ^ nat (expo a - m) + coef b * 10 ^ nat (expo b - m)) m)"

text \<open>Division by \<open>10 ^ k\<close>: the correctly rounded exact quotient.\<close>

definition dec_div_pow10 :: "fdec \<Rightarrow> nat \<Rightarrow> fdec option" where
  "dec_div_pow10 a k = dec_fix (coef a) (expo a - int k)"

text \<open>\<open>to_integral_value\<close> followed by \<open>int\<close>, with the two rounding modes the code asks for.\<close>

definition to_integral_half_even :: "fdec \<Rightarrow> int" where
  "to_integral_half_even d =
     (if 0 \<le> expo d then coef d * 10 ^ nat (expo d)
      else round_half_even (coef d) (10 ^ nat (- expo d)))"

definition to_integral_ceiling :: "fdec \<Rightarrow> int" where
  "to_integral_ceiling d =
     (if 0 \<le> expo d then coef d * 10 ^ nat (expo d)
      else ceil_div (coef d) (10 ^ nat (- expo d)))"

section \<open>Exact values\<close>

lemma fval_Fdec: "fval (Fdec c e) = of_int c * 10 powi e"
  by (simp add: fval_def)

lemma powi_split: "e \<le> m \<Longrightarrow> (10 :: rat) powi m = 10 powi e * 10 ^ nat (m - e)"
proof -
  assume "e \<le> m"
  then have "m = e + int (nat (m - e))" by simp
  then have "(10 :: rat) powi m = 10 powi (e + int (nat (m - e)))" by simp
  also have "\<dots> = 10 powi e * 10 ^ nat (m - e)" by (subst power_int_add, simp, subst power_int_of_nat, rule refl)
  finally show ?thesis .
qed

lemma fval_shift: "fval (Fdec (c * 10 ^ k) e) = fval (Fdec c (e + int k))"
  by (simp add: fval_Fdec powi_split [of e "e + int k"])

lemma fval_nonneg_expo: "0 \<le> e \<Longrightarrow> fval (Fdec c e) = of_int (c * 10 ^ nat e)"
  by (simp add: fval_Fdec powi_split [of 0 e])

lemma fval_neg_expo: "e \<le> 0 \<Longrightarrow> fval (Fdec c e) = of_int c / 10 ^ nat (- e)"
  using powi_split [of e 0] by (simp add: fval_Fdec field_simps)

lemma fdec_le_int_iff: "fdec_le_int d n \<longleftrightarrow> fval d \<le> of_int n"
proof (cases "0 \<le> expo d")
  case True
  then have "fval d = of_int (coef d * 10 ^ nat (expo d))"
    using fval_nonneg_expo [of "expo d" "coef d"] by simp
  with True show ?thesis unfolding fdec_le_int_def by (simp only: if_True of_int_le_iff)
next
  case False
  then have "fval d = of_int (coef d) / 10 ^ nat (- expo d)"
    using fval_neg_expo [of "expo d" "coef d"] by simp
  moreover have "of_int (coef d) / 10 ^ nat (- expo d) \<le> (of_int n :: rat)
      \<longleftrightarrow> of_int (coef d) \<le> (of_int (n * 10 ^ nat (- expo d)) :: rat)"
    by (simp add: divide_le_eq)
  ultimately show ?thesis using False unfolding fdec_le_int_def by (simp only: if_False of_int_le_iff)
qed

lemma ceil_div_ceiling:
  assumes "0 < d"
  shows "ceil_div n d = \<lceil>of_int n / (of_int d :: rat)\<rceil>"
proof (rule ceiling_unique [symmetric])
  have "of_int (ceil_div n d * d) < (of_int (n + d) :: rat)"
    using ceil_div_lower [OF assms, of n] by (simp only: of_int_less_iff)
  with assms show "of_int (ceil_div n d) - 1 < of_int n / (of_int d :: rat)"
    by (simp add: less_divide_eq algebra_simps)
  have "of_int n \<le> (of_int (ceil_div n d * d) :: rat)"
    using ceil_div_upper [OF assms, of n] by (simp only: of_int_le_iff)
  with assms show "of_int n / of_int d \<le> (of_int (ceil_div n d) :: rat)"
    by (simp add: divide_le_eq)
qed

lemma to_integral_ceiling_value: "to_integral_ceiling d = \<lceil>fval d\<rceil>"
proof (cases "0 \<le> expo d")
  case True
  then have "fval d = of_int (coef d * 10 ^ nat (expo d))"
    using fval_nonneg_expo [of "expo d" "coef d"] by simp
  with True show ?thesis by (simp only: to_integral_ceiling_def if_True ceiling_of_int)
next
  case False
  then show ?thesis
    using fval_neg_expo [of "expo d" "coef d"]
    by (simp add: to_integral_ceiling_def ceil_div_ceiling)
qed

lemma to_integral_half_even_exact:
  assumes "fval d = of_int z"
  shows "to_integral_half_even d = z"
proof (cases "0 \<le> expo d")
  case True
  then have "fval d = of_int (coef d * 10 ^ nat (expo d))"
    using fval_nonneg_expo [of "expo d" "coef d"] by simp
  with assms have "coef d * 10 ^ nat (expo d) = z" by (simp only: of_int_eq_iff)
  with True show ?thesis by (simp add: to_integral_half_even_def)
next
  case False
  with assms have "of_int (coef d) = (of_int (z * 10 ^ nat (- expo d)) :: rat)"
    using fval_neg_expo [of "expo d" "coef d"] by (simp add: field_simps)
  then have "coef d = z * 10 ^ nat (- expo d)" by (simp only: of_int_eq_iff)
  with False show ?thesis by (simp add: to_integral_half_even_def)
qed

section \<open>Rounding to the context\<close>

text \<open>A result of at most 28 digits, and one that only has trailing zeros beyond them, is exact.\<close>

lemma dec_fix_exact:
  assumes "\<bar>c\<bar> < 10 ^ 28" and "dec_etiny \<le> e" and "e \<le> dec_etop"
  shows "dec_fix c e = Some (Fdec c e)"
proof -
  have "nat \<bar>c\<bar> < 10 ^ 28" using assms(1) by (simp add: nat_less_iff)
  then have "ndigits (nat \<bar>c\<bar>) \<le> 28" by (simp add: ndigits_le_iff)
  then have "int (ndigits (nat \<bar>c\<bar>)) + e - dec_prec \<le> e" by (simp add: dec_prec_def)
  then show ?thesis using assms(2,3)
    by (cases "c = 0") (auto simp: dec_fix_def Let_def dec_context)
qed

lemma ndigits_mult_power: "0 < n \<Longrightarrow> ndigits (n * 10 ^ k) = ndigits n + k"
proof (induction k)
  case (Suc k)
  then have "1 \<le> n * 10 ^ k" by simp
  then have "10 \<le> n * 10 ^ Suc k" by (simp only: power_Suc mult.left_commute [of n] mult_le_mono2
      [of 1 "n * 10 ^ k" 10, simplified])
  then have "ndigits (n * 10 ^ Suc k) = Suc (ndigits (n * 10 ^ Suc k div 10))"
    by (subst ndigits.simps) simp
  also have "n * 10 ^ Suc k div 10 = n * 10 ^ k" by simp
  finally show ?case using Suc by simp
qed simp

lemma dec_fix_trailing_zeros:
  assumes "\<bar>c\<bar> < 10 ^ 28" and "dec_etiny \<le> e" and "e + int k \<le> dec_etop"
  shows "\<exists>d. dec_fix (c * 10 ^ k) e = Some d \<and> fval d = fval (Fdec c (e + int k))"
proof (cases "c = 0")
  case True
  then show ?thesis by (simp add: dec_fix_def fval_Fdec)
next
  case False
  define n where "n = nat \<bar>c\<bar>"
  have n: "0 < n" "n < 10 ^ 28" using assms(1) False by (auto simp: n_def nat_less_iff)
  have abs: "nat \<bar>c * 10 ^ k\<bar> = n * 10 ^ k" by (simp add: n_def abs_mult nat_mult_distrib nat_power_eq)
  have nd: "ndigits n \<le> 28" using n by (simp add: ndigits_le_iff)
  define lo where "lo = int (ndigits n + k) + e - dec_prec"
  have lo: "lo \<le> e + int k" using nd by (simp add: lo_def dec_prec_def)
  define m where "m = max lo dec_etiny"
  have m: "m \<le> e + int k" using lo assms(2) by (simp add: m_def)
  have fix_eq: "dec_fix (c * 10 ^ k) e =
      (if e < m then
         (let c' = round_half_even (c * 10 ^ k) (10 ^ nat (m - e)) in
          if dec_prec < int (ndigits (nat \<bar>c'\<bar>)) then
            (if dec_etop < m + 1 then None else Some (Fdec (c' div 10) (m + 1)))
          else Some (Fdec c' m))
       else Some (Fdec (c * 10 ^ k) e))"
  proof -
    have lo_eq: "int (ndigits (nat \<bar>c * 10 ^ k\<bar>)) + e - dec_prec = lo"
      using n(1) by (simp add: abs ndigits_mult_power lo_def)
    have "c * 10 ^ k \<noteq> 0" and "\<not> dec_etop < lo" using False lo assms(3) by auto
    then show ?thesis unfolding dec_fix_def Let_def lo_eq m_def [symmetric] by (simp only: if_False)
  qed
  show ?thesis
  proof (cases "e < m")
    case False
    with fix_eq show ?thesis by (simp add: fval_shift)
  next
    case True
    define j where "j = nat (m - e)"
    have j: "j \<le> k" "int j = m - e" using m True by (auto simp: j_def)
    have "c * 10 ^ k = (c * 10 ^ (k - j)) * 10 ^ j"
      using j(1) by (simp add: mult.assoc power_add [symmetric])
    then have r: "round_half_even (c * 10 ^ k) (10 ^ nat (m - e)) = c * 10 ^ (k - j)"
      by (simp only: j_def [symmetric] round_half_even_exact zero_less_power zero_less_numeral)
    have abs': "nat \<bar>c * 10 ^ (k - j)\<bar> = n * 10 ^ (k - j)"
      by (simp add: n_def abs_mult nat_mult_distrib nat_power_eq)
    have "int (ndigits (n * 10 ^ (k - j))) \<le> dec_prec"
      using n(1) j m_def lo_def by (simp add: ndigits_mult_power)
    with True fix_eq have "dec_fix (c * 10 ^ k) e = Some (Fdec (c * 10 ^ (k - j)) m)"
      by (simp add: r Let_def abs')
    moreover have "fval (Fdec (c * 10 ^ (k - j)) m) = fval (Fdec c (e + int k))"
      using j by (simp add: fval_shift of_nat_diff add.commute)
    ultimately show ?thesis by blast
  qed
qed

text \<open>
  Rounding never carries a result past an integer of at most 28 digits, and never overflows below
  one: such an integer is itself representable at every exponent the context may choose.
\<close>

lemma dec_fix_le_int:
  assumes "0 \<le> c" and "fval (Fdec c e) \<le> of_int N" and "N < 10 ^ 28"
  shows "\<exists>d. dec_fix c e = Some d \<and> fval d \<le> of_int N \<and> 0 \<le> fval d"
proof (cases "c = 0")
  case True
  with assms(2) show ?thesis by (simp add: dec_fix_def fval_Fdec)
next
  case False
  with assms(1) have c: "0 < c" by simp
  define lo where "lo = int (ndigits (nat \<bar>c\<bar>)) + e - dec_prec"
  define m where "m = max lo dec_etiny"
  have lo: "lo \<le> 0"
  proof (rule ccontr)
    assume "\<not> lo \<le> 0"
    then have pos: "28 \<le> int (ndigits (nat c) - 1) + e"
      using c ndigits_pos [of "nat c"] by (simp add: lo_def dec_prec_def)
    have "int (10 ^ (ndigits (nat c) - 1)) \<le> c"
      using power_ndigits_le [of "nat c"] c by (simp only: zero_less_nat_eq le_nat_iff [OF less_imp_le])
    then have "(of_int (10 ^ (ndigits (nat c) - 1)) :: rat) \<le> of_int c"
      by (simp only: of_int_le_iff of_nat_power of_nat_numeral)
    then have le: "(10 :: rat) ^ (ndigits (nat c) - 1) * 10 powi e \<le> of_int c * 10 powi e"
      by (intro mult_right_mono) (simp_all only: of_int_power of_int_numeral, simp)
    have "(10 :: rat) ^ 28 = 10 powi 28" by simp
    also have "\<dots> \<le> 10 powi (int (ndigits (nat c) - 1) + e)"
      using pos by (intro power_int_increasing) simp_all
    also have "\<dots> = 10 ^ (ndigits (nat c) - 1) * 10 powi e"
      by (subst power_int_add, simp, subst power_int_of_nat, rule refl)
    also note le
    finally have "(10 :: rat) ^ 28 \<le> fval (Fdec c e)" by (simp only: fval_Fdec)
    with assms(2) have "(of_int (10 ^ 28) :: rat) \<le> of_int N"
      by (simp only: of_int_power of_int_numeral)
    with assms(3) show False by (simp only: of_int_le_iff)
  qed
  then have m: "m \<le> 0" by (simp add: m_def dec_etiny_def)
  have fix_eq: "dec_fix c e =
      (if e < m then
         (let c' = round_half_even c (10 ^ nat (m - e)) in
          if dec_prec < int (ndigits (nat \<bar>c'\<bar>)) then
            (if dec_etop < m + 1 then None else Some (Fdec (c' div 10) (m + 1)))
          else Some (Fdec c' m))
       else Some (Fdec c e))"
  proof -
    have "\<not> dec_etop < lo" using lo by (simp add: dec_etop_def)
    with False show ?thesis unfolding dec_fix_def Let_def lo_def [symmetric] m_def [symmetric]
      by (simp only: if_False)
  qed
  show ?thesis
  proof (cases "e < m")
    case F: False
    with fix_eq assms c show ?thesis by (simp add: fval_Fdec)
  next
    case True
    define d :: int where "d = 10 ^ nat (m - e)"
    define c' where "c' = round_half_even c d"
    have d: "0 < d" by (simp add: d_def)
    define M where "M = N * 10 ^ nat (- m)"
    have "of_int c * 10 powi e \<le> (of_int N :: rat)" using assms(2) by (simp add: fval_Fdec)
    moreover have "(1 :: rat) = 10 powi e * of_int d * of_int (10 ^ nat (- m))"
      using powi_split [of e m] powi_split [of m 0] True m by (simp add: d_def)
    ultimately have "of_int c * 10 powi e \<le> (of_int (M * d) :: rat) * 10 powi e"
      by (simp add: M_def mult.commute mult.left_commute)
    then have "(of_int c :: rat) \<le> of_int (M * d)" by (simp add: mult_le_cancel_right)
    then have cM: "c \<le> M * d" by (simp only: of_int_le_iff)
    have c'M: "c' \<le> M" unfolding c'_def by (rule round_half_even_le [OF d cM])
    have c'0: "0 \<le> c'" unfolding c'_def using c by (intro round_half_even_nonneg d) simp
    have "fval (Fdec c' m) \<le> fval (Fdec M m)"
      using c'M by (simp add: fval_Fdec mult_right_mono)
    also have "fval (Fdec M m) = of_int N" using m by (simp add: fval_neg_expo M_def)
    finally have le: "fval (Fdec c' m) \<le> of_int N" .
    show ?thesis
    proof (cases "dec_prec < int (ndigits (nat \<bar>c'\<bar>))")
      case F: False
      with fix_eq True le c'0 show ?thesis
        by (simp add: Let_def d_def [symmetric] c'_def [symmetric]) (simp add: fval_Fdec)
    next
      case big: True
      have "fval (Fdec (c' div 10) (m + 1)) = of_int (c' div 10 * 10) * 10 powi m"
        by (simp add: fval_Fdec power_int_add)
      also have "\<dots> \<le> of_int c' * 10 powi m"
        by (intro mult_right_mono) (simp_all only: of_int_le_iff, simp_all)
      finally have "fval (Fdec (c' div 10) (m + 1)) \<le> of_int N" using le by (simp add: fval_Fdec)
      moreover have "0 \<le> fval (Fdec (c' div 10) (m + 1))"
        using c'0 by (simp add: fval_Fdec pos_imp_zdiv_nonneg_iff)
      moreover have "\<not> dec_etop < m + 1" using m by (simp add: dec_etop_def)
      ultimately show ?thesis using fix_eq True big
        by (simp add: Let_def d_def [symmetric] c'_def [symmetric])
    qed
  qed
qed

end
