(* ===== verification/Decimal_Text.thy ===== *)
theory Decimal_Text
  imports Decimal_Arith
begin

text \<open>
  The textual side of Python's \<open>decimal\<close> and \<open>int\<close>: rendering a natural number in base ten, and
  \<open>Decimal(text)\<close>. A configuration value is modelled as Latin-1 text, whose only decimal digits
  are the ASCII ones and whose white space is the set listed in \<open>py_is_space\<close>.
\<close>

section \<open>Digits\<close>

definition digit_char :: "nat \<Rightarrow> char" where
  "digit_char n = char_of (48 + n)"

definition is_digit :: "char \<Rightarrow> bool" where
  "is_digit c \<longleftrightarrow> 48 \<le> (of_char c :: nat) \<and> (of_char c :: nat) \<le> 57"

definition digit_val :: "char \<Rightarrow> nat" where
  "digit_val c = of_char c - 48"

fun show_nat :: "nat \<Rightarrow> string" where
  "show_nat n = (if n < 10 then [digit_char n] else show_nat (n div 10) @ [digit_char (n mod 10)])"

declare show_nat.simps [simp del]

definition nat_of_digits :: "string \<Rightarrow> nat" where
  "nat_of_digits s = foldl (\<lambda>a c. 10 * a + digit_val c) 0 s"

lemma of_char_digit_char: "n < 10 \<Longrightarrow> (of_char (digit_char n) :: nat) = 48 + n"
  by (simp add: digit_char_def)

lemma digit_val_digit_char [simp]: "n < 10 \<Longrightarrow> digit_val (digit_char n) = n"
  by (simp add: digit_val_def of_char_digit_char)

lemma is_digit_digit_char [simp]: "n < 10 \<Longrightarrow> is_digit (digit_char n)"
  by (simp add: is_digit_def of_char_digit_char)

lemma show_nat_digits: "\<forall>c \<in> set (show_nat n). is_digit c"
proof (induction n rule: show_nat.induct)
  case (1 n)
  then show ?case by (subst show_nat.simps) auto
qed

lemma show_nat_nonempty [simp]: "show_nat n \<noteq> []"
  by (subst show_nat.simps) simp

lemma foldl_digits_append:
  "foldl (\<lambda>a c. 10 * a + digit_val c) a (xs @ ys) =
     foldl (\<lambda>a c. 10 * a + digit_val c) (foldl (\<lambda>a c. 10 * a + digit_val c) a xs) ys"
  by simp

lemma foldl_digits_start:
  "foldl (\<lambda>a c. 10 * a + digit_val c) a ys = a * 10 ^ length ys + nat_of_digits ys"
proof (induction ys arbitrary: a)
  case (Cons y ys)
  show ?case
    using Cons [of "10 * a + digit_val y"] Cons [of "digit_val y"]
    by (simp add: nat_of_digits_def algebra_simps)
qed (simp add: nat_of_digits_def)

lemma nat_of_digits_append:
  "nat_of_digits (xs @ ys) = nat_of_digits xs * 10 ^ length ys + nat_of_digits ys"
  using foldl_digits_start [of "nat_of_digits xs" ys] by (simp add: nat_of_digits_def)

lemma nat_of_digits_show_nat [simp]: "nat_of_digits (show_nat n) = n"
proof (induction n rule: show_nat.induct)
  case (1 n)
  show ?case
  proof (cases "n < 10")
    case True
    then show ?thesis by (subst show_nat.simps) (simp add: nat_of_digits_def)
  next
    case False
    then have "show_nat n = show_nat (n div 10) @ [digit_char (n mod 10)]"
      by (subst show_nat.simps) simp
    with False "1" show ?thesis
      by (simp add: nat_of_digits_append) (simp add: nat_of_digits_def)
  qed
qed

lemma nat_of_digits_zeros [simp]: "nat_of_digits (replicate k (CHR ''0'')) = 0"
  by (induction k) (simp_all add: nat_of_digits_def digit_val_def)

lemma length_show_nat: "length (show_nat n) = ndigits n"
proof (induction n rule: show_nat.induct)
  case (1 n)
  then show ?case by (subst show_nat.simps, subst ndigits.simps) simp
qed

text \<open>Zero padding to a width, as the format \<open>{n:09d}\<close> does, and \<open>rstrip("0")\<close>.\<close>

definition zero_pad :: "nat \<Rightarrow> nat \<Rightarrow> string" where
  "zero_pad w n = replicate (w - length (show_nat n)) (CHR ''0'') @ show_nat n"

definition rstrip_zeros :: "string \<Rightarrow> string" where
  "rstrip_zeros s = rev (dropWhile (\<lambda>c. c = CHR ''0'') (rev s))"

lemma nat_of_digits_zero_pad [simp]: "nat_of_digits (zero_pad w n) = n"
  by (simp add: zero_pad_def nat_of_digits_append)

lemma length_zero_pad: "ndigits n \<le> w \<Longrightarrow> length (zero_pad w n) = w"
  by (simp add: zero_pad_def length_show_nat)

lemma zero_pad_digits: "\<forall>c \<in> set (zero_pad w n). is_digit c"
  using show_nat_digits [of n] by (auto simp: zero_pad_def is_digit_def)

lemma rstrip_zeros_decomp:
  "\<exists>k. s = rstrip_zeros s @ replicate k (CHR ''0'')"
proof -
  have "rev s = takeWhile (\<lambda>c. c = CHR ''0'') (rev s) @ dropWhile (\<lambda>c. c = CHR ''0'') (rev s)"
    by simp
  then have "s = rev (dropWhile (\<lambda>c. c = CHR ''0'') (rev s)) @
      rev (takeWhile (\<lambda>c. c = CHR ''0'') (rev s))"
    by (metis rev_append rev_rev_ident)
  moreover have "\<forall>c \<in> set (takeWhile (\<lambda>c. c = CHR ''0'') (rev s)). c = CHR ''0''"
    by (auto dest: set_takeWhileD)
  then have "takeWhile (\<lambda>c. c = CHR ''0'') (rev s) =
      replicate (length (takeWhile (\<lambda>c. c = CHR ''0'') (rev s))) (CHR ''0'')"
    by (intro replicate_length_same [symmetric]) auto
  ultimately show ?thesis unfolding rstrip_zeros_def by (metis rev_replicate)
qed

lemma rstrip_zeros_value:
  obtains k where "length s = length (rstrip_zeros s) + k"
    and "nat_of_digits s = nat_of_digits (rstrip_zeros s) * 10 ^ k"
proof -
  obtain k where k: "s = rstrip_zeros s @ replicate k (CHR ''0'')"
    using rstrip_zeros_decomp by blast
  have "length s = length (rstrip_zeros s) + k" by (subst k) simp
  moreover have "nat_of_digits s = nat_of_digits (rstrip_zeros s) * 10 ^ k"
    by (subst k) (simp only: nat_of_digits_append, simp)
  ultimately show ?thesis by (rule that)
qed

lemma rstrip_zeros_subset: "set (rstrip_zeros s) \<subseteq> set s"
  by (auto simp: rstrip_zeros_def dest: set_dropWhileD)

section \<open>\<open>Decimal(text)\<close>\<close>

definition py_is_space :: "char \<Rightarrow> bool" where
  "py_is_space c \<longleftrightarrow> (of_char c :: nat) \<in> {9, 10, 11, 12, 13, 28, 29, 30, 31, 32, 133, 160}"

definition py_strip :: "string \<Rightarrow> string" where
  "py_strip s = rev (dropWhile py_is_space (rev (dropWhile py_is_space s)))"

definition ascii_lower :: "char \<Rightarrow> char" where
  "ascii_lower c = (if 65 \<le> (of_char c :: nat) \<and> (of_char c :: nat) \<le> 90
     then char_of ((of_char c :: nat) + 32) else c)"

definition split_sign :: "string \<Rightarrow> bool \<times> string" where
  "split_sign s = (case s of
     [] \<Rightarrow> (False, [])
   | c # r \<Rightarrow> if c = CHR ''-'' then (True, r) else if c = CHR ''+'' then (False, r) else (False, s))"

definition dec_exponent :: "string \<Rightarrow> int option" where
  "dec_exponent s = (case s of
     [] \<Rightarrow> Some 0
   | c # r \<Rightarrow>
       if c \<noteq> CHR ''e'' then None
       else let (neg, ds) = split_sign r in
            if ds = [] \<or> \<not> list_all is_digit ds then None
            else Some (if neg then - int (nat_of_digits ds) else int (nat_of_digits ds)))"

text \<open>The exponents an exactly constructed decimal may have.\<close>

definition dec_representable :: "nat \<Rightarrow> int \<Rightarrow> bool" where
  "dec_representable c e \<longleftrightarrow> - 1999999999999999997 \<le> e \<and> int (ndigits c) + e - 1 \<le> 999999999999999999"

definition dec_number :: "bool \<Rightarrow> string \<Rightarrow> decimal option" where
  "dec_number neg s =
     (let ip = takeWhile is_digit s; r1 = dropWhile is_digit s;
          (fp, r2) = (case r1 of
              [] \<Rightarrow> ([], [])
            | c # r \<Rightarrow> if c = CHR ''.'' then (takeWhile is_digit r, dropWhile is_digit r) else ([], r1))
      in if ip = [] \<and> fp = [] then None
         else case dec_exponent r2 of
             None \<Rightarrow> None
           | Some x \<Rightarrow>
               let c = nat_of_digits (ip @ fp); e = x - int (length fp) in
               if dec_representable c e then Some (Finite (Fdec (if neg then - int c else int c) e))
               else None)"

definition dec_is_nan :: "string \<Rightarrow> bool" where
  "dec_is_nan s =
     (let r = (if take 1 s = ''s'' then drop 1 s else s) in
      take 3 r = ''nan'' \<and> list_all is_digit (drop 3 r))"

text \<open>\<open>None\<close> is \<open>InvalidOperation\<close>, which the constructor raises for anything else.\<close>

definition dec_parse :: "string \<Rightarrow> decimal option" where
  "dec_parse s =
     (let (neg, body) = split_sign (filter (\<lambda>c. c \<noteq> CHR ''_'') (py_strip s));
          l = map ascii_lower body
      in if l = ''inf'' \<or> l = ''infinity'' then Some (Infinite neg)
         else if dec_is_nan l then Some NotANumber
         else dec_number neg l)"

section \<open>Parsing what the code renders\<close>

lemma digit_facts:
  assumes "is_digit c"
  shows "\<not> py_is_space c" "c \<noteq> CHR ''_''" "c \<noteq> CHR ''-''" "c \<noteq> CHR ''+''" "c \<noteq> CHR ''.''"
    "ascii_lower c = c" "c \<noteq> CHR ''i''" "c \<noteq> CHR ''s''" "c \<noteq> CHR ''n''"
  using assms by (auto simp: is_digit_def py_is_space_def ascii_lower_def)

lemma py_strip_id: "\<forall>c \<in> set s. \<not> py_is_space c \<Longrightarrow> py_strip s = s"
  by (simp add: py_strip_def dropWhile_eq_self_iff) (metis dropWhile_eq_self_iff hd_in_set
      hd_rev last_in_set rev_is_Nil_conv rev_rev_ident)

lemma dec_number_fraction:
  assumes "\<forall>c \<in> set ip. is_digit c" "ip \<noteq> []" "\<forall>c \<in> set fp. is_digit c"
    and "dec_representable (nat_of_digits (ip @ fp)) (- int (length fp))"
  shows "dec_number neg (ip @ (if fp = [] then [] else CHR ''.'' # fp)) =
    Some (Finite (Fdec (if neg then - int (nat_of_digits (ip @ fp))
      else int (nat_of_digits (ip @ fp))) (- int (length fp))))"
proof -
  have dot: "\<not> is_digit (CHR ''.'')" by (simp add: is_digit_def)
  have ip_tw: "takeWhile is_digit (ip @ (if fp = [] then [] else CHR ''.'' # fp)) = ip"
    and ip_dw: "dropWhile is_digit (ip @ (if fp = [] then [] else CHR ''.'' # fp)) =
      (if fp = [] then [] else CHR ''.'' # fp)"
    using assms(1) dot by (auto simp: takeWhile_append2 dropWhile_append2)
  have fp_tw: "takeWhile is_digit fp = fp" and fp_dw: "dropWhile is_digit fp = []"
    using assms(3) by (auto simp: takeWhile_eq_all_conv)
  show ?thesis
  proof (cases "fp = []")
    case True
    with assms(2,4) show ?thesis
      unfolding dec_number_def Let_def ip_tw ip_dw by (simp add: dec_exponent_def)
  next
    case False
    with assms(2,4) show ?thesis
      unfolding dec_number_def Let_def ip_tw ip_dw by (simp add: dec_exponent_def fp_tw fp_dw)
  qed
qed

lemma dec_parse_fraction:
  assumes ip: "\<forall>c \<in> set ip. is_digit c" "ip \<noteq> []" and fp: "\<forall>c \<in> set fp. is_digit c"
    and rep: "dec_representable (nat_of_digits (ip @ fp)) (- int (length fp))"
  shows "dec_parse ((if neg then ''-'' else []) @ ip @ (if fp = [] then [] else CHR ''.'' # fp)) =
    Some (Finite (Fdec (if neg then - int (nat_of_digits (ip @ fp))
      else int (nat_of_digits (ip @ fp))) (- int (length fp))))"
proof -
  define b where "b = ip @ (if fp = [] then [] else CHR ''.'' # fp)"
  define s where "s = (if neg then ''-'' else []) @ b"
  obtain d ds where ip_eq: "ip = d # ds" and d: "is_digit d" using ip by (cases ip) auto
  have b_chars: "\<forall>c \<in> set b. is_digit c \<or> c = CHR ''.''"
    using ip(1) fp by (auto simp: b_def split: if_splits)
  have s_chars: "\<forall>c \<in> set s. is_digit c \<or> c = CHR ''.'' \<or> c = CHR ''-''"
    using b_chars by (auto simp: s_def)
  have "\<forall>c \<in> set s. \<not> py_is_space c \<and> c \<noteq> CHR ''_''"
    using s_chars digit_facts(1,2) by (auto simp: py_is_space_def)
  then have clean: "filter (\<lambda>c. c \<noteq> CHR ''_'') (py_strip s) = s" by (simp add: py_strip_id)
  have b_eq: "b = d # ds @ (if fp = [] then [] else CHR ''.'' # fp)" by (simp add: b_def ip_eq)
  have sign: "split_sign s = (neg, b)"
    using digit_facts(3,4) [OF d] by (simp add: s_def split_sign_def b_eq)
  have dot: "ascii_lower (CHR ''.'') = CHR ''.''" by (simp add: ascii_lower_def)
  have "\<forall>c \<in> set b. ascii_lower c = c"
    using b_chars digit_facts(6) dot by auto
  then have low: "map ascii_lower b = b" by (simp add: map_idI)
  have "b \<noteq> ''inf''" "b \<noteq> ''infinity''" "\<not> dec_is_nan b"
    using digit_facts(7-9) [OF d] by (auto simp: b_eq dec_is_nan_def Let_def)
  then have "dec_parse s = dec_number neg b"
    by (simp add: dec_parse_def clean sign low)
  then show ?thesis
    using dec_number_fraction [OF ip fp rep] by (simp add: s_def b_def)
qed

end
