(* ===== verification/Budget.thy ===== *)
theory Budget
  imports Decimal_Text
begin

text \<open>
  \<open>sidecar/src/playerbots_llm/budget.py\<close>: the budget admission policy as pure functions of their
  arguments. Money is an unbounded integer of nano dollars, as in the code; prices and ratios go
  through Python's decimal arithmetic (\<open>Decimal_Arith\<close>, \<open>Decimal_Text\<close>).
\<close>

section \<open>Data\<close>

definition nano :: int where "nano = 1000000000"

datatype request_priority = ImmediateHuman | Background

datatype request_kind =
    ChatResponse
  | BackstoryGeneration
  | MemoryExtraction
  | ModerationClassification
  | CareerGeneration

datatype admission_decision =
    Admitted
  | DeniedCeiling
  | DeniedReserve
  | DeniedCircuitOpen
  | DeniedUnknownPricing
  | DeniedInvalidRequest

record budget_state =
  settled_nano :: int
  outstanding_nano :: int
  circuit_open :: bool

definition committed_nano :: "budget_state \<Rightarrow> int" where
  "committed_nano s = settled_nano s + outstanding_nano s"

text \<open>
  What the functions raise: the module's own error, or the \<open>Overflow\<close> of the decimal context,
  which no handler of this module catches.
\<close>

datatype budget_error = BudgetConfigurationError | DecimalOverflow

definition raise_overflow :: "'a option \<Rightarrow> budget_error + 'a" where
  "raise_overflow r = (case r of None \<Rightarrow> Inl DecimalOverflow | Some x \<Rightarrow> Inr x)"

text \<open>
  An amount handed to \<open>Decimal(...)\<close>: text, an integer or a decimal. A float is either not finite
  or has a text, Python's \<open>str\<close> of it.
\<close>

datatype money_in = MText string | MInt int | MDec decimal

datatype py_float = FloatNan | FloatInf bool | FloatFinite string

datatype usd_in = Usd money_in | UsdFloat py_float

fun decimal_of :: "money_in \<Rightarrow> decimal option" where
  "decimal_of (MText s) = dec_parse s"
| "decimal_of (MInt n) = Some (Finite (fdec_of_int n))"
| "decimal_of (MDec d) = Some d"

section \<open>Conversions\<close>

definition amount_to_nano :: "money_in \<Rightarrow> budget_error + int" where
  "amount_to_nano m = (case decimal_of m of
     Some (Finite d) \<Rightarrow> map_sum id to_integral_half_even (raise_overflow (dec_mul d (fdec_of_int nano)))
   | _ \<Rightarrow> Inl BudgetConfigurationError)"

fun usd_to_nano :: "usd_in \<Rightarrow> budget_error + int" where
  "usd_to_nano (UsdFloat (FloatFinite s)) = amount_to_nano (MText s)"
| "usd_to_nano (UsdFloat _) = Inl BudgetConfigurationError"
| "usd_to_nano (Usd m) = amount_to_nano m"

definition nano_to_usd_string :: "int \<Rightarrow> string" where
  "nano_to_usd_string n =
     (let sign = (if n < 0 then ''-'' else []);
          whole = \<bar>n\<bar> div nano; fraction = \<bar>n\<bar> mod nano;
          digits = rstrip_zeros (zero_pad 9 (nat fraction))
      in if digits \<noteq> [] then sign @ show_nat (nat whole) @ CHR ''.'' # digits
         else sign @ show_nat (nat whole))"

section \<open>Configuration limits\<close>

definition storage_scale_nano :: int where "storage_scale_nano = 1000"

definition max_storable_nano :: int where "max_storable_nano = 999999999999000"

definition validate_daily_ceiling :: "money_in \<Rightarrow> budget_error + int" where
  "validate_daily_ceiling m = (case usd_to_nano (Usd m) of
     Inl e \<Rightarrow> Inl e
   | Inr ceil_nano \<Rightarrow>
       if ceil_nano \<le> 0 then Inl BudgetConfigurationError
       else if max_storable_nano < ceil_nano then Inl BudgetConfigurationError
       else Inr ceil_nano)"

definition validate_reserve_ratio :: "money_in \<Rightarrow> budget_error + fdec" where
  "validate_reserve_ratio m = (case decimal_of m of
     Some (Finite d) \<Rightarrow>
       if coef d < 0 \<or> \<not> fdec_le_int d 1 then Inl BudgetConfigurationError else Inr d
   | _ \<Rightarrow> Inl BudgetConfigurationError)"

definition reserve_floor_nano :: "int \<Rightarrow> fdec \<Rightarrow> budget_error + int" where
  "reserve_floor_nano ceil_nano ratio =
     map_sum id to_integral_ceiling (raise_overflow (dec_mul (fdec_of_int ceil_nano) ratio))"

section \<open>Costs\<close>

text \<open>\<open>(input_price * input_tokens + output_price * output_tokens) / 1000000 * NANO\<close>, rounded up.\<close>

definition priced_nano :: "int \<Rightarrow> int \<Rightarrow> fdec \<Rightarrow> fdec \<Rightarrow> fdec option" where
  "priced_nano input_tokens output_tokens pin pout =
     Option.bind (dec_mul pin (fdec_of_int input_tokens)) (\<lambda>a.
     Option.bind (dec_mul pout (fdec_of_int output_tokens)) (\<lambda>b.
     Option.bind (dec_add a b) (\<lambda>s.
     Option.bind (dec_div_pow10 s 6) (\<lambda>per_token.
     dec_mul per_token (fdec_of_int nano)))))"

definition token_cost_nano ::
  "int \<Rightarrow> int \<Rightarrow> money_in option \<Rightarrow> money_in option \<Rightarrow> budget_error + int option" where
  "token_cost_nano input_tokens output_tokens input_usd output_usd =
     (if input_tokens < 0 \<or> output_tokens < 0 then Inr None
      else case (input_usd, output_usd) of
        (Some mi, Some mo) \<Rightarrow>
          (case (decimal_of mi, decimal_of mo) of
             (Some (Finite pin), Some (Finite pout)) \<Rightarrow>
               if coef pin < 0 \<or> coef pout < 0 then Inr None
               else map_sum id (\<lambda>d. Some (to_integral_ceiling d))
                 (raise_overflow (priced_nano input_tokens output_tokens pin pout))
           | _ \<Rightarrow> Inr None)
      | _ \<Rightarrow> Inr None)"

definition conservative_max_cost_nano ::
  "int \<Rightarrow> int \<Rightarrow> money_in option \<Rightarrow> money_in option \<Rightarrow> budget_error + int option" where
  "conservative_max_cost_nano input_tokens max_output_tokens input_usd output_usd =
     token_cost_nano input_tokens max_output_tokens input_usd output_usd"

section \<open>Admission\<close>

definition admit ::
  "int \<Rightarrow> budget_state \<Rightarrow> int option \<Rightarrow> request_priority \<Rightarrow> fdec \<Rightarrow> budget_error + admission_decision" where
  "admit ceil_nano st max_cost priority ratio =
     (if circuit_open st then Inr DeniedCircuitOpen
      else case max_cost of
        None \<Rightarrow> Inr DeniedUnknownPricing
      | Some cost \<Rightarrow>
          if ceil_nano \<le> 0 \<or> cost < 0 then Inr DeniedInvalidRequest
          else let projected = committed_nano st + cost in
            if ceil_nano < projected then Inr DeniedCeiling
            else if priority = Background then
              (case reserve_floor_nano ceil_nano ratio of
                 Inl e \<Rightarrow> Inl e
               | Inr reserve_nano \<Rightarrow> if ceil_nano - reserve_nano < projected then Inr DeniedReserve else Inr Admitted)
            else Inr Admitted)"

section \<open>Storage\<close>

text \<open>\<open>None\<close> is the \<open>ValueError\<close> of a figure no stored amount has.\<close>

definition nano_to_fixed_usd_string :: "int \<Rightarrow> string option" where
  "nano_to_fixed_usd_string n =
     (if n < 0 \<or> max_storable_nano < n \<or> n mod storage_scale_nano \<noteq> 0 then None
      else Some (show_nat (nat (n div nano)) @ CHR ''.'' #
        zero_pad 6 (nat (n mod nano div storage_scale_nano))))"

definition quantize_storable_nano :: "int \<Rightarrow> int" where
  "quantize_storable_nano n =
     (if n \<le> 0 then 0 else ceil_div n storage_scale_nano * storage_scale_nano)"

definition storable_actual_cost_nano :: "int \<Rightarrow> int" where
  "storable_actual_cost_nano actual =
     (if actual < 0 then 0 else min (quantize_storable_nano actual) max_storable_nano)"

definition circuit_should_open :: "int \<Rightarrow> int \<Rightarrow> bool" where
  "circuit_should_open max_cost actual =
     (if actual < 0 \<or> max_cost < 0 then True else max_cost < actual)"

lemmas money_constants [money_simps] = nano_def storage_scale_nano_def max_storable_nano_def

section \<open>Facts about the conversions\<close>

lemma dec_mul_nano_trailing:
  assumes "\<bar>coef d\<bar> < 10 ^ 28" "- 1000 \<le> expo d" "expo d \<le> 1000"
  obtains r where "dec_mul d (fdec_of_int nano) = Some r" and "fval r = fval d * 1000000000"
proof -
  obtain r where r: "dec_fix (coef d * 10 ^ 9) (expo d) = Some r"
    "fval r = fval (Fdec (coef d) (expo d + int 9))"
    using dec_fix_trailing_zeros [of "coef d" "expo d" 9] assms by (auto simp: dec_context)
  have "dec_mul d (fdec_of_int nano) = Some r"
    using r(1) by (simp add: dec_mul_def fdec_of_int_def nano_def)
  moreover have "fval r = fval d * 1000000000"
    using r(2) powi_split [of "expo d" "expo d + int 9"] by (simp add: fval_def)
  ultimately show ?thesis by (rule that)
qed

lemma amount_to_nano_exact:
  assumes "decimal_of m = Some (Finite d)" "\<bar>coef d\<bar> < 10 ^ 28" "- 1000 \<le> expo d" "expo d \<le> 1000"
    and "fval d * 1000000000 = of_int z"
  shows "amount_to_nano m = Inr z"
proof -
  from dec_mul_nano_trailing [OF assms(2-4)] obtain r
    where "dec_mul d (fdec_of_int nano) = Some r" "fval r = of_int z" using assms(5) by auto
  then show ?thesis
    using assms(1) by (simp add: amount_to_nano_def raise_overflow_def to_integral_half_even_exact)
qed

text \<open>
  The digits a rendered amount shows: the whole dollars, and the nine fractional digits without
  their trailing zeros.
\<close>

lemma nano_to_usd_string_digits:
  fixes n :: int
  defines "w \<equiv> nat (\<bar>n\<bar> div nano)" and "ds \<equiv> rstrip_zeros (zero_pad 9 (nat (\<bar>n\<bar> mod nano)))"
  shows "nano_to_usd_string n =
      (if n < 0 then ''-'' else []) @ show_nat w @ (if ds = [] then [] else CHR ''.'' # ds)"
    and "\<exists>k. length ds + k = 9 \<and> int (nat_of_digits (show_nat w @ ds)) * 10 ^ k = \<bar>n\<bar>"
    and "\<forall>c \<in> set ds. is_digit c"
proof -
  show "nano_to_usd_string n =
      (if n < 0 then ''-'' else []) @ show_nat w @ (if ds = [] then [] else CHR ''.'' # ds)"
    by (simp add: nano_to_usd_string_def Let_def w_def ds_def)
  define f where "f = nat (\<bar>n\<bar> mod nano)"
  have f: "f < 10 ^ 9" "int f = \<bar>n\<bar> mod nano" by (auto simp: f_def nano_def nat_less_iff)
  then have len: "length (zero_pad 9 f) = 9" by (intro length_zero_pad) (simp add: ndigits_le_iff)
  obtain k where k: "9 = length ds + k" "f = nat_of_digits ds * 10 ^ k"
    using rstrip_zeros_value [of "zero_pad 9 f"] len by (auto simp: ds_def f_def)
  have w: "int w = \<bar>n\<bar> div nano" by (simp add: w_def nano_def)
  have "nat_of_digits (show_nat w @ ds) * 10 ^ k = w * (10 ^ length ds * 10 ^ k) + f"
    by (simp add: nat_of_digits_append k(2) algebra_simps)
  also have "(10 :: nat) ^ length ds * 10 ^ k = 10 ^ 9" using k(1) by (simp add: power_add [symmetric])
  finally have "int (nat_of_digits (show_nat w @ ds) * 10 ^ k) = int w * nano + int f"
    by (simp add: nano_def)
  also have "\<dots> = \<bar>n\<bar>" by (simp add: w f(2))
  finally show "\<exists>k. length ds + k = 9 \<and> int (nat_of_digits (show_nat w @ ds)) * 10 ^ k = \<bar>n\<bar>"
    using k(1) by (intro exI [of _ k]) simp
  show "\<forall>c \<in> set ds. is_digit c"
    using rstrip_zeros_subset zero_pad_digits by (fastforce simp: ds_def)
qed

text \<open>The text of an amount is parsed as the amount, with at most nine decimals.\<close>

lemma nano_to_usd_string_parsed:
  assumes "\<bar>n\<bar> < 10 ^ 19"
  obtains c l k where "dec_parse (nano_to_usd_string n) = Some (Finite (Fdec c (- int l)))"
    and "l + k = 9" and "c * 10 ^ k = n" and "\<bar>c\<bar> < 10 ^ 19"
proof -
  define w where "w = nat (\<bar>n\<bar> div nano)"
  define ds where "ds = rstrip_zeros (zero_pad 9 (nat (\<bar>n\<bar> mod nano)))"
  define c where "c = nat_of_digits (show_nat w @ ds)"
  note digits = nano_to_usd_string_digits [of n, folded w_def ds_def]
  obtain k where k: "length ds + k = 9" "int c * 10 ^ k = \<bar>n\<bar>"
    using digits(2) by (auto simp: c_def)
  have "int c \<le> int c * 10 ^ k" by (simp add: mult_le_cancel_left1)
  then have c: "int c < 10 ^ 19" using k(2) assms by linarith
  then have "c < 10 ^ 19" by (metis of_nat_less_iff of_nat_numeral of_nat_power)
  then have "ndigits c \<le> 19" by (simp add: ndigits_le_iff)
  with k(1) have rep: "dec_representable c (- int (length ds))"
    by (simp add: dec_representable_def)
  define d where "d = (if n < 0 then - int c else int c)"
  have "dec_parse (nano_to_usd_string n) = Some (Finite (Fdec d (- int (length ds))))"
    using dec_parse_fraction [of "show_nat w" ds "n < 0"] rep digits(1,3)
    by (simp add: show_nat_digits c_def d_def)
  moreover have "d * 10 ^ k = n" using k(2) by (auto simp: d_def split: if_splits)
  moreover have "\<bar>d\<bar> < 10 ^ 19" using c by (simp add: d_def)
  ultimately show ?thesis using that k(1) by blast
qed

text \<open>
  C36. The text the ledger writes for an amount is read back as the same
  amount: converting nano dollars to their decimal text and the text to nano dollars is the
  identity, for every amount of at most nineteen digits (the ledger's own bound has fifteen). No
  digit is lost to the decimal context on the way.
\<close>

theorem usd_string_roundtrip:
  assumes "\<bar>n\<bar> < 10 ^ 19"
  shows "usd_to_nano (Usd (MText (nano_to_usd_string n))) = Inr n"
proof -
  from nano_to_usd_string_parsed [OF assms] obtain c l k
    where p: "dec_parse (nano_to_usd_string n) = Some (Finite (Fdec c (- int l)))"
      "l + k = 9" "c * 10 ^ k = n" "\<bar>c\<bar> < 10 ^ 19" by blast
  have "10 ^ l * 10 ^ k = (10 :: rat) ^ 9" using p(2) by (simp add: power_add [symmetric])
  moreover have "(of_int n :: rat) = of_int c * 10 ^ k" using p(3) by auto
  ultimately have "fval (Fdec c (- int l)) * 1000000000 = of_int n"
    by (simp add: fval_neg_expo divide_simps) (metis mult.assoc mult.commute)
  then show ?thesis
    using amount_to_nano_exact [of "MText (nano_to_usd_string n)" "Fdec c (- int l)" n] p by simp
qed

theorem usd_string_roundtrip_witness:
  "\<bar>4575000 :: int\<bar> < 10 ^ 19 \<and>
   usd_to_nano (Usd (MText (nano_to_usd_string 4575000))) = Inr 4575000"
  using usd_string_roundtrip [of 4575000] by simp

section \<open>Facts about costs\<close>

text \<open>A price of at most twelve digits, at most six of them decimals.\<close>

definition plain_price :: "fdec \<Rightarrow> bool" where
  "plain_price d \<longleftrightarrow> 0 \<le> coef d \<and> coef d < 10 ^ 12 \<and> - 6 \<le> expo d \<and> expo d \<le> 0"

lemma dec_mul_tokens:
  assumes "plain_price d" "0 \<le> n" "n < 10 ^ 9"
  shows "dec_mul d (fdec_of_int n) = Some (Fdec (coef d * n) (expo d))"
    and "0 \<le> coef d * n" and "coef d * n < 10 ^ 21"
proof -
  show "0 \<le> coef d * n" using assms by (simp add: plain_price_def)
  have "coef d * n < 10 ^ 12 * 10 ^ 9"
    using assms by (intro mult_strict_mono) (auto simp: plain_price_def)
  then show lt: "coef d * n < 10 ^ 21" by simp
  with \<open>0 \<le> coef d * n\<close> assms(1) show "dec_mul d (fdec_of_int n) = Some (Fdec (coef d * n) (expo d))"
    unfolding dec_mul_def fdec_of_int_def by (simp add: dec_fix_exact plain_price_def dec_context)
qed

lemma scaled_less:
  assumes "0 \<le> c" "c < 10 ^ 21" "k \<le> 6"
  shows "0 \<le> c * 10 ^ k" and "c * 10 ^ k < (10 :: int) ^ 27"
proof -
  show "0 \<le> c * 10 ^ k" using assms(1) by simp
  have "(10 :: int) ^ k \<le> 10 ^ 6" using assms(3) by (rule power_increasing) simp
  then have "c * 10 ^ k \<le> c * 10 ^ 6" using assms(1) by (rule mult_left_mono)
  with assms(2) show "c * 10 ^ k < (10 :: int) ^ 27" by simp
qed

lemma fval_align: "m \<le> expo d \<Longrightarrow> fval (Fdec (coef d * 10 ^ nat (expo d - m)) m) = fval d"
  using powi_split [of m "expo d"] by (simp add: fval_def)

lemma priced_nano_exact:
  assumes pin: "plain_price pin" and pout: "plain_price pout"
    and it: "0 \<le> it" "it < 10 ^ 9" and ot: "0 \<le> ot" "ot < 10 ^ 9"
  obtains r where "priced_nano it ot pin pout = Some r"
    and "fval r = (fval pin * of_int it + fval pout * of_int ot) * 1000"
proof -
  define a where "a = Fdec (coef pin * it) (expo pin)"
  define b where "b = Fdec (coef pout * ot) (expo pout)"
  define m where "m = min (expo a) (expo b)"
  define s where "s = coef a * 10 ^ nat (expo a - m) + coef b * 10 ^ nat (expo b - m)"
  note mul_in = dec_mul_tokens [OF pin it] and mul_out = dec_mul_tokens [OF pout ot]
  have m: "- 6 \<le> m" "m \<le> 0" "m \<le> expo a" "m \<le> expo b" "expo a \<le> 0" "expo b \<le> 0"
    using pin pout by (auto simp: m_def a_def b_def plain_price_def)
  have "nat (expo a - m) \<le> 6" "nat (expo b - m) \<le> 6" using m by auto
  then have s: "0 \<le> s" "s < 2 * 10 ^ 27"
    using scaled_less [of "coef a" "nat (expo a - m)"] scaled_less [of "coef b" "nat (expo b - m)"]
      mul_in(2,3) mul_out(2,3) by (auto simp: s_def a_def b_def)
  have add: "dec_add a b = Some (Fdec s m)"
    using s m by (simp add: dec_add_def Let_def m_def [symmetric] s_def [symmetric]
        dec_fix_exact dec_context)
  have quot: "dec_div_pow10 (Fdec s m) 6 = Some (Fdec s (m - 6))"
    using s m by (simp add: dec_div_pow10_def dec_fix_exact dec_context)
  have "\<bar>coef (Fdec s (m - 6))\<bar> < 10 ^ 28" "- 1000 \<le> expo (Fdec s (m - 6))"
    "expo (Fdec s (m - 6)) \<le> 1000" using s m by simp_all
  then obtain r where r: "dec_mul (Fdec s (m - 6)) (fdec_of_int nano) = Some r"
    "fval r = fval (Fdec s (m - 6)) * 1000000000"
    by (rule dec_mul_nano_trailing)
  have "fval (Fdec s (m - 6)) * 1000000000 = fval (Fdec s m) * 1000"
    using powi_split [of "m - 6" m] by (simp add: fval_Fdec)
  also have "fval (Fdec s m) = fval a + fval b"
    using fval_align [of m a] fval_align [of m b] m by (simp add: s_def fval_Fdec algebra_simps)
  also have "fval a = fval pin * of_int it" by (simp add: a_def fval_def)
  also have "fval b = fval pout * of_int ot" by (simp add: b_def fval_def)
  finally have "fval r = (fval pin * of_int it + fval pout * of_int ot) * 1000" by (simp add: r(2))
  moreover have "priced_nano it ot pin pout = Some r"
    unfolding priced_nano_def mul_in(1) mul_out(1) a_def [symmetric] b_def [symmetric]
    by (simp add: add quot r(1))
  ultimately show ?thesis by (intro that)
qed

lemma token_cost_plain:
  assumes "decimal_of mi = Some (Finite pin)" "decimal_of mo = Some (Finite pout)"
    and "plain_price pin" "plain_price pout"
    and "0 \<le> it" "it < 10 ^ 9" "0 \<le> ot" "ot < 10 ^ 9"
  shows "token_cost_nano it ot (Some mi) (Some mo) =
    Inr (Some \<lceil>(fval pin * of_int it + fval pout * of_int ot) * 1000\<rceil>)"
proof -
  obtain r where r: "priced_nano it ot pin pout = Some r"
    "fval r = (fval pin * of_int it + fval pout * of_int ot) * 1000"
    using priced_nano_exact [OF assms(3-8)] .
  have "\<not> coef pin < 0" "\<not> coef pout < 0" using assms(3,4) by (auto simp: plain_price_def)
  with r assms(1,2,5,7) show ?thesis
    by (simp add: token_cost_nano_def raise_overflow_def to_integral_ceiling_value)
qed

text \<open>
  C37. The charge is the documented formula, rounded up and never down: for
  prices of at most six decimals and less than a thousand million tokens of each kind, the cost in
  nano dollars is the least integer that is at least a thousand times (price in * tokens in +
  price out * tokens out), computed over the rationals.
\<close>

theorem token_cost_exact:
  assumes "decimal_of mi = Some (Finite pin)" "decimal_of mo = Some (Finite pout)"
    and "plain_price pin" "plain_price pout"
    and "0 \<le> it" "it < 10 ^ 9" "0 \<le> ot" "ot < 10 ^ 9"
  shows "token_cost_nano it ot (Some mi) (Some mo) =
    Inr (Some \<lceil>(fval pin * of_int it + fval pout * of_int ot) * 1000\<rceil>)"
  using token_cost_plain [OF assms] .

theorem token_cost_exact_witness:
  "token_cost_nano 4095 96 (Some (MDec (Finite (Fdec 100 (- 2))))) (Some (MInt 5)) =
    Inr (Some 4575000)"
  using token_cost_exact [of "MDec (Finite (Fdec 100 (- 2)))" "Fdec 100 (- 2)" "MInt 5"
      "fdec_of_int 5" 4095 96]
  by (simp add: plain_price_def fdec_of_int_def fval_nonneg_expo fval_neg_expo)

text \<open>
  Outside that range the promise fails: a price with
  more digits than the decimal context keeps is rounded to 28 digits before the final rounding up,
  so the "maximum" of one input token at 1.000...01 dollars per million (33 zeros) is 1000 nano
  dollars although the exact price is above 1000.
\<close>

definition long_price :: fdec where "long_price = Fdec (10 ^ 34 + 1) (- 34)"

theorem token_cost_rounds_down_on_long_prices:
  "conservative_max_cost_nano 1 0 (Some (MDec (Finite long_price))) (Some (MInt 0)) =
      Inr (Some 1000) \<and> 1000 < \<lceil>fval long_price * 1 * 1000\<rceil>"
proof -
  have nd: "ndigits (nat \<bar>10 ^ 34 + 1\<bar>) = 35" "ndigits (nat \<bar>10 ^ 27\<bar>) = 28"
    "ndigits (nat \<bar>10 ^ 27 * 10 ^ 9\<bar>) = 37"
    using ndigits_eqI [of 34 "10 ^ 34 + 1"] ndigits_eqI [of 27 "10 ^ 27"] ndigits_eqI [of 36 "10 ^ 36"]
    by simp_all
  have rounded: "round_half_even (10 ^ 34 + 1) (10 ^ nat (- 27 - - 34)) = 10 ^ 27"
    "round_half_even (10 ^ 27 * 10 ^ 9) (10 ^ nat (- 24 - - 33)) = 10 ^ 27"
    by (simp_all add: round_half_even_def)
  have lo: "max (int 35 + - 34 - dec_prec) dec_etiny = - 27"
    "max (int 37 + - 33 - dec_prec) dec_etiny = - 24" by (simp_all add: dec_context)
  have p: "dec_fix (10 ^ 34 + 1) (- 34) = Some (Fdec (10 ^ 27) (- 27))"
    unfolding dec_fix_def Let_def nd lo rounded by (simp add: dec_context)
  have z: "dec_fix 0 0 = Some (Fdec 0 0)" by (simp add: dec_fix_def dec_context)
  have s: "dec_fix (10 ^ 27) (- 27) = Some (Fdec (10 ^ 27) (- 27))"
    by (rule dec_fix_exact) (simp_all add: dec_context)
  have q: "dec_fix (10 ^ 27) (- 33) = Some (Fdec (10 ^ 27) (- 33))"
    by (rule dec_fix_exact) (simp_all add: dec_context)
  have r: "dec_fix (10 ^ 27 * 10 ^ 9) (- 33) = Some (Fdec (10 ^ 27) (- 24))"
    unfolding dec_fix_def Let_def nd lo rounded by (simp add: dec_context)
  have "priced_nano 1 0 long_price (fdec_of_int 0) = Some (Fdec (10 ^ 27) (- 24))"
    using p z s q r by (simp add: priced_nano_def dec_mul_def dec_add_def dec_div_pow10_def
        long_price_def fdec_of_int_def Let_def nano_def)
  then have "conservative_max_cost_nano 1 0 (Some (MDec (Finite long_price))) (Some (MInt 0)) =
      Inr (Some 1000)"
    by (simp add: conservative_max_cost_nano_def token_cost_nano_def raise_overflow_def
        long_price_def fdec_of_int_def to_integral_ceiling_def ceil_div_def)
  moreover have "(1000 :: rat) < fval long_price * 1 * 1000"
    by (simp add: long_price_def fval_neg_expo)
  then have "1000 < \<lceil>fval long_price * 1 * 1000\<rceil>" by (simp add: less_ceiling_iff)
  ultimately show ?thesis by blast
qed

section \<open>Facts about the limits\<close>

text \<open>
  A ceiling that passes validation is positive and no larger
  than the largest amount a DECIMAL(12, 6) column holds.
\<close>

theorem daily_ceiling_is_enforceable:
  assumes "validate_daily_ceiling m = Inr c"
  shows "0 < c \<and> c \<le> max_storable_nano \<and> usd_to_nano (Usd m) = Inr c"
  using assms by (auto simp: validate_daily_ceiling_def split: sum.splits if_splits)

theorem daily_ceiling_is_enforceable_witness:
  "validate_daily_ceiling (MInt 5) = Inr 5000000000 \<and> 0 < (5000000000 :: int)"
proof -
  have "dec_fix (5 * 1000000000) 0 = Some (Fdec (5 * 1000000000) 0)"
    by (rule dec_fix_exact) (simp_all add: dec_context)
  then have v: "validate_daily_ceiling (MInt 5) = Inr 5000000000"
    by (simp add: validate_daily_ceiling_def amount_to_nano_def raise_overflow_def dec_mul_def
        fdec_of_int_def money_constants to_integral_half_even_def)
  with daily_ceiling_is_enforceable [OF v] show ?thesis by simp
qed

text \<open>
  A ceiling written with a large enough exponent is not refused
  with the module's own error: the multiplication by NANO signals the decimal Overflow, which
  \<open>usd_to_nano\<close> does not translate, so the exception the callers handle is not the one raised.
\<close>

theorem overflowing_ceiling_escapes:
  "decimal_of (MText ''1E+999999'') = Some (Finite (Fdec 1 999999)) \<and>
   validate_daily_ceiling (MText ''1E+999999'') = Inl DecimalOverflow"
proof -
  have strip: "py_strip ''1E+999999'' = ''1E+999999''"
    by (simp add: py_strip_def py_is_space_def)
  have "char_of (101 :: nat) = CHR ''e''" by code_simp
  then have parsed: "dec_parse ''1E+999999'' = Some (Finite (Fdec 1 999999))"
    by (simp add: dec_parse_def strip split_sign_def dec_is_nan_def Let_def ascii_lower_def
        dec_number_def is_digit_def dec_exponent_def nat_of_digits_def digit_val_def
        dec_representable_def ndigits.simps)
  have "dec_fix 1000000000 999999 = None"
    by (simp add: dec_fix_def dec_context ndigits.simps Let_def)
  then show ?thesis
    by (simp add: parsed validate_daily_ceiling_def amount_to_nano_def raise_overflow_def
        dec_mul_def fdec_of_int_def nano_def)
qed

text \<open>
  The reserve: the product of the ceiling and the ratio, rounded up. The rounding of the decimal
  context never carries it past the ceiling.
\<close>

definition valid_ratio :: "fdec \<Rightarrow> bool" where
  "valid_ratio r \<longleftrightarrow> 0 \<le> coef r \<and> fdec_le_int r 1"

lemma validated_ratio: "validate_reserve_ratio m = Inr r \<Longrightarrow> valid_ratio r"
  by (auto simp: validate_reserve_ratio_def valid_ratio_def split: option.splits decimal.splits
      if_splits)

lemma valid_ratio_fval: "valid_ratio r \<Longrightarrow> 0 \<le> fval r \<and> fval r \<le> 1"
  by (simp add: valid_ratio_def fdec_le_int_iff) (simp add: fval_def)

lemma reserve_floor_bounds:
  assumes "0 < c" "c \<le> max_storable_nano" "valid_ratio r"
  shows "\<exists>f. reserve_floor_nano c r = Inr f \<and> 0 \<le> f \<and> f \<le> c"
proof -
  have "fval (Fdec (c * coef r) (expo r)) = of_int c * fval r" by (simp add: fval_def)
  also have "\<dots> \<le> of_int c * 1"
    using valid_ratio_fval [OF assms(3)] assms(1) by (intro mult_left_mono) auto
  finally have "fval (Fdec (c * coef r) (expo r)) \<le> of_int c" by simp
  moreover have "0 \<le> c * coef r" using assms by (simp add: valid_ratio_def)
  moreover have "c < 10 ^ 28" using assms(2) by (simp add: max_storable_nano_def)
  ultimately obtain d where "dec_fix (c * coef r) (expo r) = Some d" "fval d \<le> of_int c" "0 \<le> fval d"
    using dec_fix_le_int by blast
  then show ?thesis
    by (simp add: reserve_floor_nano_def raise_overflow_def dec_mul_def fdec_of_int_def
        to_integral_ceiling_value ceiling_le_iff)
qed

text \<open>
  For every storable ceiling and every validated ratio the
  reserve is computed without an exception and lies between zero and the ceiling, so the room left
  for background work is never negative and never above the ceiling.
\<close>

theorem reserve_floor_within_ceiling:
  assumes "0 < c" "c \<le> max_storable_nano" "valid_ratio r"
  shows "\<exists>f. reserve_floor_nano c r = Inr f \<and> 0 \<le> f \<and> f \<le> c"
  using assms by (rule reserve_floor_bounds)

theorem reserve_floor_within_ceiling_witness:
  "valid_ratio (Fdec 25 (- 2)) \<and>
   (\<exists>f. reserve_floor_nano 1000000000 (Fdec 25 (- 2)) = Inr f \<and> 0 \<le> f \<and> f \<le> 1000000000)"
proof -
  have "valid_ratio (Fdec 25 (- 2))" by (simp add: valid_ratio_def fdec_le_int_def)
  with reserve_floor_within_ceiling [of 1000000000 "Fdec 25 (- 2)"] show ?thesis
    by (simp add: max_storable_nano_def)
qed

lemma reserve_floor_exact:
  assumes "\<bar>c * coef r\<bar> < 10 ^ 28" "dec_etiny \<le> expo r" "expo r \<le> dec_etop"
  shows "reserve_floor_nano c r = Inr \<lceil>of_int c * fval r\<rceil>"
  using dec_fix_exact [OF assms]
  by (simp add: reserve_floor_nano_def raise_overflow_def dec_mul_def fdec_of_int_def
      to_integral_ceiling_value fval_def mult.assoc)

section \<open>Facts about admission\<close>

text \<open>
  C22. Admission, stated as a policy: under a usable configuration a request is admitted
  exactly when the circuit is closed, its maximal cost is known and not negative, and the committed
  total together with that cost stays within the ceiling, or, for background work, within what the
  reserve leaves of the ceiling.
\<close>

theorem admit_iff:
  assumes "0 < c" "c \<le> max_storable_nano" "valid_ratio r"
  shows "admit c st mc pr r = Inr Admitted \<longleftrightarrow>
    \<not> circuit_open st \<and>
    (\<exists>cost f. mc = Some cost \<and> 0 \<le> cost \<and> reserve_floor_nano c r = Inr f \<and>
      committed_nano st + cost \<le> (case pr of ImmediateHuman \<Rightarrow> c | Background \<Rightarrow> c - f))"
proof -
  from reserve_floor_bounds [OF assms] obtain f
    where f: "reserve_floor_nano c r = Inr f" "0 \<le> f" "f \<le> c" by blast
  show ?thesis
    using assms(1) f by (cases pr; cases mc) (auto simp: admit_def Let_def)
qed

theorem admit_iff_witness:
  "admit 1000000000 \<lparr>settled_nano = 0, outstanding_nano = 0, circuit_open = False\<rparr>
     (Some 1000) ImmediateHuman (Fdec 25 (- 2)) = Inr Admitted"
proof -
  have v: "valid_ratio (Fdec 25 (- 2))" by (simp add: valid_ratio_def fdec_le_int_def)
  then obtain f where "reserve_floor_nano 1000000000 (Fdec 25 (- 2)) = Inr f"
    using reserve_floor_bounds [of 1000000000 "Fdec 25 (- 2)"]
    by (auto simp: max_storable_nano_def)
  then show ?thesis
    by (subst admit_iff) (auto simp: max_storable_nano_def v committed_nano_def)
qed

lemma admit_total:
  assumes "0 < c" "c \<le> max_storable_nano" "valid_ratio r"
  shows "\<exists>d. admit c st mc pr r = Inr d"
  using reserve_floor_bounds [OF assms] by (auto simp: admit_def Let_def split: option.split)

lemma admitted_within_ceiling:
  assumes "admit c st mc pr r = Inr Admitted" and "valid_ratio r" and "c \<le> max_storable_nano"
  shows "\<not> circuit_open st" and "\<exists>cost. mc = Some cost \<and> 0 \<le> cost \<and> committed_nano st + cost \<le> c"
  using assms by (auto simp: admit_def Let_def split: option.splits if_splits sum.splits)

text \<open>
  The protection the reserve is for: as long as what is committed
  came through the background gate, so that it leaves the reserve untouched, a person's request
  that costs no more than the reserve is admitted, and a background request that is not free is
  refused once the reserve is all that is left.
\<close>

theorem reserve_protects_humans:
  assumes "0 < c" "c \<le> max_storable_nano" "valid_ratio r" "reserve_floor_nano c r = Inr f"
    and "\<not> circuit_open st" and "0 < cost" and "cost \<le> f" and "committed_nano st = c - f"
  shows "admit c st (Some cost) ImmediateHuman r = Inr Admitted \<and>
    admit c st (Some cost) Background r = Inr DeniedReserve"
  using assms by (auto simp: admit_def Let_def)

theorem reserve_protects_humans_witness:
  "reserve_floor_nano 1000000 (Fdec 5 (- 1)) = Inr 500000 \<and>
   admit 1000000 \<lparr>settled_nano = 500000, outstanding_nano = 0, circuit_open = False\<rparr>
     (Some 2000) ImmediateHuman (Fdec 5 (- 1)) = Inr Admitted"
proof -
  have v: "valid_ratio (Fdec 5 (- 1))" by (simp add: valid_ratio_def fdec_le_int_def)
  have f: "reserve_floor_nano 1000000 (Fdec 5 (- 1)) = Inr 500000"
    using reserve_floor_exact [of 1000000 "Fdec 5 (- 1)"] by (simp add: dec_context fval_neg_expo)
  from reserve_protects_humans [of 1000000 "Fdec 5 (- 1)" 500000
      "\<lparr>settled_nano = 500000, outstanding_nano = 0, circuit_open = False\<rparr>" 2000] v f
  show ?thesis by (simp add: max_storable_nano_def committed_nano_def)
qed

section \<open>Facts about storage\<close>

text \<open>
  Quantizing a positive amount gives the least whole number of
  microdollars that is not below it: nothing is ever rounded down, and never by a whole
  microdollar or more.
\<close>

theorem quantize_is_least_storable:
  assumes "0 < n"
  shows "storage_scale_nano dvd quantize_storable_nano n \<and> n \<le> quantize_storable_nano n \<and>
    quantize_storable_nano n < n + storage_scale_nano \<and>
    (\<forall>m. storage_scale_nano dvd m \<longrightarrow> n \<le> m \<longrightarrow> quantize_storable_nano n \<le> m)"
proof -
  have pos: "0 < storage_scale_nano" by (simp add: storage_scale_nano_def)
  have eq: "quantize_storable_nano n = ceil_div n storage_scale_nano * storage_scale_nano"
    using assms by (simp add: quantize_storable_nano_def)
  have "quantize_storable_nano n \<le> m" if "storage_scale_nano dvd m" "n \<le> m" for m
  proof -
    obtain q where q: "m = q * storage_scale_nano" using \<open>storage_scale_nano dvd m\<close>
      by (metis dvd_def mult.commute)
    then have "ceil_div n storage_scale_nano \<le> q" using pos that(2) by (simp add: ceil_div_le_iff)
    then show ?thesis using pos by (simp add: eq q)
  qed
  then show ?thesis
    using ceil_div_upper [OF pos] ceil_div_lower [OF pos] by (simp add: eq)
qed

theorem quantize_is_least_storable_witness:
  "0 < (2900001 :: int) \<and> quantize_storable_nano 2900001 = 2901000 \<and>
   2900001 \<le> quantize_storable_nano 2900001"
  using quantize_is_least_storable [of 2900001]
  by (simp add: quantize_storable_nano_def storage_scale_nano_def ceil_div_def)

lemma quantize_facts:
  shows quantize_dvd [simp]: "storage_scale_nano dvd quantize_storable_nano n"
    and quantize_nonneg [simp]: "0 \<le> quantize_storable_nano n"
    and quantize_ge: "n \<le> quantize_storable_nano n"
  using ceil_div_upper [of storage_scale_nano n]
  by (auto simp: quantize_storable_nano_def storage_scale_nano_def ceil_div_def)

lemma quantize_le_iff: "storage_scale_nano dvd m \<Longrightarrow> 0 \<le> m \<Longrightarrow> quantize_storable_nano n \<le> m \<longleftrightarrow> n \<le> m"
  by (auto simp: quantize_storable_nano_def storage_scale_nano_def dvd_def mult.commute
      ceil_div_le_iff)

lemma max_storable_dvd [simp]: "storage_scale_nano dvd max_storable_nano"
  by (simp add: storage_scale_nano_def max_storable_nano_def)

lemma storable_facts:
  shows storable_dvd [simp]: "storage_scale_nano dvd storable_actual_cost_nano a"
    and storable_nonneg [simp]: "0 \<le> storable_actual_cost_nano a"
    and storable_le_max: "storable_actual_cost_nano a \<le> max_storable_nano"
  by (auto simp: storable_actual_cost_nano_def min_def max_storable_nano_def [symmetric]
      intro: order_trans [OF _ quantize_nonneg])
    (simp_all add: max_storable_nano_def)

lemma settlement_bounds:
  assumes "\<not> circuit_should_open mx a" "storage_scale_nano dvd mx" "mx \<le> max_storable_nano"
  shows "a \<le> storable_actual_cost_nano a \<and> storable_actual_cost_nano a \<le> mx"
proof -
  have a: "0 \<le> a" "a \<le> mx" "0 \<le> mx" using assms(1) by (auto simp: circuit_should_open_def split: if_splits)
  then have "quantize_storable_nano a \<le> mx" using assms(2) by (simp add: quantize_le_iff)
  with a assms(3) quantize_ge [of a] show ?thesis by (simp add: storable_actual_cost_nano_def)
qed

text \<open>
  What a settlement stores: a cost that does not open the
  circuit is stored rounded up and never above the reservation it settles, provided the
  reservation is itself a whole number of microdollars; and the stored figure is never below the
  reported one.
\<close>

theorem settlement_within_reservation:
  assumes "\<not> circuit_should_open mx a" "storage_scale_nano dvd mx" "mx \<le> max_storable_nano"
  shows "a \<le> storable_actual_cost_nano a \<and> storable_actual_cost_nano a \<le> mx"
  using assms by (rule settlement_bounds)

theorem settlement_within_reservation_witness:
  "\<not> circuit_should_open 4575000 2900001 \<and>
   2900001 \<le> storable_actual_cost_nano 2900001 \<and> storable_actual_cost_nano 2900001 \<le> 4575000"
  using settlement_within_reservation [of 4575000 2900001]
  by (simp add: circuit_should_open_def storage_scale_nano_def max_storable_nano_def)

end
