(* ===== verification/Database.thy ===== *)
theory Database
  imports Budget
begin

text \<open>
  The shared Playerbots database as \<open>ledger.py\<close> and \<open>store.py\<close> see it: one record with a field per
  table, a row per record, and the column types of \<open>schema.py\<close> with MySQL's storage rules (strict
  mode): DECIMAL(12, 6) amounts, DATETIME columns of whole seconds, bounded VARCHARs. Also the
  clock readings the operations are given, the UTC day they fall on, and the named locks.

  A statement that MySQL refuses raises in the driver. Every operation then rolls its transaction
  back, so the outcome of an operation is either the error, with the database as it was, or a
  result and the database after the commit.
\<close>

section \<open>Clock readings\<close>

text \<open>
  A Python \<open>datetime\<close>: its wall clock reading in microseconds since 1970-01-01 00:00, and the
  offset of its time zone from UTC when it has one.
\<close>

record clock_reading =
  wall_us :: int
  utc_offset_us :: "int option"

definition second_us :: int where "second_us = 1000000"
definition day_us :: int where "day_us = 86400 * second_us"

text \<open>The UTC calendar day, as the number of days since 1970-01-01.\<close>

definition utc_day :: "clock_reading \<Rightarrow> int" where
  "utc_day now = (case utc_offset_us now of
     None \<Rightarrow> wall_us now div day_us
   | Some off \<Rightarrow> (wall_us now - off) div day_us)"

definition plus_us :: "clock_reading \<Rightarrow> int \<Rightarrow> clock_reading" where
  "plus_us now d = now\<lparr>wall_us := wall_us now + d\<rparr>"

text \<open>
  The driver writes a reading as its wall clock text, without the zone. A DATETIME column keeps
  whole seconds: a fraction is rounded to the nearest second on the way in, while a comparison
  keeps the fraction of the literal it compares with.
\<close>

definition datetime_column :: "clock_reading \<Rightarrow> int" where
  "datetime_column now = (wall_us now + second_us div 2) div second_us"

definition column_le :: "int \<Rightarrow> clock_reading \<Rightarrow> bool" where
  "column_le secs now \<longleftrightarrow> secs * second_us \<le> wall_us now"

lemma datetime_column_near:
  "\<bar>datetime_column now * second_us - wall_us now\<bar> \<le> second_us div 2"
  by (simp add: datetime_column_def second_us_def)

section \<open>Errors\<close>

text \<open>
  What an operation on the database raises: the code's own \<open>LedgerError\<close>, an error of the driver
  (a value a column refuses, a duplicate key), or an error of the budget module.
\<close>

datatype db_error = LedgerError | SqlError | BudgetError budget_error

section \<open>Money columns\<close>

text \<open>
  A DECIMAL(12, 6) column holds its unscaled value, a number of microdollars of at most twelve
  digits. It is read back as a \<open>Decimal\<close> of exponent -6; a text written to it is parsed and rounded
  half away from zero, and refused when it does not fit.
\<close>

definition money_column_max :: int where "money_column_max = 999999999999"

definition read_money :: "int \<Rightarrow> money_in" where
  "read_money m = MDec (Finite (Fdec m (- 6)))"

definition round_half_away :: "fdec \<Rightarrow> int" where
  "round_half_away d =
     (if 0 \<le> expo d then coef d * 10 ^ nat (expo d)
      else sgn (coef d) * ((\<bar>coef d\<bar> + 10 ^ nat (- expo d) div 2) div 10 ^ nat (- expo d)))"

definition fits_money :: "int \<Rightarrow> bool" where
  "fits_money m \<longleftrightarrow> \<bar>m\<bar> \<le> money_column_max"

definition write_money_text :: "string \<Rightarrow> db_error + int" where
  "write_money_text s = (case dec_parse s of
     Some (Finite d) \<Rightarrow>
       (let m = round_half_away (Fdec (coef d) (expo d + 6))
        in if fits_money m then Inr m else Inl SqlError)
   | _ \<Rightarrow> Inl SqlError)"

section \<open>The tables\<close>

record day_row =
  reserved_usd :: int
  spent_usd :: int

datatype reservation_state = Reserved | Completed | Released | Expired

record reservation_row =
  row_id :: nat
  row_public_id :: string
  row_budget_date :: int
  row_request_kind :: request_kind
  row_priority_lane :: string
  row_model :: ustr
  max_cost_usd :: int
  actual_cost_usd :: "int option"
  row_state :: reservation_state
  expires_at :: int
  settled_at :: "int option"

record control_row =
  budget_circuit_open :: bool
  budget_circuit_reason :: "string option"
  budget_circuit_opened_at :: "int option"

record profile_row =
  profile_version :: int
  crafting_affinity :: int
  gathering_affinity :: int
  exploration_affinity :: int
  sociability :: int
  profile_voice :: ustr
  profile_bot_name :: ustr
  profile_updated_at :: int

datatype turn_role = User | Assistant

record turn_row =
  turn_id :: nat
  turn_bot_guid :: int
  turn_role :: turn_role
  turn_content :: ustr
  turn_created_at :: int

record career_row =
  career_version :: int
  candidate_token :: ustr
  spending_style :: ustr
  career_updated_at :: int

record ambient_row =
  ambient_id :: nat
  ambient_created_at :: int

record purge_row =
  purge_bot_guid :: int
  acknowledged_at :: "int option"

text \<open>
  The AUTO_INCREMENT counters and the two purely keyed tables are part of the state. The rows of a
  table with an id are kept in the order of their ids.
\<close>

record database =
  lock_keys :: "string list"
  daily_budget :: "int \<Rightarrow> day_row option"
  reservations :: "reservation_row list"
  next_reservation_id :: nat
  runtime_control :: "control_row option"
  bot_purge :: "purge_row list"
  profiles :: "int \<Rightarrow> profile_row option"
  turns :: "turn_row list"
  next_turn_id :: nat
  careers :: "int \<Rightarrow> career_row option"
  ambient_attempts :: "ambient_row list"
  next_ambient_id :: nat

definition empty_database :: database where
  "empty_database = \<lparr>lock_keys = [], daily_budget = (\<lambda>_. None), reservations = [],
     next_reservation_id = 1, runtime_control = None, bot_purge = [], profiles = (\<lambda>_. None),
     turns = [], next_turn_id = 1, careers = (\<lambda>_. None), ambient_attempts = [],
     next_ambient_id = 1\<rparr>"

section \<open>Named locks\<close>

definition conversation_lock_buckets :: int where "conversation_lock_buckets = 256"

text \<open>
  Taking a named lock writes its row, creating it the first time. The row lock it holds until the
  end of the transaction is what makes each operation one step of the models of \<open>Ledger\<close> and
  \<open>Store\<close>: every operation that decides on what it reads takes its lock first.
\<close>

definition acquire_named_lock :: "string \<Rightarrow> database \<Rightarrow> database" where
  "acquire_named_lock key db = db\<lparr>lock_keys := List.insert key (lock_keys db)\<rparr>"

lemma acquire_named_lock_frame [simp]:
  "daily_budget (acquire_named_lock k db) = daily_budget db"
  "reservations (acquire_named_lock k db) = reservations db"
  "next_reservation_id (acquire_named_lock k db) = next_reservation_id db"
  "runtime_control (acquire_named_lock k db) = runtime_control db"
  "bot_purge (acquire_named_lock k db) = bot_purge db"
  "profiles (acquire_named_lock k db) = profiles db"
  "turns (acquire_named_lock k db) = turns db"
  "next_turn_id (acquire_named_lock k db) = next_turn_id db"
  "careers (acquire_named_lock k db) = careers db"
  "ambient_attempts (acquire_named_lock k db) = ambient_attempts db"
  "next_ambient_id (acquire_named_lock k db) = next_ambient_id db"
  "set (lock_keys (acquire_named_lock k db)) = insert k (set (lock_keys db))"
  by (simp_all add: acquire_named_lock_def)

section \<open>Reading and writing stored money\<close>

text \<open>An amount read from a money column converts exactly; a storable amount is written exactly.\<close>

lemma read_money_exact:
  assumes "fits_money m"
  shows "amount_to_nano (read_money m) = Inr (m * storage_scale_nano)"
proof -
  have "\<bar>m\<bar> < 10 ^ 28" using assms by (simp add: fits_money_def money_column_max_def)
  then show "amount_to_nano (read_money m) = Inr (m * storage_scale_nano)"
    by (intro amount_to_nano_exact [where d = "Fdec m (- 6)"])
      (simp_all add: read_money_def fval_def storage_scale_nano_def power_int_def
        power_one_over)
qed

lemma fits_money_0 [simp]: "fits_money 0"
  by (simp add: fits_money_def money_column_max_def)

lemma round_half_away_exact:
  assumes "fval d = of_int m"
  shows "round_half_away d = m"
proof (cases "0 \<le> expo d")
  case True
  then have "(of_int (coef d * 10 ^ nat (expo d)) :: rat) = of_int m"
    using fval_nonneg_expo [of "expo d" "coef d"] assms by simp
  with True show ?thesis by (simp only: of_int_eq_iff round_half_away_def if_True)
next
  case False
  define j where "j = nat (- expo d)"
  have "(of_int (coef d) :: rat) = of_int (m * 10 ^ j)"
    using fval_neg_expo [of "expo d" "coef d"] assms False by (simp add: j_def divide_simps)
  then have c: "coef d = m * 10 ^ j" by (simp only: of_int_eq_iff)
  have "(\<bar>m\<bar> * 10 ^ j + 10 ^ j div 2) div 10 ^ j = (\<bar>m\<bar> :: int)"
    by (rule int_div_pos_eq [where r = "10 ^ j div 2"])
      (simp_all add: mult.commute int_div_less_self)
  then show ?thesis
    unfolding round_half_away_def using False
    by (simp add: c abs_mult sgn_mult flip: j_def) (simp add: sgn_mult_abs)
qed

lemma fval_add_expo: "fval (Fdec c (e + int k)) = fval (Fdec c e) * 10 ^ k"
  by (simp add: fval_Fdec power_int_add)

lemma write_money_text_exact:
  assumes "0 \<le> n" "n \<le> max_storable_nano" "storage_scale_nano dvd n"
  shows "write_money_text (nano_to_usd_string n) = Inr (n div storage_scale_nano)"
proof -
  have "\<bar>n\<bar> < 10 ^ 19" using assms by (simp add: max_storable_nano_def)
  from nano_to_usd_string_parsed [OF this] obtain c l k
    where p: "dec_parse (nano_to_usd_string n) = Some (Finite (Fdec c (- int l)))"
      "l + k = 9" "c * 10 ^ k = n" by blast
  define m where "m = n div storage_scale_nano"
  have "c * 10 ^ k = m * 1000"
    using p(3) assms(3) by (simp add: m_def storage_scale_nano_def)
  then have "(of_int c :: rat) * 10 ^ k = of_int m * 1000"
    by (metis of_int_mult of_int_numeral of_int_power)
  then have "(of_int c * 10 ^ k) * 10 ^ 6 = of_int m * ((10 :: rat) ^ 9)" by simp
  also have "(10 :: rat) ^ 9 = 10 ^ l * 10 ^ k" using p(2) by (simp add: power_add [symmetric])
  finally have "10 ^ k * (of_int c * 10 ^ 6) = 10 ^ k * (of_int m * (10 :: rat) ^ l)"
    by (simp only: ac_simps)
  then have "(of_int c * 10 ^ 6 :: rat) = of_int m * 10 ^ l" by (subst (asm) mult_cancel_left) simp
  then have "fval (Fdec c (- int l)) * 10 ^ 6 = of_int m"
    by (simp add: fval_neg_expo divide_simps)
  then have "round_half_away (Fdec c (- int l + 6)) = m"
    using fval_add_expo [of c "- int l" 6] by (intro round_half_away_exact) simp
  then show ?thesis unfolding m_def
    using assms(1,2) p(1)
    by (simp add: write_money_text_def fits_money_def money_column_max_def money_constants
        Let_def)
qed

end
