(* ===== verification/Ledger.thy ===== *)
theory Ledger
  imports Database
begin

text \<open>
  \<open>sidecar/src/playerbots_llm/ledger.py\<close>: reserving, settling and releasing money in the shared
  database, and the circuit breaker. One operation is one transaction under the lock
  \<open>budget_day\<close>; an operation that raises is rolled back.
\<close>

section \<open>Constants and records\<close>

definition reservation_expiry_us :: int where "reservation_expiry_us = 600 * second_us"

definition circuit_reason_limit :: nat where "circuit_reason_limit = 128"

definition model_name_limit :: nat where "model_name_limit = 64"

definition priority_lane_unspecified :: string where "priority_lane_unspecified = ''unspecified''"

record reservation =
  reservation_id :: nat
  public_id :: string
  budget_date :: int
  max_cost_nano :: int

record settlement_receipt =
  completed :: bool
  stored_cost_nano :: "int option"
  breach :: bool
  saturated :: bool

record budget_ledger =
  ceiling_nano :: int
  reserve_ratio :: fdec

definition hex_digit :: "nat \<Rightarrow> char" where
  "hex_digit d = (if d < 10 then char_of (48 + d) else char_of (87 + d))"

definition token_hex :: "nat list \<Rightarrow> string" where
  "token_hex bytes = concat (map (\<lambda>b. [hex_digit (b div 16 mod 16), hex_digit (b mod 16)]) bytes)"

text \<open>The sixteen random bytes are an argument.\<close>

definition mint_public_id :: "nat list \<Rightarrow> string" where
  "mint_public_id bytes = ''req_'' @ token_hex bytes"

lemma length_token_hex [simp]: "length (token_hex bytes) = 2 * length bytes"
  by (induction bytes) (simp_all add: token_hex_def)

section \<open>The statements the operations share\<close>

definition is_circuit_open :: "database \<Rightarrow> bool" where
  "is_circuit_open db = (case runtime_control db of None \<Rightarrow> False | Some r \<Rightarrow> budget_circuit_open r)"

definition open_circuit :: "string \<Rightarrow> clock_reading \<Rightarrow> database \<Rightarrow> database" where
  "open_circuit reason now db =
     (let trimmed = take circuit_reason_limit reason
      in db\<lparr>runtime_control := Some \<lparr>budget_circuit_open = True,
           budget_circuit_reason = Some trimmed,
           budget_circuit_opened_at = Some (datetime_column now)\<rparr>\<rparr>)"

text \<open>\<open>SUM(max_cost_usd)\<close> over the rows of one day that are still reserved and satisfy \<open>P\<close>.\<close>

definition reserved_sum :: "(reservation_row \<Rightarrow> bool) \<Rightarrow> int \<Rightarrow> database \<Rightarrow> int" where
  "reserved_sum P day db = sum_list (map max_cost_usd
     (filter (\<lambda>r. row_budget_date r = day \<and> row_state r = Reserved \<and> P r) (reservations db)))"

definition write_money :: "int \<Rightarrow> db_error + int" where
  "write_money m = (if 0 \<le> m \<and> fits_money m then Inr m else Inl SqlError)"

definition refresh_reserved_usd :: "int \<Rightarrow> database \<Rightarrow> db_error + database" where
  "refresh_reserved_usd day db = (case daily_budget db day of
     None \<Rightarrow> Inr db
   | Some row \<Rightarrow> and_then (write_money (reserved_sum (\<lambda>_. True) day db)) (\<lambda>total.
       Inr (db\<lparr>daily_budget := (daily_budget db)(day := Some (row\<lparr>reserved_usd := total\<rparr>))\<rparr>)))"

definition lift_budget :: "budget_error + 'a \<Rightarrow> db_error + 'a" where
  "lift_budget = map_sum BudgetError id"

definition ensure_day_row :: "int \<Rightarrow> database \<Rightarrow> database" where
  "ensure_day_row day db = (case daily_budget db day of
     None \<Rightarrow> db\<lparr>daily_budget := (daily_budget db)(day := Some \<lparr>reserved_usd = 0, spent_usd = 0\<rparr>)\<rparr>
   | Some _ \<Rightarrow> db)"

definition lock_day :: "int \<Rightarrow> database \<Rightarrow> db_error + (int \<times> bool) \<times> database" where
  "lock_day day db =
     (let db = ensure_day_row day (acquire_named_lock ''budget_day'' db) in
      case daily_budget db day of
        None \<Rightarrow> Inl LedgerError
      | Some row \<Rightarrow> and_then (lift_budget (usd_to_nano (Usd (read_money (spent_usd row))))) (\<lambda>spent.
          Inr ((spent, is_circuit_open db), db)))"

text \<open>The sweep: reservations of the day that are past their expiry stop being outstanding.\<close>

definition expire_row :: "int \<Rightarrow> clock_reading \<Rightarrow> reservation_row \<Rightarrow> reservation_row" where
  "expire_row day now r =
     (if row_budget_date r = day \<and> row_state r = Reserved \<and> column_le (expires_at r) now
      then r\<lparr>row_state := Expired\<rparr> else r)"

definition sweep :: "int \<Rightarrow> clock_reading \<Rightarrow> database \<Rightarrow> database" where
  "sweep day now db = db\<lparr>reservations := map (expire_row day now) (reservations db)\<rparr>"

definition outstanding_after_sweep ::
  "int \<Rightarrow> clock_reading \<Rightarrow> database \<Rightarrow> db_error + int \<times> database" where
  "outstanding_after_sweep day now db =
     (let db = sweep day now db in
      and_then (lift_budget (usd_to_nano (Usd (read_money (reserved_sum (\<lambda>_. True) day db)))))
        (\<lambda>outstanding. Inr (outstanding, db)))"

section \<open>Reserving\<close>

text \<open>
  The INSERT: a public id that is already there or that does not fit its column, and an amount the
  column refuses, are errors of the driver. The new row gets the next id.
\<close>

definition insert_reservation ::
  "string \<Rightarrow> int \<Rightarrow> request_kind \<Rightarrow> ustr \<Rightarrow> string \<Rightarrow> int \<Rightarrow> database \<Rightarrow> db_error + nat \<times> database" where
  "insert_reservation pid day kind model amount expires db =
     and_then (write_money_text amount) (\<lambda>m.
     and_then (write_money m) (\<lambda>m.
     if 36 < length pid \<or> 64 < length model \<or> pid \<in> set (map row_public_id (reservations db))
     then Inl SqlError
     else Inr (next_reservation_id db,
       db\<lparr>reservations := reservations db @
            [\<lparr>row_id = next_reservation_id db, row_public_id = pid, row_budget_date = day,
              row_request_kind = kind, row_priority_lane = priority_lane_unspecified,
              row_model = model, max_cost_usd = m, actual_cost_usd = None, row_state = Reserved,
              expires_at = expires, settled_at = None\<rparr>],
          next_reservation_id := next_reservation_id db + 1\<rparr>)))"

definition stored_maximum :: "int option \<Rightarrow> int option" where
  "stored_maximum mx = (case mx of
     None \<Rightarrow> None
   | Some n \<Rightarrow> Some (if 0 < n then quantize_storable_nano n else n))"

definition reserve ::
  "budget_ledger \<Rightarrow> request_kind \<Rightarrow> ustr \<Rightarrow> int option \<Rightarrow> request_priority \<Rightarrow> clock_reading \<Rightarrow>
   nat list \<Rightarrow> database \<Rightarrow> db_error + (admission_decision \<times> reservation option) \<times> database" where
  "reserve book kind model mx priority now entropy db =
     (if model = [] \<or> model_name_limit < length model then Inl LedgerError
      else let mx = stored_maximum mx; day = utc_day now in
        and_then (lock_day day db) (\<lambda>((spent, circuit), db).
        and_then (outstanding_after_sweep day now db) (\<lambda>(outstanding, db).
        and_then (lift_budget (admit (ceiling_nano book)
            \<lparr>settled_nano = spent, outstanding_nano = outstanding, circuit_open = circuit\<rparr>
            mx priority (reserve_ratio book))) (\<lambda>decision.
        if decision \<noteq> Admitted then
          and_then (refresh_reserved_usd day db) (\<lambda>db. Inr ((decision, None), db))
        else
          let pid = mint_public_id entropy; amount = (case mx of None \<Rightarrow> 0 | Some n \<Rightarrow> n) in
          and_then (insert_reservation pid day kind model (nano_to_usd_string amount)
              (datetime_column (plus_us now reservation_expiry_us)) db) (\<lambda>(rid, db).
          and_then (refresh_reserved_usd day db) (\<lambda>db.
          Inr ((Admitted, Some \<lparr>reservation_id = rid, public_id = pid, budget_date = day,
            max_cost_nano = amount\<rparr>), db)))))))"

section \<open>Settling\<close>

text \<open>
  The UPDATE of one reservation that is still reserved; the flag says whether a row was changed.
\<close>

definition is_live :: "nat \<Rightarrow> reservation_row \<Rightarrow> bool" where
  "is_live rid r \<longleftrightarrow> row_id r = rid \<and> row_state r = Reserved"

definition complete_row :: "nat \<Rightarrow> int \<Rightarrow> clock_reading \<Rightarrow> reservation_row \<Rightarrow> reservation_row" where
  "complete_row rid actual now r =
     (if is_live rid r
      then r\<lparr>row_state := Completed, actual_cost_usd := Some actual,
             settled_at := Some (datetime_column now)\<rparr>
      else r)"

definition complete_reservation ::
  "nat \<Rightarrow> string \<Rightarrow> clock_reading \<Rightarrow> database \<Rightarrow> db_error + bool \<times> database" where
  "complete_reservation rid amount now db =
     (if \<exists>r \<in> set (reservations db). is_live rid r
      then and_then (write_money_text amount) (\<lambda>m. and_then (write_money m) (\<lambda>m.
        Inr (True, db\<lparr>reservations := map (complete_row rid m now) (reservations db)\<rparr>)))
      else Inr (False, db))"

text \<open>\<open>spent_usd + %s\<close> with a decimal literal: exact addition, then the column's rounding.\<close>

definition add_spent :: "int \<Rightarrow> fdec \<Rightarrow> database \<Rightarrow> db_error + database" where
  "add_spent day d db = (case daily_budget db day of
     None \<Rightarrow> Inr db
   | Some row \<Rightarrow>
       let e = min (- 6) (expo d);
           total = Fdec (spent_usd row * 10 ^ nat (- 6 - e) + coef d * 10 ^ nat (expo d - e)) (e + 6)
       in and_then (write_money (round_half_away total)) (\<lambda>m.
          Inr (db\<lparr>daily_budget := (daily_budget db)(day := Some (row\<lparr>spent_usd := m\<rparr>))\<rparr>)))"

definition join_with :: "string \<Rightarrow> string list \<Rightarrow> string" where
  "join_with sep xs = (case xs of [] \<Rightarrow> [] | x # ys \<Rightarrow> x @ concat (map (\<lambda>y. sep @ y) ys))"

definition breach_reason :: "int \<Rightarrow> int \<Rightarrow> int \<Rightarrow> int \<Rightarrow> bool \<Rightarrow> bool \<Rightarrow> string" where
  "breach_reason mx actual storable added over sat =
     join_with ''; ''
       ((if over then [''cost '' @ nano_to_usd_string actual @ '' over reservation '' @
           nano_to_usd_string mx] else []) @
        (if sat then [''day saturated at '' @ nano_to_usd_string max_storable_nano @
           '', discarding '' @ nano_to_usd_string (storable - added)] else []))"

definition settle ::
  "reservation \<Rightarrow> int \<Rightarrow> clock_reading \<Rightarrow> database \<Rightarrow> db_error + settlement_receipt \<times> database" where
  "settle res actual now db =
     (let over = circuit_should_open (max_cost_nano res) actual;
          storable = storable_actual_cost_nano actual; day = budget_date res in
      and_then (lock_day day db) (\<lambda>((spent_before, _), db).
      and_then (complete_reservation (reservation_id res) (nano_to_usd_string storable) now db)
        (\<lambda>(changed, db).
      if \<not> changed then
        Inr (\<lparr>completed = False, stored_cost_nano = None, breach = False, saturated = False\<rparr>, db)
      else
        let headroom = max_storable_nano - spent_before;
            added = max 0 (min storable headroom); sat = added < storable in
        and_then (lift_budget (raise_overflow (dec_div_pow10 (fdec_of_int added) 9))) (\<lambda>amount.
        and_then (add_spent day amount db) (\<lambda>db.
        and_then (refresh_reserved_usd day db) (\<lambda>db.
        let db = (if over \<or> sat
          then open_circuit (breach_reason (max_cost_nano res) actual storable added over sat) now db
          else db)
        in Inr (\<lparr>completed = True, stored_cost_nano = Some storable, breach = over,
              saturated = sat\<rparr>, db)))))))"

section \<open>Releasing\<close>

definition release_row :: "nat \<Rightarrow> reservation_row \<Rightarrow> reservation_row" where
  "release_row rid r = (if is_live rid r then r\<lparr>row_state := Released\<rparr> else r)"

definition release :: "reservation \<Rightarrow> database \<Rightarrow> db_error + bool \<times> database" where
  "release res db =
     (let day = budget_date res; rid = reservation_id res in
      and_then (lock_day day db) (\<lambda>(_, db).
      if \<exists>r \<in> set (reservations db). is_live rid r then
        and_then (refresh_reserved_usd day
            (db\<lparr>reservations := map (release_row rid) (reservations db)\<rparr>)) (\<lambda>db. Inr (True, db))
      else Inr (False, db)))"

section \<open>Reading\<close>

definition snapshot :: "clock_reading \<Rightarrow> database \<Rightarrow> db_error + budget_state" where
  "snapshot now db =
     (let day = utc_day now in
      and_then (case daily_budget db day of
          None \<Rightarrow> Inr 0
        | Some row \<Rightarrow> lift_budget (usd_to_nano (Usd (read_money (spent_usd row))))) (\<lambda>spent.
      and_then (lift_budget (usd_to_nano (Usd (read_money
          (reserved_sum (\<lambda>r. \<not> column_le (expires_at r) now) day db))))) (\<lambda>outstanding.
      Inr \<lparr>settled_nano = spent, outstanding_nano = outstanding,
           circuit_open = is_circuit_open db\<rparr>)))"

section \<open>The invariant of the ledger\<close>

text \<open>The reserved total of a day, over its rows that are still reserved.\<close>

definition live_total :: "int \<Rightarrow> reservation_row list \<Rightarrow> int" where
  "live_total day rows = sum_list (map max_cost_usd
     (filter (\<lambda>r. row_budget_date r = day \<and> row_state r = Reserved) rows))"

definition spent_of :: "int \<Rightarrow> database \<Rightarrow> int" where
  "spent_of day db = (case daily_budget db day of None \<Rightarrow> 0 | Some row \<Rightarrow> spent_usd row)"

definition rows_ok :: "database \<Rightarrow> bool" where
  "rows_ok db \<longleftrightarrow> distinct (map row_id (reservations db)) \<and>
     (\<forall>r \<in> set (reservations db). row_id r < next_reservation_id db \<and> 0 \<le> max_cost_usd r \<and>
        daily_budget db (row_budget_date r) \<noteq> None) \<and>
     (\<forall>d. 0 \<le> spent_of d db \<and> fits_money (spent_of d db))"

text \<open>The stored reserved total of a day is the one its reservations add up to.\<close>

definition derived :: "int \<Rightarrow> database \<Rightarrow> bool" where
  "derived d db \<longleftrightarrow>
     (\<forall>row. daily_budget db d = Some row \<longrightarrow> reserved_usd row = live_total d (reservations db))"

definition ledger_wf :: "database \<Rightarrow> bool" where
  "ledger_wf db \<longleftrightarrow> rows_ok db \<and> (\<forall>d. derived d db)"

text \<open>
  A limit in nano dollars: no day has more than it reserved, and while the circuit is closed no
  day has more than it spent and reserved together.
\<close>

definition within_limit :: "int \<Rightarrow> database \<Rightarrow> bool" where
  "within_limit k db \<longleftrightarrow> (\<forall>d. live_total d (reservations db) * storage_scale_nano \<le> k \<and>
     (\<not> is_circuit_open db \<longrightarrow>
        (spent_of d db + live_total d (reservations db)) * storage_scale_nano \<le> k))"

text \<open>What the holder of a reservation knows of its row.\<close>

definition names_row :: "reservation \<Rightarrow> reservation_row \<Rightarrow> bool" where
  "names_row h r \<longleftrightarrow> row_id r = reservation_id h \<and> row_public_id r = public_id h \<and>
     row_budget_date r = budget_date h \<and> max_cost_usd r * storage_scale_nano = max_cost_nano h"

definition handles_ok :: "reservation list \<Rightarrow> database \<Rightarrow> bool" where
  "handles_ok hs db \<longleftrightarrow> (\<forall>h \<in> set hs. \<exists>r \<in> set (reservations db). names_row h r)"

definition valid_book :: "budget_ledger \<Rightarrow> bool" where
  "valid_book b \<longleftrightarrow> 0 < ceiling_nano b \<and> ceiling_nano b \<le> max_storable_nano \<and>
     valid_ratio (reserve_ratio b)"

text \<open>The part of the ceiling a lane may commit.\<close>

definition lane_limit :: "budget_ledger \<Rightarrow> request_priority \<Rightarrow> int" where
  "lane_limit b priority = (case priority of
     ImmediateHuman \<Rightarrow> ceiling_nano b
   | Background \<Rightarrow> (case reserve_floor_nano (ceiling_nano b) (reserve_ratio b) of
       Inr f \<Rightarrow> ceiling_nano b - f | Inl _ \<Rightarrow> 0))"

section \<open>Facts about the statements\<close>

lemma reserved_sum_all: "reserved_sum (\<lambda>_. True) day db = live_total day (reservations db)"
  by (simp add: reserved_sum_def live_total_def)

lemma live_total_nonneg: "\<forall>r \<in> set rows. 0 \<le> max_cost_usd r \<Longrightarrow> 0 \<le> live_total d rows"
  unfolding live_total_def by (rule sum_list_filter_nonneg)

lemma live_total_append:
  "live_total d (rows @ [r]) = live_total d rows +
     (if row_budget_date r = d \<and> row_state r = Reserved then max_cost_usd r else 0)"
  by (simp add: live_total_def)

lemma live_total_none:
  "\<forall>r \<in> set rows. row_budget_date r \<noteq> d \<Longrightarrow> live_total d rows = 0"
  unfolding live_total_def by (simp add: filter_empty_conv [THEN iffD2])

text \<open>
  An update of rows of one day that only takes them out of the reserved state: the sweep, a
  settlement and a release are all of this kind.
\<close>

definition retires :: "int \<Rightarrow> (reservation_row \<Rightarrow> reservation_row) \<Rightarrow> reservation_row list \<Rightarrow> bool" where
  "retires day f rows \<longleftrightarrow> (\<forall>r \<in> set rows.
     row_id (f r) = row_id r \<and> row_public_id (f r) = row_public_id r \<and>
     row_budget_date (f r) = row_budget_date r \<and> max_cost_usd (f r) = max_cost_usd r \<and>
     (f r = r \<or> row_budget_date r = day \<and> row_state r = Reserved \<and> row_state (f r) \<noteq> Reserved))"

lemma retires_sweep [simp, intro]: "retires day (expire_row day now) rows"
  by (auto simp: retires_def expire_row_def)

lemma live_total_retire_le:
  assumes "retires day f rows" and "\<forall>r \<in> set rows. 0 \<le> max_cost_usd r"
  shows "live_total d (map f rows) \<le> live_total d rows"
  using assms by (induction rows) (auto simp: retires_def live_total_def)

lemma live_total_retire_other:
  assumes "retires day f rows" and "d \<noteq> day"
  shows "live_total d (map f rows) = live_total d rows"
  using assms by (induction rows) (auto simp: retires_def live_total_def)

lemma live_total_remove:
  assumes "distinct (map row_id rows)" "r \<in> set rows" "row_state r = Reserved"
    and "row_budget_date r = d"
    and f: "\<forall>x \<in> set rows. row_budget_date (f x) = row_budget_date x \<and>
      max_cost_usd (f x) = max_cost_usd x \<and>
      row_state (f x) = (if is_live (row_id r) x then s else row_state x)" "s \<noteq> Reserved"
  shows "live_total d (map f rows) = live_total d rows - max_cost_usd r"
proof -
  have "live_total d (map f rows) = sum_list (map max_cost_usd (filter
      (\<lambda>x. (row_budget_date x = d \<and> row_state x = Reserved) \<and> row_id x \<noteq> row_id r) rows))"
    using f(1) by (induction rows) (auto simp: live_total_def is_live_def f(2))
  also have "\<dots> = live_total d rows - max_cost_usd r"
    unfolding live_total_def by (rule sum_list_remove_one) (use assms in auto)
  finally show ?thesis .
qed

lemma frames [simp]:
  "reservations (ensure_day_row day db) = reservations db"
  "next_reservation_id (ensure_day_row day db) = next_reservation_id db"
  "runtime_control (ensure_day_row day db) = runtime_control db"
  "is_circuit_open (ensure_day_row day db) = is_circuit_open db"
  "is_circuit_open (acquire_named_lock k db) = is_circuit_open db"
  "spent_of d (ensure_day_row day db) = spent_of d db"
  "spent_of d (acquire_named_lock k db) = spent_of d db"
  "daily_budget (sweep day now db) = daily_budget db"
  "is_circuit_open (sweep day now db) = is_circuit_open db"
  "reservations (sweep day now db) = map (expire_row day now) (reservations db)"
  "next_reservation_id (sweep day now db) = next_reservation_id db"
  "spent_of d (sweep day now db) = spent_of d db"
  "is_circuit_open (db\<lparr>reservations := rows\<rparr>) = is_circuit_open db"
  "is_circuit_open (db\<lparr>next_reservation_id := n\<rparr>) = is_circuit_open db"
  "is_circuit_open (db\<lparr>daily_budget := m\<rparr>) = is_circuit_open db"
  "spent_of d (db\<lparr>reservations := rows\<rparr>) = spent_of d db"
  "spent_of d (db\<lparr>next_reservation_id := n\<rparr>) = spent_of d db"
  by (auto simp: ensure_day_row_def is_circuit_open_def spent_of_def sweep_def
      split: option.split)

lemma ensure_day_row_lookup:
  "daily_budget (ensure_day_row day db) d =
     (if d = day \<and> daily_budget db day = None then Some \<lparr>reserved_usd = 0, spent_usd = 0\<rparr>
      else daily_budget db d)"
  by (simp add: ensure_day_row_def split: option.split)

abbreviation locked :: "int \<Rightarrow> database \<Rightarrow> database" where
  "locked day db \<equiv> ensure_day_row day (acquire_named_lock ''budget_day'' db)"

definition refreshed :: "int \<Rightarrow> database \<Rightarrow> database" where
  "refreshed day db = db\<lparr>daily_budget := (daily_budget db)(day := map_option
     (\<lambda>row. row\<lparr>reserved_usd := live_total day (reservations db)\<rparr>) (daily_budget db day))\<rparr>"

lemma refreshed_frames [simp]:
  "reservations (refreshed day db) = reservations db"
  "next_reservation_id (refreshed day db) = next_reservation_id db"
  "runtime_control (refreshed day db) = runtime_control db"
  "is_circuit_open (refreshed day db) = is_circuit_open db"
  "spent_of d (refreshed day db) = spent_of d db"
  by (auto simp: refreshed_def spent_of_def split: option.split)

lemma rows_ok_nonneg: "rows_ok db \<Longrightarrow> \<forall>r \<in> set (reservations db). 0 \<le> max_cost_usd r"
  by (simp add: rows_ok_def)

lemma rows_ok_spent: "rows_ok db \<Longrightarrow> 0 \<le> spent_of d db \<and> fits_money (spent_of d db)"
  by (simp add: rows_ok_def)

lemma rows_ok_locked: "rows_ok db \<Longrightarrow> rows_ok (locked day db)"
  by (auto simp: rows_ok_def ensure_day_row_lookup split: if_splits)

lemma derived_locked: "rows_ok db \<Longrightarrow> derived d db \<Longrightarrow> derived d (locked day db)"
  using live_total_none [of "reservations db" day]
  by (fastforce simp: derived_def ensure_day_row_lookup rows_ok_def split: if_splits)

lemma locked_row: "\<exists>row. daily_budget (locked day db) day = Some row"
  by (simp add: ensure_day_row_lookup)

lemma lock_day_eq:
  assumes "rows_ok db"
  shows "lock_day day db =
    Inr ((spent_of day db * storage_scale_nano, is_circuit_open db), locked day db)"
proof -
  obtain row where row: "daily_budget (locked day db) day = Some row" using locked_row by blast
  then have "spent_usd row = spent_of day (locked day db)" by (simp add: spent_of_def)
  then have "spent_usd row = spent_of day db" by simp
  with rows_ok_spent [OF assms] row show ?thesis
    by (simp add: lock_day_def Let_def read_money_exact lift_budget_def)
qed

lemma outstanding_after_sweep_eq:
  assumes "fits_money (live_total day (map (expire_row day now) (reservations db)))"
  shows "outstanding_after_sweep day now db =
    Inr (live_total day (map (expire_row day now) (reservations db)) * storage_scale_nano,
      sweep day now db)"
  using assms
  by (simp add: outstanding_after_sweep_def Let_def reserved_sum_all read_money_exact
      lift_budget_def)

lemma refresh_eq:
  assumes "0 \<le> live_total day (reservations db)" "fits_money (live_total day (reservations db))"
  shows "refresh_reserved_usd day db = Inr (refreshed day db)"
  using assms
  by (auto simp: refresh_reserved_usd_def refreshed_def reserved_sum_all write_money_def
      fun_upd_idem split: option.split)

lemma refreshed_none [simp]: "(daily_budget (refreshed day db) d = None) = (daily_budget db d = None)"
  by (auto simp: refreshed_def)

lemma rows_ok_refreshed [simp]: "rows_ok (refreshed day db) = rows_ok db"
  by (simp only: rows_ok_def refreshed_frames refreshed_none)

lemma derived_refreshed: "d = day \<or> derived d db \<Longrightarrow> derived d (refreshed day db)"
  by (auto simp: derived_def refreshed_def split: if_splits)

lemma derived_refreshed_other: "d \<noteq> day \<Longrightarrow> derived d (refreshed day db) = derived d db"
  by (simp add: derived_def refreshed_def)

lemma rows_ok_retire:
  assumes "rows_ok db" and "retires day f (reservations db)"
  shows "rows_ok (db\<lparr>reservations := map f (reservations db)\<rparr>)"
proof -
  have "map row_id (map f (reservations db)) = map row_id (reservations db)"
    using assms(2) by (auto simp: retires_def)
  then have "distinct (map row_id (map f (reservations db)))"
    using assms(1) by (simp only: rows_ok_def)
  with assms show ?thesis by (auto simp: rows_ok_def retires_def simp del: map_map)
qed

lemma derived_retire:
  "derived d db \<Longrightarrow> retires day f (reservations db) \<Longrightarrow> d \<noteq> day \<Longrightarrow>
     derived d (db\<lparr>reservations := map f (reservations db)\<rparr>)"
  by (simp add: derived_def live_total_retire_other)

lemma within_limit_fits:
  assumes "live_total d rows * storage_scale_nano \<le> k" "k \<le> max_storable_nano"
    and "\<forall>r \<in> set rows. 0 \<le> max_cost_usd r"
  shows "0 \<le> live_total d rows \<and> fits_money (live_total d rows)"
  using assms live_total_nonneg [OF assms(3), of d]
  by (simp add: fits_money_def money_column_max_def money_constants)

lemma handles_ok_retire:
  assumes "handles_ok hs db" "retires day f (reservations db)"
    and "reservations db' = map f (reservations db)"
  shows "handles_ok hs db'"
  using assms by (fastforce simp: handles_ok_def names_row_def retires_def)

text \<open>
  What every operation leaves: the rows retired by \<open>f\<close>, the charge added to the day, and the
  reserved total of the day rewritten.
\<close>

definition charged :: "int \<Rightarrow> int \<Rightarrow> database \<Rightarrow> database" where
  "charged day a db = db\<lparr>daily_budget := (daily_budget db)(day := map_option
     (\<lambda>row. row\<lparr>spent_usd := spent_usd row + a\<rparr>) (daily_budget db day))\<rparr>"

definition retired_day ::
  "int \<Rightarrow> (reservation_row \<Rightarrow> reservation_row) \<Rightarrow> int \<Rightarrow> database \<Rightarrow> database" where
  "retired_day day f a db =
     charged day a ((locked day db)\<lparr>reservations := map f (reservations db)\<rparr>)"

lemma charged_0: "charged day 0 db = db"
  by (simp add: charged_def option.map_ident)

lemma retired_day_frames [simp]:
  "reservations (retired_day day f a db) = map f (reservations db)"
  "next_reservation_id (retired_day day f a db) = next_reservation_id db"
  "is_circuit_open (retired_day day f a db) = is_circuit_open db"
  "runtime_control (retired_day day f a db) = runtime_control db"
  by (simp_all add: retired_day_def charged_def is_circuit_open_def)

lemma retired_day_spent:
  "spent_of d (retired_day day f a db) = spent_of d db + (if d = day then a else 0)"
proof -
  obtain row where "daily_budget (locked day db) day = Some row" using locked_row by blast
  moreover have "spent_of d (locked day db) = spent_of d db" by simp
  ultimately show ?thesis
    by (cases "d = day") (auto simp: retired_day_def charged_def spent_of_def)
qed

lemma rows_ok_charged:
  assumes "rows_ok db" "0 \<le> spent_of day db + a" "fits_money (spent_of day db + a)"
  shows "rows_ok (charged day a db)"
proof -
  have "spent_of d (charged day a db) = spent_of day db + a \<or>
      spent_of d (charged day a db) = spent_of d db" for d
    by (auto simp: charged_def spent_of_def split: option.split)
  then have "0 \<le> spent_of d (charged day a db) \<and> fits_money (spent_of d (charged day a db))" for d
    using assms by (metis rows_ok_spent)
  then show ?thesis using assms(1) by (auto simp: rows_ok_def charged_def)
qed

lemma derived_charged: "derived d db \<Longrightarrow> derived d (charged day a db)"
  by (auto simp: derived_def charged_def split: if_splits)

lemma live_total_retire_scaled:
  assumes "retires day f (reservations db)" "rows_ok db"
  shows "live_total d (map f (reservations db)) * storage_scale_nano
    \<le> live_total d (reservations db) * storage_scale_nano"
  using live_total_retire_le [OF assms(1) rows_ok_nonneg [OF assms(2)]]
  by (intro mult_right_mono) (simp_all add: storage_scale_nano_def)

lemma retired_day_refresh:
  assumes wf: "ledger_wf db" and lim: "within_limit k db" and k: "k \<le> max_storable_nano"
    and f: "retires day f (reservations db)"
    and a: "0 \<le> a" "fits_money (spent_of day db + a)"
  shows "refresh_reserved_usd day (retired_day day f a db) =
      Inr (refreshed day (retired_day day f a db))"
    and "ledger_wf (refreshed day (retired_day day f a db))"
proof -
  let ?db = "(locked day db)\<lparr>reservations := map f (reservations db)\<rparr>"
  have ok0: "rows_ok db" using wf by (simp add: ledger_wf_def)
  have "rows_ok ?db"
    using rows_ok_retire [OF rows_ok_locked, of db day f] ok0 f by simp
  then have ok: "rows_ok (retired_day day f a db)"
    unfolding retired_day_def using a rows_ok_spent [OF ok0, of day]
    by (intro rows_ok_charged) auto
  have "live_total day (map f (reservations db)) * storage_scale_nano \<le> k"
    using lim live_total_retire_scaled [OF f ok0, of day]
    by (auto simp: within_limit_def intro: order_trans)
  then have "0 \<le> live_total day (map f (reservations db)) \<and>
      fits_money (live_total day (map f (reservations db)))"
    using k rows_ok_nonneg [OF ok] by (intro within_limit_fits) auto
  then show "refresh_reserved_usd day (retired_day day f a db) =
      Inr (refreshed day (retired_day day f a db))" by (simp add: refresh_eq)
  have "derived d (refreshed day (retired_day day f a db))" for d
  proof (cases "d = day")
    case False
    then have "derived d ?db"
      using derived_retire [OF derived_locked, of db d day f day] wf f by (simp add: ledger_wf_def)
    then show ?thesis unfolding retired_day_def by (simp add: derived_charged derived_refreshed)
  qed (simp add: derived_refreshed)
  with ok show "ledger_wf (refreshed day (retired_day day f a db))"
    by (simp add: ledger_wf_def rows_ok_refreshed)
qed

text \<open>
  The limit survives when what is charged is covered by what is retired, and in any case once the
  circuit is open.
\<close>

lemma retired_day_within_limit:
  assumes ok: "rows_ok db" and lim: "within_limit k db" and f: "retires day f (reservations db)"
  shows "a + live_total day (map f (reservations db)) \<le> live_total day (reservations db) \<or>
      is_circuit_open db \<Longrightarrow> within_limit k (refreshed day (retired_day day f a db))"
    and "within_limit k (open_circuit reason now (refreshed day (retired_day day f a db)))"
proof -
  note le = live_total_retire_scaled [OF f ok]
  have live: "live_total d (map f (reservations db)) * storage_scale_nano \<le> k" for d
    using lim le [of d] by (auto simp: within_limit_def intro: order_trans)
  then show "within_limit k (open_circuit reason now (refreshed day (retired_day day f a db)))"
    by (simp add: within_limit_def open_circuit_def is_circuit_open_def)
  assume cover: "a + live_total day (map f (reservations db)) \<le> live_total day (reservations db) \<or>
      is_circuit_open db"
  have "(spent_of d (retired_day day f a db) + live_total d (map f (reservations db)))
      * storage_scale_nano \<le> k" if "\<not> is_circuit_open db" for d
  proof -
    have "spent_of d (retired_day day f a db) + live_total d (map f (reservations db))
        \<le> spent_of d db + live_total d (reservations db)"
      using cover that live_total_retire_other [OF f, of d]
      by (cases "d = day") (auto simp: retired_day_spent)
    then have "(spent_of d (retired_day day f a db) + live_total d (map f (reservations db)))
        * storage_scale_nano \<le> (spent_of d db + live_total d (reservations db)) * storage_scale_nano"
      by (intro mult_right_mono) (simp_all add: storage_scale_nano_def)
    with lim that show ?thesis by (auto simp: within_limit_def intro: order_trans)
  qed
  with live show "within_limit k (refreshed day (retired_day day f a db))"
    by (simp add: within_limit_def)
qed

section \<open>The three operations in closed form\<close>

lemma retires_row:
  assumes "distinct (map row_id rows)" "r \<in> set rows" "names_row h r"
  shows "retires (budget_date h) (release_row (reservation_id h)) rows"
    and "retires (budget_date h) (complete_row (reservation_id h) m now) rows"
proof -
  have "x = r" if "x \<in> set rows" "row_id x = reservation_id h" for x
    using that assms by (auto simp: names_row_def distinct_map inj_on_def)
  then show "retires (budget_date h) (release_row (reservation_id h)) rows"
    and "retires (budget_date h) (complete_row (reservation_id h) m now) rows"
    using assms(3) by (auto simp: retires_def release_row_def complete_row_def is_live_def
        names_row_def)
qed

lemma live_row_iff:
  assumes "distinct (map row_id rows)" "r \<in> set rows" "names_row h r"
  shows "(\<exists>x \<in> set rows. is_live (reservation_id h) x) \<longleftrightarrow> row_state r = Reserved"
  using assms by (auto simp: is_live_def names_row_def distinct_map inj_on_def)

text \<open>The row a handle names, with what the invariant gives of it.\<close>

lemma named_row:
  assumes "ledger_wf db" "handles_ok hs db" "h \<in> set hs"
  obtains r where "r \<in> set (reservations db)" "names_row h r"
    "distinct (map row_id (reservations db))"
  using assms by (auto simp: handles_ok_def ledger_wf_def rows_ok_def)

definition released_db :: "reservation \<Rightarrow> database \<Rightarrow> database" where
  "released_db h db = refreshed (budget_date h)
     (retired_day (budget_date h) (release_row (reservation_id h)) 0 db)"

lemma release_eq:
  assumes "ledger_wf db" "within_limit k db" "k \<le> max_storable_nano"
    and r: "r \<in> set (reservations db)" "names_row h r"
  shows "release h db = (if row_state r = Reserved then Inr (True, released_db h db)
    else Inr (False, locked (budget_date h) db))"
proof -
  have ok: "rows_ok db" and d: "distinct (map row_id (reservations db))"
    using assms(1) by (auto simp: ledger_wf_def rows_ok_def)
  from rows_ok_spent [OF ok, of "budget_date h"]
  have "refresh_reserved_usd (budget_date h)
      (retired_day (budget_date h) (release_row (reservation_id h)) 0 db) = Inr (released_db h db)"
    unfolding released_db_def
    by (intro retired_day_refresh [OF assms(1-3) retires_row(1) [OF d r]]) auto
  then show ?thesis
    by (simp add: release_def Let_def lock_day_eq [OF ok] live_row_iff [OF d r] retired_day_def
        charged_0)
qed

definition settled_db :: "reservation \<Rightarrow> int \<Rightarrow> int \<Rightarrow> clock_reading \<Rightarrow> database \<Rightarrow> database" where
  "settled_db h storable added now db = refreshed (budget_date h)
     (retired_day (budget_date h)
       (complete_row (reservation_id h) (storable div storage_scale_nano) now)
       (added div storage_scale_nano) db)"

text \<open>What a settlement adds to the day: the stored figure, unless the column has no room for it.\<close>

definition added_nano :: "int \<Rightarrow> int \<Rightarrow> int" where
  "added_nano storable spent = max 0 (min storable (max_storable_nano - spent))"

lemma add_spent_eq:
  assumes "daily_budget db day = Some row" "0 \<le> a" "a \<le> max_storable_nano"
    "storage_scale_nano dvd a" "0 \<le> spent_usd row" "fits_money (spent_usd row + a div storage_scale_nano)"
  shows "and_then (lift_budget (raise_overflow (dec_div_pow10 (fdec_of_int a) 9)))
      (\<lambda>d. add_spent day d db) = Inr (charged day (a div storage_scale_nano) db)"
proof -
  have "dec_div_pow10 (fdec_of_int a) 9 = Some (Fdec a (- 9))"
    using assms(2,3)
    by (simp add: dec_div_pow10_def fdec_of_int_def dec_fix_exact dec_context max_storable_nano_def)
  moreover have "round_half_away (Fdec (spent_usd row * 1000 + a) (- 3)) =
      spent_usd row + a div storage_scale_nano"
    using assms(4) by (intro round_half_away_exact) (auto simp: fval_neg_expo storage_scale_nano_def)
  moreover have "0 \<le> a div storage_scale_nano"
    using assms(2) by (simp add: storage_scale_nano_def pos_imp_zdiv_nonneg_iff)
  ultimately show ?thesis
    using assms(1,5,6)
    by (simp add: lift_budget_def raise_overflow_def add_spent_def Let_def
        write_money_def charged_def)
qed

lemma settle_eq:
  fixes h actual db
  defines "storable \<equiv> storable_actual_cost_nano actual"
  defines "added \<equiv> added_nano storable (spent_of (budget_date h) db * storage_scale_nano)"
  defines "over \<equiv> circuit_should_open (max_cost_nano h) actual"
  assumes "ledger_wf db" "within_limit k db" "k \<le> max_storable_nano"
    and r: "r \<in> set (reservations db)" "names_row h r"
  shows "settle h actual now db = (if row_state r = Reserved
      then Inr (\<lparr>completed = True, stored_cost_nano = Some storable, breach = over,
            saturated = (added < storable)\<rparr>,
          (if over \<or> added < storable
           then open_circuit (breach_reason (max_cost_nano h) actual storable added over
             (added < storable)) now (settled_db h storable added now db)
           else settled_db h storable added now db))
      else Inr (\<lparr>completed = False, stored_cost_nano = None, breach = False, saturated = False\<rparr>,
        locked (budget_date h) db))"
proof -
  let ?day = "budget_date h" and ?m = "storable div storage_scale_nano"
  let ?f = "complete_row (reservation_id h) ?m now"
  have ok: "rows_ok db" and d: "distinct (map row_id (reservations db))"
    using assms(4) by (auto simp: ledger_wf_def rows_ok_def)
  note spent = rows_ok_spent [OF ok, of ?day]
  have storable: "0 \<le> storable" "storable \<le> max_storable_nano" "storage_scale_nano dvd storable"
    unfolding storable_def by (simp_all add: storable_le_max)
  then have "0 \<le> ?m \<and> fits_money ?m"
    using zdiv_mono1 [of storable max_storable_nano storage_scale_nano]
    by (simp add: fits_money_def money_column_max_def money_constants)
  with storable have w: "write_money_text (nano_to_usd_string storable) = Inr ?m" "write_money ?m = Inr ?m"
    by (simp_all add: write_money_text_exact write_money_def)
  have head: "0 \<le> max_storable_nano - spent_of ?day db * storage_scale_nano"
    using spent by (auto simp: fits_money_def money_column_max_def money_constants)
  have "storage_scale_nano dvd max_storable_nano - spent_of ?day db * storage_scale_nano"
    by (intro dvd_diff) simp_all
  then have added: "0 \<le> added" "added \<le> max_storable_nano" "storage_scale_nano dvd added"
    "added \<le> max_storable_nano - spent_of ?day db * storage_scale_nano"
    using storable head by (auto simp: added_def added_nano_def min_def)
  then have fits: "fits_money (spent_of ?day db + added div storage_scale_nano)"
    "0 \<le> added div storage_scale_nano"
    using spent by (auto simp: fits_money_def money_column_max_def money_constants)
  have refresh: "refresh_reserved_usd ?day (retired_day ?day ?f (added div storage_scale_nano) db)
      = Inr (settled_db h storable added now db)"
    unfolding settled_db_def using fits
    by (intro retired_day_refresh [OF assms(4-6) retires_row(2) [OF d r]])
  obtain row where row: "daily_budget (locked ?day db) ?day = Some row" using locked_row by blast
  then have "spent_usd row = spent_of ?day (locked ?day db)" by (simp add: spent_of_def)
  then have "spent_usd row = spent_of ?day db" by simp
  then have charge: "and_then (lift_budget (raise_overflow (dec_div_pow10 (fdec_of_int added) 9)))
      (\<lambda>d. and_then (add_spent ?day d ((locked ?day db)\<lparr>reservations := map ?f (reservations db)\<rparr>)) g)
      = g (retired_day ?day ?f (added div storage_scale_nano) db)" for g
    using add_spent_eq [of "(locked ?day db)\<lparr>reservations := map ?f (reservations db)\<rparr>" ?day row added]
      row added fits spent
    by (auto simp: retired_day_def and_then_def split: sum.splits)
  have complete: "complete_reservation (reservation_id h) (nano_to_usd_string storable) now
      (locked ?day db) = (if row_state r = Reserved
        then Inr (True, (locked ?day db)\<lparr>reservations := map ?f (reservations db)\<rparr>)
        else Inr (False, locked ?day db))"
    using live_row_iff [OF d r] w by (simp add: complete_reservation_def)
  note fold_added = added_nano_def [symmetric] added_def [symmetric]
  show ?thesis
    by (cases "row_state r = Reserved")
      (simp_all add: settle_def Let_def lock_day_eq [OF ok] complete charge refresh fold_added
        del: max_less_iff_conj min_less_iff_disj flip: storable_def over_def)
qed

text \<open>The totals a reservation is decided on: the sweep has already been made.\<close>

definition seen_state :: "int \<Rightarrow> clock_reading \<Rightarrow> database \<Rightarrow> budget_state" where
  "seen_state day now db = \<lparr>settled_nano = spent_of day db * storage_scale_nano,
     outstanding_nano = live_total day (map (expire_row day now) (reservations db))
       * storage_scale_nano,
     circuit_open = is_circuit_open db\<rparr>"

definition swept_db :: "int \<Rightarrow> clock_reading \<Rightarrow> database \<Rightarrow> database" where
  "swept_db day now db = retired_day day (expire_row day now) 0 db"

definition new_row ::
  "string \<Rightarrow> int \<Rightarrow> request_kind \<Rightarrow> ustr \<Rightarrow> int \<Rightarrow> clock_reading \<Rightarrow> database \<Rightarrow> reservation_row" where
  "new_row pid day kind model amount now db =
     \<lparr>row_id = next_reservation_id db, row_public_id = pid, row_budget_date = day,
       row_request_kind = kind, row_priority_lane = priority_lane_unspecified, row_model = model,
       max_cost_usd = amount div storage_scale_nano, actual_cost_usd = None, row_state = Reserved,
       expires_at = datetime_column (plus_us now reservation_expiry_us), settled_at = None\<rparr>"

definition inserted :: "reservation_row \<Rightarrow> database \<Rightarrow> database" where
  "inserted r db = db\<lparr>reservations := reservations db @ [r], next_reservation_id := row_id r + 1\<rparr>"

definition public_id_free :: "string \<Rightarrow> database \<Rightarrow> bool" where
  "public_id_free pid db \<longleftrightarrow> length pid \<le> 36 \<and> pid \<notin> set (map row_public_id (reservations db))"

lemma stored_maximum_props:
  assumes "stored_maximum mx = Some n" "0 \<le> n"
  shows "storage_scale_nano dvd n"
  using assms by (auto simp: stored_maximum_def split: option.splits if_splits)

lemma expire_row_ids [simp]:
  "row_public_id (expire_row day now r) = row_public_id r"
  "row_id (expire_row day now r) = row_id r"
  "row_budget_date (expire_row day now r) = row_budget_date r"
  "max_cost_usd (expire_row day now r) = max_cost_usd r"
  by (simp_all add: expire_row_def)

lemma admitted_cost:
  assumes "valid_book b"
    and "admit (ceiling_nano b) st mx pr (reserve_ratio b) = Inr Admitted"
  obtains n where "mx = Some n" "0 \<le> n" "committed_nano st + n \<le> lane_limit b pr"
    "lane_limit b pr \<le> ceiling_nano b" "\<not> circuit_open st"
proof -
  have v: "0 < ceiling_nano b" "ceiling_nano b \<le> max_storable_nano" "valid_ratio (reserve_ratio b)"
    using assms(1) by (auto simp: valid_book_def)
  obtain f where "reserve_floor_nano (ceiling_nano b) (reserve_ratio b) = Inr f" "0 \<le> f"
    using reserve_floor_bounds [OF v] by blast
  with assms(2) that show ?thesis
    by (auto simp: admit_def Let_def lane_limit_def split: option.splits if_splits
        request_priority.splits)
qed

lemma reserve_outstanding:
  assumes wf: "ledger_wf db" and lim: "within_limit k db" and k: "k \<le> max_storable_nano"
  shows "outstanding_after_sweep day now (locked day db) =
    Inr (outstanding_nano (seen_state day now db), swept_db day now db)"
proof -
  have ok: "rows_ok db" using wf by (simp add: ledger_wf_def)
  have "live_total day (map (expire_row day now) (reservations db)) * storage_scale_nano \<le> k"
    using lim live_total_retire_scaled [OF retires_sweep ok, of day day now]
    by (auto simp: within_limit_def intro: order_trans)
  moreover have "\<forall>r \<in> set (map (expire_row day now) (reservations db)). 0 \<le> max_cost_usd r"
    using rows_ok_nonneg [OF ok] by auto
  ultimately have "fits_money (live_total day (map (expire_row day now) (reservations db)))"
    using within_limit_fits k by blast
  then show ?thesis
    using outstanding_after_sweep_eq [of day now "locked day db"]
    by (simp add: seen_state_def swept_db_def retired_day_def charged_0 sweep_def)
qed

lemma reserve_sweep_refresh:
  assumes wf: "ledger_wf db" and lim: "within_limit k db" and k: "k \<le> max_storable_nano"
  shows "refresh_reserved_usd day (swept_db day now db) = Inr (refreshed day (swept_db day now db))"
    and "ledger_wf (refreshed day (swept_db day now db))"
    and "within_limit k (refreshed day (swept_db day now db))"
proof -
  have ok: "rows_ok db" using wf by (simp add: ledger_wf_def)
  show "refresh_reserved_usd day (swept_db day now db) = Inr (refreshed day (swept_db day now db))"
    and "ledger_wf (refreshed day (swept_db day now db))"
    and "within_limit k (refreshed day (swept_db day now db))"
    unfolding swept_db_def
    using retired_day_refresh [OF wf lim k retires_sweep, of 0] rows_ok_spent [OF ok]
      retired_day_within_limit(1) [OF ok lim retires_sweep, of 0 day now]
      live_total_retire_le [OF retires_sweep rows_ok_nonneg [OF ok]]
    by auto
qed

lemma swept_facts [simp]:
  "reservations (swept_db day now db) = map (expire_row day now) (reservations db)"
  "next_reservation_id (swept_db day now db) = next_reservation_id db"
  "is_circuit_open (swept_db day now db) = is_circuit_open db"
  "spent_of d (swept_db day now db) = spent_of d db"
  by (simp_all add: swept_db_def retired_day_spent)

lemma swept_row: "\<exists>row. daily_budget (swept_db day now db) day = Some row"
  using locked_row [of day db] by (auto simp: swept_db_def retired_day_def charged_0)

lemma reserved_rows_ok: "ledger_wf (refreshed day db) \<Longrightarrow> rows_ok db"
  by (simp add: ledger_wf_def)

lemma insert_reservation_eq:
  assumes "0 \<le> n" "n \<le> max_storable_nano" "storage_scale_nano dvd n" "length model \<le> 64"
  shows "insert_reservation pid day kind model (nano_to_usd_string n)
      (datetime_column (plus_us now reservation_expiry_us)) db =
    (if public_id_free pid db
     then Inr (next_reservation_id db, inserted (new_row pid day kind model n now db) db)
     else Inl SqlError)"
proof -
  have "0 \<le> n div storage_scale_nano \<and> fits_money (n div storage_scale_nano)"
    using zdiv_mono1 [of n max_storable_nano storage_scale_nano] assms
    by (simp add: fits_money_def money_column_max_def money_constants)
  with assms show ?thesis
    by (auto simp: insert_reservation_def write_money_text_exact write_money_def
        public_id_free_def inserted_def new_row_def)
qed

lemma inserted_frames [simp]:
  "reservations (inserted r db) = reservations db @ [r]"
  "next_reservation_id (inserted r db) = row_id r + 1"
  "daily_budget (inserted r db) = daily_budget db"
  "runtime_control (inserted r db) = runtime_control db"
  "is_circuit_open (inserted r db) = is_circuit_open db"
  "spent_of d (inserted r db) = spent_of d db"
  by (simp_all add: inserted_def spent_of_def)

lemma new_row_fields [simp]:
  "row_id (new_row pid day kind model n now db) = next_reservation_id db"
  "row_public_id (new_row pid day kind model n now db) = pid"
  "row_budget_date (new_row pid day kind model n now db) = day"
  "max_cost_usd (new_row pid day kind model n now db) = n div storage_scale_nano"
  "row_state (new_row pid day kind model n now db) = Reserved"
  "expires_at (new_row pid day kind model n now db) =
     datetime_column (plus_us now reservation_expiry_us)"
  by (simp_all add: new_row_def)

text \<open>
  The database an admitted reservation leaves, and the whole operation in closed form. The only
  thing that can still go wrong is a public id that is already taken.
\<close>

definition reserved_db ::
  "string \<Rightarrow> request_kind \<Rightarrow> ustr \<Rightarrow> int \<Rightarrow> clock_reading \<Rightarrow> database \<Rightarrow> database" where
  "reserved_db pid kind model n now db =
     (let day = utc_day now; db1 = swept_db day now db
      in refreshed day (inserted (new_row pid day kind model n now db1) db1))"

definition the_handle :: "string \<Rightarrow> int \<Rightarrow> int \<Rightarrow> database \<Rightarrow> reservation" where
  "the_handle pid day n db = \<lparr>reservation_id = next_reservation_id db, public_id = pid,
     budget_date = day, max_cost_nano = n\<rparr>"

lemma inserted_limit:
  fixes pid kind model n now db
  assumes wf: "ledger_wf db" and lim: "within_limit k db" and k: "k \<le> max_storable_nano"
    and n: "0 \<le> n" "storage_scale_nano dvd n"
    and fit: "committed_nano (seen_state (utc_day now) now db) + n \<le> k"
    and closed: "\<not> is_circuit_open db"
  defines "db1 \<equiv> swept_db (utc_day now) now db"
  defines "db2 \<equiv> inserted (new_row pid (utc_day now) kind model n now db1) db1"
  shows "refresh_reserved_usd (utc_day now) db2 = Inr (refreshed (utc_day now) db2)"
    and "ledger_wf (refreshed (utc_day now) db2)" and "within_limit k (refreshed (utc_day now) db2)"
proof -
  let ?day = "utc_day now"
  note swept = reserve_sweep_refresh [OF assms(1-3), of ?day now, folded db1_def]
  obtain q where q: "n = q * storage_scale_nano" "0 \<le> q" "n div storage_scale_nano = q"
    using n by (auto simp: dvd_def mult.commute storage_scale_nano_def)
  have ok1: "rows_ok db1" using swept(2) by (rule reserved_rows_ok)
  obtain row where row: "daily_budget db1 ?day = Some row" using swept_row db1_def by blast
  have live: "live_total d (reservations db2) =
      live_total d (reservations db1) + (if d = ?day then q else 0)" for d
    using q(3) by (simp add: db2_def live_total_append)
  have "spent_of ?day db * storage_scale_nano + live_total ?day (reservations db1) * storage_scale_nano
      + q * storage_scale_nano \<le> k"
    using fit q by (simp add: seen_state_def committed_nano_def db1_def)
  then have sum: "(spent_of ?day db + live_total ?day (reservations db2)) * storage_scale_nano \<le> k"
    by (simp add: live algebra_simps)
  moreover have "0 \<le> spent_of ?day db * storage_scale_nano"
    using rows_ok_spent [of db ?day] wf by (simp add: ledger_wf_def storage_scale_nano_def)
  ultimately have le: "live_total ?day (reservations db2) * storage_scale_nano \<le> k"
    by (simp add: algebra_simps)
  have ok2: "rows_ok db2"
    using ok1 row q by (auto simp: rows_ok_def db2_def less_Suc_eq)
  have "0 \<le> live_total ?day (reservations db2) \<and> fits_money (live_total ?day (reservations db2))"
    using le k rows_ok_nonneg [OF ok2] by (rule within_limit_fits)
  then show "refresh_reserved_usd ?day db2 = Inr (refreshed ?day db2)" by (simp add: refresh_eq)
  have "derived d (refreshed ?day db2)" for d
  proof (cases "d = ?day")
    case False
    have "derived d (refreshed ?day db1)" using swept(2) by (simp add: ledger_wf_def)
    then have "derived d db1" using False by (simp add: derived_refreshed_other)
    with False have "derived d db2" unfolding derived_def live by (simp add: db2_def)
    then show ?thesis using False by (simp add: derived_refreshed_other)
  qed (simp add: derived_refreshed)
  with ok2 show "ledger_wf (refreshed ?day db2)" by (simp add: ledger_wf_def rows_ok_refreshed)
  have "spent_of d db2 = spent_of d db" "spent_of d db1 = spent_of d db"
    "is_circuit_open db2 = False" "is_circuit_open db1 = False" for d
    using closed by (simp_all add: db2_def db1_def)
  moreover have "live_total d (reservations db2) = live_total d (reservations db1)" if "d \<noteq> ?day" for d
    using that by (simp add: live)
  ultimately show "within_limit k (refreshed ?day db2)"
    using swept(3) sum le unfolding within_limit_def refreshed_frames by metis
qed

lemma seen_state_fields [simp]:
  "circuit_open (seen_state day now db) = is_circuit_open db"
  by (simp add: seen_state_def)

theorem reserve_eq:
  fixes book db mx priority now
  defines "decision \<equiv> admit (ceiling_nano book) (seen_state (utc_day now) now db)
    (stored_maximum mx) priority (reserve_ratio book)"
  assumes book: "valid_book book" and wf: "ledger_wf db" and lim: "within_limit k db"
    and k: "lane_limit book priority \<le> k" "k \<le> max_storable_nano"
    and model: "model \<noteq> []" "length model \<le> model_name_limit"
  shows "reserve book kind model mx priority now entropy db = (case decision of
      Inl e \<Rightarrow> Inl (BudgetError e)
    | Inr d \<Rightarrow>
        if d \<noteq> Admitted then Inr ((d, None), refreshed (utc_day now) (swept_db (utc_day now) now db))
        else if public_id_free (mint_public_id entropy) db
        then Inr ((Admitted, Some (the_handle (mint_public_id entropy) (utc_day now)
            (the (stored_maximum mx)) db)),
          reserved_db (mint_public_id entropy) kind model (the (stored_maximum mx)) now db)
        else Inl SqlError)"
proof -
  let ?day = "utc_day now" and ?st = "seen_state (utc_day now) now db"
  let ?pid = "mint_public_id entropy"
  have ok: "rows_ok db" using wf by (simp add: ledger_wf_def)
  have st: "\<lparr>settled_nano = spent_of ?day db * storage_scale_nano,
      outstanding_nano = outstanding_nano ?st, circuit_open = is_circuit_open db\<rparr> = ?st"
    by (simp add: seen_state_def)
  note eqs = lock_day_eq [OF ok] reserve_outstanding [OF wf lim k(2)] st
    reserve_sweep_refresh(1) [OF wf lim k(2)]
  show ?thesis
  proof (cases decision)
    case (Inl e)
    then show ?thesis using model
      by (simp add: reserve_def Let_def eqs lift_budget_def flip: decision_def)
  next
    case (Inr d)
    show ?thesis
    proof (cases "d = Admitted")
      case False
      with Inr show ?thesis using model
        by (simp add: reserve_def Let_def eqs lift_budget_def flip: decision_def)
    next
      case True
      with Inr have adm: "admit (ceiling_nano book) ?st (stored_maximum mx) priority
          (reserve_ratio book) = Inr Admitted" by (simp add: decision_def)
      obtain n where n: "stored_maximum mx = Some n" "0 \<le> n"
        "committed_nano ?st + n \<le> lane_limit book priority"
        "lane_limit book priority \<le> ceiling_nano book" "\<not> is_circuit_open db"
        by (rule admitted_cost [OF book adm]) auto
      have dvd: "storage_scale_nano dvd n" using n by (simp add: stored_maximum_props)
      have "0 \<le> spent_of ?day db * storage_scale_nano"
        using rows_ok_spent [OF ok] by (simp add: storage_scale_nano_def)
      moreover have "0 \<le> outstanding_nano ?st"
        using live_total_nonneg [of "map (expire_row ?day now) (reservations db)"]
          rows_ok_nonneg [OF ok] by (simp add: seen_state_def storage_scale_nano_def)
      ultimately have "n \<le> max_storable_nano"
        using n(3,4) book by (simp add: committed_nano_def seen_state_def valid_book_def)
      note ins = insert_reservation_eq [OF n(2) this dvd, of model]
      have fit: "committed_nano ?st + n \<le> k" using n(3) k(1) by linarith
      note refresh = inserted_limit(1) [OF wf lim k(2) n(2) dvd fit n(5)]
      have free: "public_id_free ?pid (swept_db ?day now db) = public_id_free ?pid db"
        by (simp add: public_id_free_def image_image)
      show ?thesis using model Inr True n(1) adm [unfolded n(1)]
        by (simp add: reserve_def Let_def eqs lift_budget_def ins model_name_limit_def free refresh
            reserved_db_def the_handle_def flip: decision_def)
    qed
  qed
qed

text \<open>What the two outcomes leave of the invariant.\<close>

lemma reserve_preserves:
  assumes "valid_book book" "ledger_wf db" "within_limit k db"
    and "lane_limit book priority \<le> k" "k \<le> max_storable_nano"
    and "reserve book kind model mx priority now entropy db = Inr ((d, res), db')"
    and "handles_ok hs db"
  shows "ledger_wf db'" and "within_limit k db'"
    and "handles_ok (case res of None \<Rightarrow> hs | Some h \<Rightarrow> h # hs) db'"
proof -
  let ?day = "utc_day now" and ?st = "seen_state (utc_day now) now db"
  have model: "model \<noteq> []" "length model \<le> model_name_limit"
    using assms(6) by (auto simp: reserve_def split: if_splits)
  have swept: "handles_ok hs (refreshed ?day (swept_db ?day now db))"
    by (rule handles_ok_retire [OF assms(7) retires_sweep [of ?day now]]) simp
  consider (denied) "res = None" "db' = refreshed ?day (swept_db ?day now db)"
    | (admitted) "admit (ceiling_nano book) ?st (stored_maximum mx) priority
        (reserve_ratio book) = Inr Admitted"
        "res = Some (the_handle (mint_public_id entropy) ?day (the (stored_maximum mx)) db)"
        "db' = reserved_db (mint_public_id entropy) kind model (the (stored_maximum mx)) now db"
    using assms(6) reserve_eq [OF assms(1-5) model, of kind mx now entropy]
    by (auto split: sum.splits if_splits)
  then have "ledger_wf db' \<and> within_limit k db' \<and>
      handles_ok (case res of None \<Rightarrow> hs | Some h \<Rightarrow> h # hs) db'"
  proof cases
    case denied
    then show ?thesis using reserve_sweep_refresh [OF assms(2,3,5), of ?day now] swept by simp
  next
    case admitted
    obtain n where n: "stored_maximum mx = Some n" "0 \<le> n"
      "committed_nano ?st + n \<le> lane_limit book priority" "\<not> is_circuit_open db"
      by (rule admitted_cost [OF assms(1) admitted(1)]) auto
    then have dvd: "storage_scale_nano dvd n" by (simp add: stored_maximum_props)
    have fit: "committed_nano ?st + n \<le> k" using n assms(4) by linarith
    note facts = inserted_limit [OF assms(2,3,5) n(2) dvd fit n(4),
        of "mint_public_id entropy" kind model]
    have "handles_ok (the_handle (mint_public_id entropy) ?day n db # hs) db'"
      using swept dvd n(1) unfolding admitted(3) reserved_db_def Let_def
      by (auto simp: handles_ok_def names_row_def the_handle_def)
    with facts(2,3) n(1) show ?thesis by (simp add: admitted(2,3) reserved_db_def Let_def)
  qed
  then show "ledger_wf db'" and "within_limit k db'"
    and "handles_ok (case res of None \<Rightarrow> hs | Some h \<Rightarrow> h # hs) db'" by blast+
qed

lemma locked_preserves:
  assumes "ledger_wf db" "within_limit k db" "handles_ok hs db"
  shows "ledger_wf (locked day db)" "within_limit k (locked day db)" "handles_ok hs (locked day db)"
  using assms rows_ok_locked derived_locked
  by (auto simp: ledger_wf_def within_limit_def handles_ok_def)

text \<open>How much a settlement or a release takes out of what its day has reserved.\<close>

lemma live_total_settled:
  assumes "ledger_wf db" "r \<in> set (reservations db)" "names_row h r" "row_state r = Reserved"
  shows "live_total (budget_date h) (map (complete_row (reservation_id h) m now) (reservations db)) =
      live_total (budget_date h) (reservations db) - max_cost_usd r"
    and "live_total (budget_date h) (map (release_row (reservation_id h)) (reservations db)) =
      live_total (budget_date h) (reservations db) - max_cost_usd r"
proof -
  have d: "distinct (map row_id (reservations db))"
    using assms(1) by (simp add: ledger_wf_def rows_ok_def)
  have h: "reservation_id h = row_id r" "row_budget_date r = budget_date h"
    using assms(3) by (simp_all add: names_row_def)
  show "live_total (budget_date h) (map (complete_row (reservation_id h) m now) (reservations db)) =
      live_total (budget_date h) (reservations db) - max_cost_usd r"
    by (rule live_total_remove [OF d assms(2,4) h(2), of _ Completed])
      (auto simp: complete_row_def h(1))
  show "live_total (budget_date h) (map (release_row (reservation_id h)) (reservations db)) =
      live_total (budget_date h) (reservations db) - max_cost_usd r"
    by (rule live_total_remove [OF d assms(2,4) h(2), of _ Released])
      (auto simp: release_row_def h(1))
qed

lemma live_row_le:
  assumes "\<forall>r \<in> set rows. 0 \<le> max_cost_usd r" "r \<in> set rows" "row_state r = Reserved"
  shows "max_cost_usd r \<le> live_total (row_budget_date r) rows"
proof -
  have "max_cost_usd r \<in> set (map max_cost_usd (filter (\<lambda>x. row_budget_date x = row_budget_date r \<and>
      row_state x = Reserved) rows))" using assms(2,3) by simp
  then show ?thesis
    unfolding live_total_def by (rule member_le_sum_list) (use assms(1) in auto)
qed

lemma live_row_within:
  assumes "ledger_wf db" "within_limit k db" "r \<in> set (reservations db)" "row_state r = Reserved"
  shows "max_cost_usd r * storage_scale_nano \<le> k" "0 \<le> max_cost_usd r"
proof -
  have nn: "\<forall>r \<in> set (reservations db). 0 \<le> max_cost_usd r"
    using assms(1) by (simp add: ledger_wf_def rows_ok_def)
  then show "0 \<le> max_cost_usd r" using assms(3) by blast
  have "max_cost_usd r * storage_scale_nano
      \<le> live_total (row_budget_date r) (reservations db) * storage_scale_nano"
    using live_row_le [OF nn assms(3,4)] by (simp add: storage_scale_nano_def)
  also have "\<dots> \<le> k" using assms(2) by (simp add: within_limit_def)
  finally show "max_cost_usd r * storage_scale_nano \<le> k" .
qed

lemma added_nano_bounds:
  assumes "0 \<le> storable" "storage_scale_nano dvd storable" "0 \<le> s" "fits_money s"
  shows "0 \<le> added_nano storable (s * storage_scale_nano)"
    and "added_nano storable (s * storage_scale_nano) \<le> storable"
    and "storage_scale_nano dvd added_nano storable (s * storage_scale_nano)"
    and "fits_money (s + added_nano storable (s * storage_scale_nano) div storage_scale_nano)"
proof -
  have head: "0 \<le> max_storable_nano - s * storage_scale_nano"
    using assms(3,4) by (auto simp: fits_money_def money_column_max_def money_constants)
  have "storage_scale_nano dvd max_storable_nano - s * storage_scale_nano"
    by (intro dvd_diff) simp_all
  with assms(1,2) head show "0 \<le> added_nano storable (s * storage_scale_nano)"
    "added_nano storable (s * storage_scale_nano) \<le> storable"
    "storage_scale_nano dvd added_nano storable (s * storage_scale_nano)"
    by (auto simp: added_nano_def min_def)
  have "added_nano storable (s * storage_scale_nano) \<le> max_storable_nano - s * storage_scale_nano"
    using head assms(1) by (auto simp: added_nano_def)
  then show "fits_money (s + added_nano storable (s * storage_scale_nano) div storage_scale_nano)"
    using assms(3,4) \<open>0 \<le> added_nano storable (s * storage_scale_nano)\<close>
    by (auto simp: fits_money_def money_column_max_def money_constants)
qed

text \<open>A settlement that neither breaks its reservation nor saturates the day is covered by it.\<close>

lemma settlement_covered:
  assumes "\<not> circuit_should_open (max_cost_nano h) actual" "names_row h r"
    and "max_cost_usd r * storage_scale_nano \<le> k" "k \<le> max_storable_nano"
  shows "storable_actual_cost_nano actual \<le> max_cost_usd r * storage_scale_nano"
proof -
  have mx: "max_cost_nano h = max_cost_usd r * storage_scale_nano"
    using assms(2) by (simp add: names_row_def)
  with settlement_bounds [OF assms(1)] assms(3,4) show ?thesis by simp
qed

lemma ledger_wf_open_circuit [simp]: "ledger_wf (open_circuit reason now db) = ledger_wf db"
  by (simp add: ledger_wf_def rows_ok_def derived_def open_circuit_def Let_def spent_of_def)

lemma open_circuit_frames [simp]:
  "reservations (open_circuit reason now db) = reservations db"
  "daily_budget (open_circuit reason now db) = daily_budget db"
  "is_circuit_open (open_circuit reason now db)"
  "spent_of d (open_circuit reason now db) = spent_of d db"
  by (simp_all add: open_circuit_def Let_def is_circuit_open_def spent_of_def)

lemma release_preserves:
  assumes "ledger_wf db" "within_limit k db" "k \<le> max_storable_nano"
    and "handles_ok hs db" "h \<in> set hs" and "release h db = Inr (b, db')"
  shows "ledger_wf db'" and "within_limit k db'" and "handles_ok hs db'"
proof -
  from named_row [OF assms(1,4,5)] obtain r where r: "r \<in> set (reservations db)" "names_row h r"
    and d: "distinct (map row_id (reservations db))" by blast
  have ok: "rows_ok db" using assms(1) by (simp add: ledger_wf_def)
  have ret: "retires (budget_date h) (release_row (reservation_id h)) (reservations db)"
    by (rule retires_row(1) [OF d r])
  have "0 + live_total (budget_date h) (map (release_row (reservation_id h)) (reservations db))
      \<le> live_total (budget_date h) (reservations db)"
    using live_total_retire_le [OF ret rows_ok_nonneg [OF ok]] by simp
  with retired_day_refresh(2) [OF assms(1-3) ret, of 0] rows_ok_spent [OF ok, of "budget_date h"]
    retired_day_within_limit(1) [OF ok assms(2) ret, where a = 0]
    handles_ok_retire [OF assms(4) ret, of "released_db h db"]
  have "ledger_wf (released_db h db)" "within_limit k (released_db h db)"
    "handles_ok hs (released_db h db)" by (simp_all add: released_db_def)
  with locked_preserves [OF assms(1,2,4), of "budget_date h"] assms(6)
    release_eq [OF assms(1-3) r]
  show "ledger_wf db'" and "within_limit k db'" and "handles_ok hs db'"
    by (auto split: if_splits)
qed

lemma settle_preserves:
  assumes "ledger_wf db" "within_limit k db" "k \<le> max_storable_nano"
    and "handles_ok hs db" "h \<in> set hs" and "settle h actual now db = Inr (receipt, db')"
  shows "ledger_wf db'" and "within_limit k db'" and "handles_ok hs db'"
proof -
  from named_row [OF assms(1,4,5)] obtain r where r: "r \<in> set (reservations db)" "names_row h r"
    and d: "distinct (map row_id (reservations db))" by blast
  let ?day = "budget_date h"
  define storable where "storable = storable_actual_cost_nano actual"
  define added where "added = added_nano storable (spent_of ?day db * storage_scale_nano)"
  define f where "f = complete_row (reservation_id h) (storable div storage_scale_nano) now"
  define over where "over = circuit_should_open (max_cost_nano h) actual"
  have ok: "rows_ok db" using assms(1) by (simp add: ledger_wf_def)
  have ret: "retires ?day f (reservations db)"
    unfolding f_def by (rule retires_row(2) [OF d r])
  note spent = rows_ok_spent [OF ok, of ?day]
  have added: "0 \<le> added" "added \<le> storable" "storage_scale_nano dvd added"
    "fits_money (spent_of ?day db + added div storage_scale_nano)"
    unfolding added_def using added_nano_bounds [of storable "spent_of ?day db"] spent
    by (simp_all add: storable_def)
  then have added': "0 \<le> added div storage_scale_nano" by (simp add: storage_scale_nano_def)
  have db: "settled_db h storable added now db =
      refreshed ?day (retired_day ?day f (added div storage_scale_nano) db)"
    by (simp add: settled_db_def f_def)
  note wf = retired_day_refresh(2) [OF assms(1-3) ret added' added(4), folded db]
  note lim = retired_day_within_limit [OF ok assms(2) ret,
      where a = "added div storage_scale_nano", folded db]
  have hs: "handles_ok hs (settled_db h storable added now db)"
    by (rule handles_ok_retire [OF assms(4) ret]) (simp add: db)
  have covered: "within_limit k (settled_db h storable added now db)"
    if "row_state r = Reserved" "\<not> over"
  proof (rule lim(1))
    have "storable \<le> max_cost_usd r * storage_scale_nano"
      using settlement_covered [OF _ r(2) live_row_within(1) [OF assms(1,2) r(1) that(1)] assms(3)]
        that(2) by (simp add: storable_def over_def)
    then have "added \<le> max_cost_usd r * storage_scale_nano" using added(2) by linarith
    then have "added div storage_scale_nano \<le> max_cost_usd r"
      by (simp add: storage_scale_nano_def)
    with live_total_settled(1) [OF assms(1) r that(1)]
    show "added div storage_scale_nano + live_total ?day (map f (reservations db))
        \<le> live_total ?day (reservations db) \<or> is_circuit_open db" by (simp add: f_def)
  qed
  note eq = settle_eq [OF assms(1-3) r, of actual now, folded storable_def, folded added_def over_def]
  show "ledger_wf db'" and "within_limit k db'" and "handles_ok hs db'"
    using eq assms(6) wf covered lim(2) hs locked_preserves [OF assms(1,2,4), of ?day]
    by (auto simp: handles_ok_def split: if_splits)
qed

end
