(* ===== verification/Ledger_Runs.thy ===== *)
theory Ledger_Runs
  imports Ledger
begin

text \<open>
  Runs of the ledger: any interleaving of the transactions of any number of sidecar processes over
  one database, each with its own configuration and its own clock. A state is the database and the
  reservations that have been handed out. What holds of every reachable state is proved from the
  invariant of \<open>Ledger\<close>.
\<close>

section \<open>The step relation\<close>

type_synonym ledger_source = "budget_ledger \<times> request_priority"
type_synonym ledger_state = "database \<times> reservation list"

text \<open>
  A source is a configured ledger and a lane its requests come in. A transaction that raises is
  rolled back and is no step. A handle is settled or released by whoever holds it, at any time and
  any number of times, with any reported cost.
\<close>

inductive ledger_step :: "ledger_source set \<Rightarrow> ledger_state \<Rightarrow> ledger_state \<Rightarrow> bool"
  for sources where
  reserves: "(book, priority) \<in> sources \<Longrightarrow>
    reserve book kind model mx priority now entropy db = Inr ((d, res), db') \<Longrightarrow>
    ledger_step sources (db, hs) (db', case res of None \<Rightarrow> hs | Some h \<Rightarrow> h # hs)"
| settles: "h \<in> set hs \<Longrightarrow> settle h actual now db = Inr (receipt, db') \<Longrightarrow>
    ledger_step sources (db, hs) (db', hs)"
| releases: "h \<in> set hs \<Longrightarrow> release h db = Inr (b, db') \<Longrightarrow>
    ledger_step sources (db, hs) (db', hs)"

inductive_cases ledger_stepE: "ledger_step sources s s'"

definition ledger_run :: "ledger_source set \<Rightarrow> ledger_state \<Rightarrow> ledger_state \<Rightarrow> bool" where
  "ledger_run sources = (ledger_step sources)\<^sup>*\<^sup>*"

definition ledger_start :: ledger_state where
  "ledger_start = (empty_database, [])"

definition sources_within :: "int \<Rightarrow> ledger_source set \<Rightarrow> bool" where
  "sources_within k sources \<longleftrightarrow> 0 \<le> k \<and> k \<le> max_storable_nano \<and>
     (\<forall>(book, priority) \<in> sources. valid_book book \<and> lane_limit book priority \<le> k)"

definition ledger_inv :: "int \<Rightarrow> ledger_state \<Rightarrow> bool" where
  "ledger_inv k s \<longleftrightarrow> ledger_wf (fst s) \<and> within_limit k (fst s) \<and> handles_ok (snd s) (fst s)"

lemma ledger_inv_start: "0 \<le> k \<Longrightarrow> ledger_inv k ledger_start"
  by (simp add: ledger_inv_def ledger_start_def ledger_wf_def rows_ok_def derived_def
      within_limit_def handles_ok_def empty_database_def spent_of_def live_total_def)

lemma ledger_inv_step:
  assumes "ledger_step sources s s'" "sources_within k sources" "ledger_inv k s"
  shows "ledger_inv k s'"
  using assms(1)
proof cases
  case (reserves book priority kind model mx now entropy db d res db' hs)
  then show ?thesis
    using reserve_preserves [of book db k priority kind model mx now entropy d res db' hs] assms(2,3)
    by (auto simp: ledger_inv_def sources_within_def)
next
  case (settles h hs actual now db receipt db')
  then show ?thesis
    using settle_preserves [of db k hs h actual now receipt db'] assms(2,3)
    by (auto simp: ledger_inv_def sources_within_def)
next
  case (releases h hs db b db')
  then show ?thesis
    using release_preserves [of db k hs h b db'] assms(2,3)
    by (auto simp: ledger_inv_def sources_within_def)
qed

lemma ledger_inv_run:
  "ledger_run sources s s' \<Longrightarrow> sources_within k sources \<Longrightarrow> ledger_inv k s \<Longrightarrow> ledger_inv k s'"
  unfolding ledger_run_def by (induction rule: rtranclp_induct) (auto intro: ledger_inv_step)

lemma reachable_inv:
  "ledger_run sources ledger_start s \<Longrightarrow> sources_within k sources \<Longrightarrow> ledger_inv k s"
  using ledger_inv_run ledger_inv_start by (fastforce simp: sources_within_def)

section \<open>A concrete run\<close>

text \<open>One ledger of five dollars a day with a quarter kept back, and one reserved request.\<close>

definition example_book :: budget_ledger where
  "example_book = \<lparr>ceiling_nano = 5000000000, reserve_ratio = Fdec 25 (- 2)\<rparr>"

definition example_now :: clock_reading where
  "example_now = \<lparr>wall_us = 1000000, utc_offset_us = Some 0\<rparr>"

definition example_entropy :: "nat list" where
  "example_entropy = replicate 16 171"

definition example_db :: database where
  "example_db = reserved_db (mint_public_id example_entropy) ModerationClassification (u ''m'') 4575000
     example_now empty_database"

definition example_handle :: reservation where
  "example_handle = the_handle (mint_public_id example_entropy) 0 4575000 empty_database"

lemma example_valid: "valid_book example_book"
  by (simp add: valid_book_def example_book_def max_storable_nano_def valid_ratio_def
      fdec_le_int_def)

lemma example_sources: "sources_within 5000000000 {(example_book, ImmediateHuman)}"
  using example_valid
  by (simp add: sources_within_def lane_limit_def max_storable_nano_def)
    (simp add: example_book_def)

lemma example_day: "utc_day example_now = 0"
  by (simp add: utc_day_def example_now_def day_us_def second_us_def)

lemma example_reserve:
  "reserve example_book ModerationClassification (u ''m'') (Some 4575000) ImmediateHuman example_now
     example_entropy empty_database = Inr ((Admitted, Some example_handle), example_db)"
proof -
  have inv: "ledger_inv 5000000000 ledger_start" by (rule ledger_inv_start) simp
  have q: "stored_maximum (Some 4575000) = Some 4575000"
    by (simp add: stored_maximum_def quantize_storable_nano_def storage_scale_nano_def ceil_div_def)
  have len: "length (mint_public_id example_entropy) = 36"
    by (simp add: mint_public_id_def example_entropy_def)
  have "admit (ceiling_nano example_book) (seen_state 0 example_now empty_database) (Some 4575000)
      ImmediateHuman (reserve_ratio example_book) = Inr Admitted"
    by (simp add: admit_def seen_state_def example_book_def is_circuit_open_def empty_database_def
        committed_nano_def spent_of_def live_total_def)
  with inv len show ?thesis
    using reserve_eq [OF example_valid, of empty_database 5000000000 ImmediateHuman "u ''m''"]
      example_sources
    by (simp add: ledger_inv_def ledger_start_def sources_within_def q example_day u_def
        model_name_limit_def public_id_free_def example_handle_def example_db_def)
      (simp add: empty_database_def)
qed

lemma example_run:
  "ledger_run {(example_book, ImmediateHuman)} ledger_start (example_db, [example_handle])"
  unfolding ledger_run_def ledger_start_def
  using reserves [OF _ example_reserve, of "{(example_book, ImmediateHuman)}" "[]"] by auto

lemma example_inv: "ledger_inv 5000000000 (example_db, [example_handle])"
  by (rule reachable_inv [OF example_run example_sources])

section \<open>What the reads report\<close>

lemma live_total_swept:
  "live_total day (map (expire_row day now) rows) = sum_list (map max_cost_usd (filter
     (\<lambda>r. row_budget_date r = day \<and> row_state r = Reserved \<and> \<not> column_le (expires_at r) now) rows))"
  by (induction rows) (auto simp: live_total_def expire_row_def)

lemma snapshot_eq:
  assumes "ledger_inv k (db, hs)" "k \<le> max_storable_nano"
  shows "snapshot now db = Inr (seen_state (utc_day now) now db)"
proof -
  let ?day = "utc_day now"
  let ?swept = "map (expire_row ?day now) (reservations db)"
  have wf: "ledger_wf db" "within_limit k db" using assms(1) by (auto simp: ledger_inv_def)
  then have ok: "rows_ok db" by (simp add: ledger_wf_def)
  have "live_total ?day ?swept * storage_scale_nano \<le> k"
    using wf(2) live_total_retire_scaled [OF retires_sweep ok, of ?day ?day now]
    by (auto simp: within_limit_def intro: order_trans)
  moreover have "\<forall>r \<in> set ?swept. 0 \<le> max_cost_usd r" using rows_ok_nonneg [OF ok] by auto
  ultimately have "fits_money (live_total ?day ?swept)" using within_limit_fits assms(2) by blast
  moreover have "reserved_sum (\<lambda>r. \<not> column_le (expires_at r) now) ?day db = live_total ?day ?swept"
    by (simp add: reserved_sum_def live_total_swept)
  moreover have "(case daily_budget db ?day of None \<Rightarrow> Inr 0
      | Some row \<Rightarrow> lift_budget (usd_to_nano (Usd (read_money (spent_usd row))))) =
      Inr (spent_of ?day db * storage_scale_nano)"
    using rows_ok_spent [OF ok, of ?day]
    by (auto simp: spent_of_def read_money_exact lift_budget_def split: option.splits)
  ultimately show ?thesis
    by (simp add: snapshot_def Let_def read_money_exact lift_budget_def seen_state_def)
qed

lemma seen_within_limit:
  assumes "ledger_inv k (db, hs)" "\<not> is_circuit_open db"
  shows "committed_nano (seen_state day now db) \<le> k"
proof -
  have ok: "rows_ok db" and lim: "within_limit k db"
    using assms(1) by (auto simp: ledger_inv_def ledger_wf_def)
  have "committed_nano (seen_state day now db) \<le>
      (spent_of day db + live_total day (reservations db)) * storage_scale_nano"
    using live_total_retire_scaled [OF retires_sweep ok, of day day now]
    by (simp add: seen_state_def committed_nano_def algebra_simps)
  also have "\<dots> \<le> k" using lim assms(2) by (simp add: within_limit_def)
  finally show ?thesis .
qed

lemma ledger_inv_bounds:
  assumes inv: "ledger_inv k (db, hs)" and k: "k \<le> max_storable_nano" and closed: "\<not> is_circuit_open db"
  shows "(\<forall>d row. daily_budget db d = Some row \<longrightarrow>
        (spent_usd row + reserved_usd row) * storage_scale_nano \<le> k) \<and>
    (\<exists>st. snapshot now db = Inr st \<and> committed_nano st \<le> k)"
proof -
  have "(spent_usd row + reserved_usd row) * storage_scale_nano \<le> k"
    if "daily_budget db d = Some row" for d row
  proof -
    have "reserved_usd row = live_total d (reservations db)" "spent_usd row = spent_of d db"
      using inv that by (auto simp: ledger_inv_def ledger_wf_def derived_def spent_of_def)
    with inv closed show ?thesis by (simp add: ledger_inv_def within_limit_def)
  qed
  moreover have "snapshot now db = Inr (seen_state (utc_day now) now db)"
    by (rule snapshot_eq [OF inv k])
  ultimately show ?thesis using seen_within_limit [OF inv closed] by blast
qed

text \<open>
  C12. No overspending: however the reserve, settle and release transactions of
  any number of sidecars interleave, and whatever their clocks say, as long as the breaker has not
  opened no day has spent and reserved more than the largest share of the ceiling any of them may
  commit, neither in the stored columns nor in what a snapshot reports.
\<close>

theorem never_overspends:
  assumes "sources_within k sources" "ledger_run sources ledger_start (db, hs)"
    and "\<not> is_circuit_open db"
  shows "(\<forall>d row. daily_budget db d = Some row \<longrightarrow>
        (spent_usd row + reserved_usd row) * storage_scale_nano \<le> k) \<and>
    (\<exists>st. snapshot now db = Inr st \<and> committed_nano st \<le> k)"
  using ledger_inv_bounds [OF reachable_inv [OF assms(2,1)]] assms(1,3)
  by (simp add: sources_within_def)

theorem never_overspends_witness:
  "\<not> is_circuit_open example_db \<and>
   (\<exists>st. snapshot example_now example_db = Inr st \<and> committed_nano st \<le> 5000000000)"
proof -
  have closed: "\<not> is_circuit_open example_db"
    by (simp add: example_db_def reserved_db_def Let_def)
      (simp add: is_circuit_open_def empty_database_def)
  with never_overspends [OF example_sources example_run] show ?thesis by blast
qed

text \<open>
  C20. The stored reserved total never drifts: in every reachable state it
  is the sum of the maxima of the reservations of that day which are still in the reserved state.
\<close>

theorem reserved_usd_is_derived:
  assumes "sources_within k sources" "ledger_run sources ledger_start (db, hs)"
    and "daily_budget db d = Some row"
  shows "reserved_usd row = sum_list (map max_cost_usd
    (filter (\<lambda>r. row_budget_date r = d \<and> row_state r = Reserved) (reservations db)))"
  using reachable_inv [OF assms(2,1)] assms(3)
  by (simp add: ledger_inv_def ledger_wf_def derived_def live_total_def)

lemma example_rows:
  "reservations example_db = [new_row (mint_public_id example_entropy) 0 ModerationClassification (u ''m'')
     4575000 example_now (swept_db 0 example_now empty_database)]"
  by (simp add: example_db_def reserved_db_def Let_def example_day) (simp add: empty_database_def)

lemma example_day_row:
  "daily_budget example_db 0 = Some \<lparr>reserved_usd = 4575, spent_usd = 0\<rparr>"
  by (simp add: example_db_def reserved_db_def Let_def example_day refreshed_def live_total_append)
    (simp add: swept_db_def retired_day_def charged_0 ensure_day_row_lookup
      empty_database_def live_total_def storage_scale_nano_def)

theorem reserved_usd_is_derived_witness:
  "(4575 :: int) = sum_list (map max_cost_usd
    (filter (\<lambda>r. row_budget_date r = 0 \<and> row_state r = Reserved) (reservations example_db)))"
  using reserved_usd_is_derived [OF example_sources example_run example_day_row] by simp

text \<open>
  C13. Reserving implements the pure policy: in every reachable state, for
  a usable model name and an unused public id, the transaction does not fail, its decision is the one
  the admission policy takes on the totals a snapshot reports at the same instant, and a handle for
  the rounded maximum is issued exactly when the decision is to admit.
\<close>

theorem reserve_decides_by_policy:
  assumes "sources_within k sources" "ledger_run sources ledger_start (db, hs)"
    and "(book, priority) \<in> sources" "model \<noteq> []" "length model \<le> model_name_limit"
    and "public_id_free (mint_public_id entropy) db"
  shows "\<exists>st d res db'. snapshot now db = Inr st \<and>
    admit (ceiling_nano book) st (stored_maximum mx) priority (reserve_ratio book) = Inr d \<and>
    reserve book kind model mx priority now entropy db = Inr ((d, res), db') \<and>
    (if d = Admitted
     then \<exists>n. stored_maximum mx = Some n \<and>
       res = Some \<lparr>reservation_id = next_reservation_id db, public_id = mint_public_id entropy,
         budget_date = utc_day now, max_cost_nano = n\<rparr>
     else res = None)"
proof -
  have inv: "ledger_inv k (db, hs)" by (rule reachable_inv [OF assms(2,1)])
  have k: "k \<le> max_storable_nano" "valid_book book" "lane_limit book priority \<le> k"
    using assms(1,3) by (auto simp: sources_within_def)
  let ?st = "seen_state (utc_day now) now db"
  obtain d where d: "admit (ceiling_nano book) ?st (stored_maximum mx) priority (reserve_ratio book)
      = Inr d" using admit_total k(2) unfolding valid_book_def by blast
  have "\<exists>n. stored_maximum mx = Some n" if "d = Admitted"
    using admitted_cost [OF k(2)] d that by metis
  with d show ?thesis
    using snapshot_eq [OF inv k(1), of now] inv assms(6)
      reserve_eq [OF k(2) _ _ k(3,1) assms(4,5), of db kind mx now entropy]
    by (fastforce simp: ledger_inv_def the_handle_def)
qed

theorem reserve_decides_by_policy_witness:
  "\<exists>st d res db'. snapshot example_now empty_database = Inr st \<and>
    admit 5000000000 st (stored_maximum (Some 4575000)) ImmediateHuman (Fdec 25 (- 2)) = Inr d \<and>
    reserve example_book ChatResponse (u ''m'') (Some 4575000) ImmediateHuman example_now
      example_entropy empty_database = Inr ((d, res), db')"
proof -
  have "ledger_run {(example_book, ImmediateHuman)} ledger_start (empty_database, [])"
    by (simp add: ledger_run_def ledger_start_def)
  from reserve_decides_by_policy [OF example_sources this, of example_book ImmediateHuman "u ''m''"
      example_entropy example_now "Some 4575000" ChatResponse]
  show ?thesis
    by (simp add: u_def model_name_limit_def public_id_free_def mint_public_id_def
        example_entropy_def empty_database_def example_book_def) blast
qed

section \<open>Settling and releasing\<close>

lemma handle_row:
  assumes "ledger_inv k (db, hs)" "h \<in> set hs"
  obtains r where "r \<in> set (reservations db)" "names_row h r"
  using assms by (auto simp: ledger_inv_def handles_ok_def)

lemma named_row_unique:
  assumes "ledger_inv k (db, hs)" "r \<in> set (reservations db)" "r' \<in> set (reservations db)"
    and "names_row h r" "names_row h r'"
  shows "r' = r"
  using assms by (auto simp: ledger_inv_def ledger_wf_def rows_ok_def names_row_def distinct_map
      inj_on_def)

text \<open>
  C17. An ordinary settlement: in a reachable state with a closed
  circuit, settling a reservation that is still reserved with a cost between zero and its maximum
  completes it, stores the cost rounded up to the microdollar, adds exactly that to the spent total of
  its day, gives the whole reserved maximum back, and leaves the circuit closed.
\<close>

theorem settlement_charges_actual_cost:
  assumes "sources_within k sources" "ledger_run sources ledger_start (db, hs)" "h \<in> set hs"
    and "r \<in> set (reservations db)" "names_row h r" "row_state r = Reserved"
    and "0 \<le> actual" "actual \<le> max_cost_nano h" "\<not> is_circuit_open db"
  shows "\<exists>db'. settle h actual now db = Inr (\<lparr>completed = True,
        stored_cost_nano = Some (quantize_storable_nano actual), breach = False,
        saturated = False\<rparr>, db') \<and>
      spent_of (budget_date h) db' * storage_scale_nano =
        spent_of (budget_date h) db * storage_scale_nano + quantize_storable_nano actual \<and>
      live_total (budget_date h) (reservations db') * storage_scale_nano =
        live_total (budget_date h) (reservations db) * storage_scale_nano - max_cost_nano h \<and>
      \<not> is_circuit_open db'"
proof -
  let ?day = "budget_date h" and ?s = "storable_actual_cost_nano actual"
  have inv: "ledger_inv k (db, hs)" by (rule reachable_inv [OF assms(2,1)])
  have wf: "ledger_wf db" "within_limit k db" "k \<le> max_storable_nano"
    using inv assms(1) by (auto simp: ledger_inv_def sources_within_def)
  have ok: "rows_ok db" using wf(1) by (simp add: ledger_wf_def)
  note spent = rows_ok_spent [OF ok, of ?day]
  have mx: "max_cost_nano h = max_cost_usd r * storage_scale_nano"
    using assms(5) by (simp add: names_row_def)
  have calm: "\<not> circuit_should_open (max_cost_nano h) actual"
    using assms(7,8) by (simp add: circuit_should_open_def)
  have s: "?s \<le> max_cost_usd r * storage_scale_nano"
    by (rule settlement_covered [OF calm assms(5) live_row_within(1) [OF wf(1,2) assms(4,6)] wf(3)])
  have max_r: "max_cost_usd r * storage_scale_nano \<le> max_storable_nano"
    using live_row_within(1) [OF wf(1,2) assms(4,6)] wf(3) by linarith
  then have "quantize_storable_nano actual \<le> max_storable_nano"
    using assms(7,8) mx by (subst quantize_le_iff) (simp_all add: max_storable_nano_def [symmetric])
  then have q: "?s = quantize_storable_nano actual"
    using assms(7) by (simp add: storable_actual_cost_nano_def)
  have "max_cost_usd r \<le> live_total ?day (reservations db)"
    using live_row_le [OF rows_ok_nonneg [OF ok] assms(4,6)] assms(5) by (simp add: names_row_def)
  then have "(spent_of ?day db + max_cost_usd r) * storage_scale_nano
      \<le> (spent_of ?day db + live_total ?day (reservations db)) * storage_scale_nano"
    by (intro mult_right_mono) (simp_all add: storage_scale_nano_def)
  also have "\<dots> \<le> k" using wf(2) assms(9) by (simp add: within_limit_def)
  finally have "spent_of ?day db * storage_scale_nano + ?s \<le> max_storable_nano"
    using s wf(3) by (simp add: algebra_simps)
  then have added: "added_nano ?s (spent_of ?day db * storage_scale_nano) = ?s"
    using storable_nonneg [of actual] by (simp add: added_nano_def)
  have div: "?s div storage_scale_nano * storage_scale_nano = ?s"
    using storable_dvd [of actual] by simp
  have "settle h actual now db = Inr (\<lparr>completed = True, stored_cost_nano = Some ?s,
      breach = False, saturated = False\<rparr>, settled_db h ?s ?s now db)"
    using settle_eq [OF wf assms(4,5), of actual now] assms(6) calm by (simp add: added)
  moreover have "spent_of ?day (settled_db h ?s ?s now db) * storage_scale_nano =
      spent_of ?day db * storage_scale_nano + ?s"
    using div by (simp add: settled_db_def retired_day_spent distrib_right)
  moreover have "live_total ?day (reservations (settled_db h ?s ?s now db)) * storage_scale_nano =
      live_total ?day (reservations db) * storage_scale_nano - max_cost_nano h"
    using live_total_settled(1) [OF wf(1) assms(4-6)]
    by (simp add: settled_db_def mx left_diff_distrib)
  moreover have "\<not> is_circuit_open (settled_db h ?s ?s now db)"
    using assms(9) by (simp add: settled_db_def)
  ultimately show ?thesis by (simp add: q)
qed

lemma example_row_facts:
  assumes "r = new_row (mint_public_id example_entropy) 0 ModerationClassification (u ''m'') 4575000
    example_now (swept_db 0 example_now empty_database)"
  shows "r \<in> set (reservations example_db)" "names_row example_handle r" "row_state r = Reserved"
    "budget_date example_handle = 0" "max_cost_nano example_handle = 4575000"
  using assms by (simp_all add: example_rows names_row_def example_handle_def the_handle_def
      storage_scale_nano_def)

lemma example_closed: "\<not> is_circuit_open example_db"
  by (simp add: example_db_def reserved_db_def Let_def)
    (simp add: is_circuit_open_def empty_database_def)

theorem settlement_charges_actual_cost_witness:
  "\<exists>db'. settle example_handle 2900001 example_now example_db = Inr (\<lparr>completed = True,
      stored_cost_nano = Some 2901000, breach = False, saturated = False\<rparr>, db') \<and>
    spent_of 0 db' * storage_scale_nano = 2901000"
proof -
  have "spent_of 0 example_db = 0" by (simp add: spent_of_def example_day_row)
  moreover have "quantize_storable_nano 2900001 = 2901000"
    by (simp add: quantize_storable_nano_def storage_scale_nano_def ceil_div_def)
  ultimately show ?thesis
    using settlement_charges_actual_cost [OF example_sources example_run _
        example_row_facts(1-3) [OF refl], of 2900001 example_now]
    by (auto simp: example_row_facts example_closed)
qed

lemma breach_reason_over:
  "\<exists>rest. breach_reason mx actual storable added True sat =
    ''cost '' @ nano_to_usd_string actual @ '' over reservation '' @ nano_to_usd_string mx @ rest"
  by (auto simp: breach_reason_def join_with_def)

text \<open>
  C18. An overrun: settling with a cost that is negative or above the reserved
  maximum completes the reservation at what the call really cost, rounded up to the microdollar and cut
  only at the column (zero for a negative figure), never at the maximum: that is what the reservation's
  row stores, what the receipt says and what the day's spent total grows by, up to the largest total the
  column can hold. The whole maximum is given back, and the circuit opens in the same transaction, with
  the cause and the time on record.
\<close>

theorem overrun_opens_breaker:
  assumes "sources_within k sources" "ledger_run sources ledger_start (db, hs)" "h \<in> set hs"
    and "r \<in> set (reservations db)" "names_row h r" "row_state r = Reserved"
    and "actual < 0 \<or> max_cost_nano h < actual"
    and "stored = (if actual < 0 then 0 else min (quantize_storable_nano actual) max_storable_nano)"
  shows "\<exists>receipt db' reason. settle h actual now db = Inr (receipt, db') \<and>
      completed receipt \<and> breach receipt \<and> stored_cost_nano receipt = Some stored \<and>
      r\<lparr>row_state := Completed, actual_cost_usd := Some (stored div storage_scale_nano),
        settled_at := Some (datetime_column now)\<rparr> \<in> set (reservations db') \<and>
      spent_of (budget_date h) db' * storage_scale_nano =
        min max_storable_nano (spent_of (budget_date h) db * storage_scale_nano + stored) \<and>
      live_total (budget_date h) (reservations db') * storage_scale_nano =
        live_total (budget_date h) (reservations db) * storage_scale_nano - max_cost_nano h \<and>
      is_circuit_open db' \<and>
      runtime_control db' = Some \<lparr>budget_circuit_open = True,
        budget_circuit_reason = Some (take 128 (''cost '' @ nano_to_usd_string actual @
          '' over reservation '' @ nano_to_usd_string (max_cost_nano h) @ reason)),
        budget_circuit_opened_at = Some (datetime_column now)\<rparr>"
proof -
  have inv: "ledger_inv k (db, hs)" by (rule reachable_inv [OF assms(2,1)])
  have wf: "ledger_wf db" "within_limit k db" "k \<le> max_storable_nano"
    using inv assms(1) by (auto simp: ledger_inv_def sources_within_def)
  have over: "circuit_should_open (max_cost_nano h) actual"
    using assms(7) by (auto simp: circuit_should_open_def)
  have s: "stored = storable_actual_cost_nano actual"
    using assms(8) by (simp add: storable_actual_cost_nano_def)
  let ?spent = "spent_of (budget_date h) db * storage_scale_nano"
  let ?a = "added_nano stored ?spent"
  let ?db = "settled_db h stored ?a now db"
  obtain reason where reason: "breach_reason (max_cost_nano h) actual stored ?a True (?a < stored) =
      ''cost '' @ nano_to_usd_string actual @ '' over reservation '' @
        nano_to_usd_string (max_cost_nano h) @ reason"
    using breach_reason_over by blast
  have "0 \<le> stored" "?spent \<le> max_storable_nano"
    using rows_ok_spent [of db "budget_date h"] wf(1)
    by (auto simp: s ledger_wf_def fits_money_def money_column_max_def money_constants)
  then have a: "?spent + ?a = min max_storable_nano (?spent + stored)" by (simp add: added_nano_def)
  have "storage_scale_nano dvd ?spent + ?a"
    using storable_dvd [of actual] unfolding a
    by (auto simp: s min_def max_storable_nano_def storage_scale_nano_def)
  then have "storage_scale_nano dvd ?a" by (simp add: dvd_add_right_iff)
  then have charged: "spent_of (budget_date h) ?db * storage_scale_nano =
      min max_storable_nano (?spent + stored)"
    by (simp add: settled_db_def retired_day_spent distrib_right a)
  have row: "r\<lparr>row_state := Completed, actual_cost_usd := Some (stored div storage_scale_nano),
      settled_at := Some (datetime_column now)\<rparr> \<in> set (reservations ?db)"
    using assms(4-6) by (auto simp: settled_db_def names_row_def complete_row_def is_live_def
        intro!: rev_image_eqI)
  have mx: "max_cost_nano h = max_cost_usd r * storage_scale_nano"
    using assms(5) by (simp add: names_row_def)
  have freed: "live_total (budget_date h) (reservations ?db) * storage_scale_nano =
      live_total (budget_date h) (reservations db) * storage_scale_nano - max_cost_nano h"
    using live_total_settled(1) [OF wf(1) assms(4-6)]
    by (simp add: settled_db_def mx left_diff_distrib)
  have same: "spent_of d (db\<lparr>runtime_control := c\<rparr>) = spent_of d db" for d c db
    by (simp add: spent_of_def)
  show ?thesis
    using settle_eq [OF wf assms(4,5), of actual now] assms(6) over row charged freed reason
    unfolding s [symmetric]
    by (auto simp: open_circuit_def circuit_reason_limit_def Let_def is_circuit_open_def same
        simp del: append.simps take_append take_Cons_numeral intro!: exI [of _ reason])
qed

theorem overrun_opens_breaker_witness:
  "\<exists>receipt db' row. settle example_handle 4575001 example_now example_db = Inr (receipt, db') \<and>
     breach receipt \<and> is_circuit_open db' \<and> spent_of 0 db' * storage_scale_nano = 4576000 \<and>
     row \<in> set (reservations db') \<and> row_state row = Completed \<and> max_cost_usd row = 4575 \<and>
     actual_cost_usd row = Some 4576"
proof -
  have q: "(4576000 :: int) = (if (4575001 :: int) < 0 then 0
      else min (quantize_storable_nano 4575001) max_storable_nano)"
    by (simp add: quantize_storable_nano_def storage_scale_nano_def ceil_div_def max_storable_nano_def)
  have mx: "max_cost_usd (new_row pid 0 kind m 4575000 t db) = 4575" for pid kind m t db
    by (simp add: new_row_def storage_scale_nano_def)
  have "spent_of 0 example_db = 0" by (simp add: spent_of_def example_day_row)
  with overrun_opens_breaker [OF example_sources example_run _ example_row_facts(1-3) [OF refl] _ q,
      of example_now] mx
  show ?thesis
    by (fastforce simp: example_row_facts max_storable_nano_def storage_scale_nano_def)
qed

text \<open>
  C21. Releasing a reservation that is still reserved takes exactly its
  maximum out of what its day has reserved, in the rows and in the stored total, charges nothing, and
  does not touch the circuit.
\<close>

theorem release_restores_headroom:
  assumes "sources_within k sources" "ledger_run sources ledger_start (db, hs)" "h \<in> set hs"
    and "r \<in> set (reservations db)" "names_row h r" "row_state r = Reserved"
  shows "\<exists>db'. release h db = Inr (True, db') \<and>
      live_total (budget_date h) (reservations db') * storage_scale_nano =
        live_total (budget_date h) (reservations db) * storage_scale_nano - max_cost_nano h \<and>
      (\<forall>row. daily_budget db' (budget_date h) = Some row \<longrightarrow>
        reserved_usd row = live_total (budget_date h) (reservations db')) \<and>
      (\<forall>d. spent_of d db' = spent_of d db) \<and> runtime_control db' = runtime_control db"
proof -
  have inv: "ledger_inv k (db, hs)" by (rule reachable_inv [OF assms(2,1)])
  have wf: "ledger_wf db" "within_limit k db" "k \<le> max_storable_nano"
    using inv assms(1) by (auto simp: ledger_inv_def sources_within_def)
  have rel: "release h db = Inr (True, released_db h db)"
    using release_eq [OF wf assms(4,5)] assms(6) by simp
  have hs: "handles_ok hs db" using inv by (simp add: ledger_inv_def)
  have "derived (budget_date h) (released_db h db)"
    using release_preserves(1) [OF wf hs assms(3) rel] by (simp add: ledger_wf_def)
  moreover have "live_total (budget_date h) (reservations (released_db h db)) * storage_scale_nano =
      live_total (budget_date h) (reservations db) * storage_scale_nano - max_cost_nano h"
    using live_total_settled(2) [OF wf(1) assms(4-6)] assms(5)
    by (simp add: released_db_def names_row_def left_diff_distrib)
  moreover have "spent_of d (released_db h db) = spent_of d db" for d
    by (simp add: released_db_def retired_day_spent)
  moreover have "runtime_control (released_db h db) = runtime_control db"
    by (simp add: released_db_def)
  ultimately show ?thesis using rel by (auto simp: derived_def)
qed

theorem release_restores_headroom_witness:
  "\<exists>db'. release example_handle example_db = Inr (True, db') \<and>
     live_total 0 (reservations db') * storage_scale_nano =
       live_total 0 (reservations example_db) * storage_scale_nano - 4575000"
  using release_restores_headroom [OF example_sources example_run _ example_row_facts(1-3) [OF refl]]
  by (auto simp: example_row_facts)

section \<open>What one step does to the rows and to the circuit\<close>

lemma reserve_rows:
  assumes "valid_book book" "ledger_wf db" "within_limit k db"
    and "lane_limit book priority \<le> k" "k \<le> max_storable_nano"
    and "reserve book kind model mx priority now entropy db = Inr ((d, res), db')"
  shows "\<exists>new. reservations db' =
      map (expire_row (utc_day now) now) (reservations db) @ new"
    and "runtime_control db' = runtime_control db"
    and "is_circuit_open db \<Longrightarrow> res = None"
proof -
  have model: "model \<noteq> []" "length model \<le> model_name_limit"
    using assms(6) by (auto simp: reserve_def split: if_splits)
  note eq = reserve_eq [OF assms(1-5) model, of kind mx now entropy]
  show "\<exists>new. reservations db' = map (expire_row (utc_day now) now) (reservations db) @ new"
    and "runtime_control db' = runtime_control db"
    using assms(6) unfolding eq
    by (auto simp: reserved_db_def Let_def swept_db_def split: sum.splits if_splits)
  show "res = None" if "is_circuit_open db"
    using assms(6) that unfolding eq by (simp add: admit_def)
qed

text \<open>Every step retires rows of one day, may append new ones, and never closes the circuit.\<close>

lemma ledger_step_effect:
  assumes "ledger_step sources s s'" "sources_within k sources" "ledger_inv k s"
  shows "(\<exists>day f new. retires day f (reservations (fst s)) \<and>
      reservations (fst s') = map f (reservations (fst s)) @ new) \<and>
    (is_circuit_open (fst s) \<longrightarrow> is_circuit_open (fst s') \<and> snd s' = snd s)"
  using assms(1)
proof cases
  case (reserves book priority kind model mx now entropy db d res db' hs)
  then have "valid_book book" "ledger_wf db" "within_limit k db" "lane_limit book priority \<le> k"
    "k \<le> max_storable_nano" using assms(2,3) by (auto simp: ledger_inv_def sources_within_def)
  from reserve_rows [OF this reserves(4)] reserves(1,2) show ?thesis
    using retires_sweep [of "utc_day now" now "reservations db"]
    by (auto simp: is_circuit_open_def)
next
  case (settles h hs actual now db receipt db')
  then have inv: "ledger_wf db" "within_limit k db" "k \<le> max_storable_nano" "handles_ok hs db"
    using assms(2,3) by (auto simp: ledger_inv_def sources_within_def)
  from named_row [OF inv(1,4) settles(3)] obtain r where r: "r \<in> set (reservations db)"
    "names_row h r" "distinct (map row_id (reservations db))" by blast
  let ?f = "complete_row (reservation_id h)
    (storable_actual_cost_nano actual div storage_scale_nano) now"
  have "reservations db' = map ?f (reservations db) \<or> reservations db' = map id (reservations db)"
    and "is_circuit_open db \<longrightarrow> is_circuit_open db'"
    using settle_eq [OF inv(1-3) r(1,2), of actual now] settles(4)
    by (auto simp: settled_db_def split: if_splits)
  moreover have "retires (budget_date h) id (reservations db)" by (simp add: retires_def)
  ultimately show ?thesis
    using settles(1,2) retires_row(2) [OF r(3,1,2)] by (metis append.right_neutral fst_conv snd_conv)
next
  case (releases h hs db b db')
  then have inv: "ledger_wf db" "within_limit k db" "k \<le> max_storable_nano" "handles_ok hs db"
    using assms(2,3) by (auto simp: ledger_inv_def sources_within_def)
  from named_row [OF inv(1,4) releases(3)] obtain r where r: "r \<in> set (reservations db)"
    "names_row h r" "distinct (map row_id (reservations db))" by blast
  have "reservations db' = map (release_row (reservation_id h)) (reservations db) \<or>
      reservations db' = map id (reservations db)"
    and "is_circuit_open db \<longrightarrow> is_circuit_open db'"
    using release_eq [OF inv(1-3) r(1,2)] releases(4)
    by (auto simp: released_db_def split: if_splits)
  moreover have "retires (budget_date h) id (reservations db)" by (simp add: retires_def)
  ultimately show ?thesis
    using releases(1,2) retires_row(1) [OF r(3,1,2)]
    by (metis append.right_neutral fst_conv snd_conv)
qed

lemma run_invariant:
  assumes "ledger_run sources s s'" "sources_within k sources" "ledger_inv k s" "P s"
    and step: "\<And>s s'. ledger_step sources s s' \<Longrightarrow> ledger_inv k s \<Longrightarrow> P s \<Longrightarrow> P s'"
  shows "P s'"
proof -
  have "P s' \<and> ledger_inv k s'"
    using assms(1) unfolding ledger_run_def
    by (induction rule: rtranclp_induct) (use assms(2-4) step ledger_inv_step in blast)+
  then show ?thesis ..
qed

text \<open>
  C16. The breaker latches: once the circuit is open it stays open through every
  further transaction of every sidecar, across days, and no new reservation is handed out.
\<close>

theorem breaker_latches:
  assumes "sources_within k sources" "ledger_run sources ledger_start s"
    and "is_circuit_open (fst s)" and "ledger_run sources s s'"
  shows "is_circuit_open (fst s') \<and> snd s' = snd s"
  using run_invariant [OF assms(4,1) reachable_inv [OF assms(2,1)],
      of "\<lambda>s'. is_circuit_open (fst s') \<and> snd s' = snd s"] assms(3)
    ledger_step_effect [OF _ assms(1)] by simp

lemma example_breach:
  obtains receipt db' where "settle example_handle 4575001 example_now example_db = Inr (receipt, db')"
    "is_circuit_open db'"
proof -
  let ?r = "new_row (mint_public_id example_entropy) 0 ModerationClassification (u ''m'') 4575000
    example_now (swept_db 0 example_now empty_database)"
  have inv: "ledger_wf example_db" "within_limit 5000000000 example_db"
    using example_inv by (auto simp: ledger_inv_def)
  have "(5000000000 :: int) \<le> max_storable_nano" by (simp add: max_storable_nano_def)
  from settle_eq [OF inv this example_row_facts(1,2) [OF refl], of 4575001 example_now]
  show ?thesis
    using that by (simp add: example_row_facts circuit_should_open_def)
qed

theorem breaker_latches_witness:
  "\<exists>db' reason. is_circuit_open db' \<and>
    ledger_run {(example_book, ImmediateHuman)} (example_db, [example_handle]) (db', [example_handle])
    \<and> (\<forall>s. ledger_run {(example_book, ImmediateHuman)} (db', [example_handle]) s \<longrightarrow>
        is_circuit_open (fst s) \<and> snd s = [example_handle])"
proof -
  let ?src = "{(example_book, ImmediateHuman)}"
  obtain receipt db' where s: "settle example_handle 4575001 example_now example_db =
    Inr (receipt, db')" "is_circuit_open db'" by (rule example_breach)
  have step: "ledger_run ?src (example_db, [example_handle]) (db', [example_handle])"
    unfolding ledger_run_def using settles [OF _ s(1), of "[example_handle]"] by auto
  then have "ledger_run ?src ledger_start (db', [example_handle])"
    using example_run unfolding ledger_run_def by (rule rtranclp_trans [rotated])
  with breaker_latches [OF example_sources this] s(2) step show ?thesis by auto
qed

text \<open>
  C15. A reservation is settled or released at most once: after a settlement or
  a release of it has returned, whatever transactions follow, another settlement is refused, charging
  nothing on any day, and another release reports that nothing was released.
\<close>

definition finished :: "reservation \<Rightarrow> database \<Rightarrow> bool" where
  "finished h db \<longleftrightarrow> (\<exists>r \<in> set (reservations db). names_row h r \<and> row_state r \<noteq> Reserved)"

lemma finished_step:
  assumes "ledger_step sources s s'" "sources_within k sources" "ledger_inv k s"
    and "finished h (fst s)"
  shows "finished h (fst s')"
proof -
  obtain day f new where f: "retires day f (reservations (fst s))"
    "reservations (fst s') = map f (reservations (fst s)) @ new"
    using ledger_step_effect [OF assms(1-3)] by blast
  obtain r where r: "r \<in> set (reservations (fst s))" "names_row h r" "row_state r \<noteq> Reserved"
    using assms(4) by (auto simp: finished_def)
  then have "f r = r" using f(1) by (auto simp: retires_def)
  with r f(2) show ?thesis unfolding finished_def by (metis UnCI image_eqI list.set_map set_append)
qed

lemma finishedI:
  "r \<in> set rows \<Longrightarrow> names_row h (f r) \<Longrightarrow> row_state (f r) \<noteq> Reserved \<Longrightarrow> reservations db = map f rows \<Longrightarrow>
     finished h db"
  by (auto simp: finished_def)

lemma finished_by:
  assumes "ledger_inv k (db, hs)" "k \<le> max_storable_nano" "h \<in> set hs"
    and "settle h actual now db = Inr (receipt, db') \<or> release h db = Inr (b, db')"
  shows "finished h db'"
proof -
  from assms(1) have inv: "ledger_wf db" "within_limit k db" by (auto simp: ledger_inv_def)
  from handle_row [OF assms(1,3)] obtain r where r: "r \<in> set (reservations db)" "names_row h r" .
  have id: "row_id r = reservation_id h" using r(2) by (simp add: names_row_def)
  have c: "names_row h (complete_row (reservation_id h) m now r)"
    "row_state (complete_row (reservation_id h) m now r) \<noteq> Reserved"
    "names_row h (release_row (reservation_id h) r)"
    "row_state (release_row (reservation_id h) r) \<noteq> Reserved" for m
    using r(2) by (auto simp: complete_row_def release_row_def is_live_def names_row_def)
  from assms(4) show ?thesis
  proof
    assume s: "settle h actual now db = Inr (receipt, db')"
    show ?thesis
    proof (cases "row_state r = Reserved")
      case True
      then have "reservations db' = map (complete_row (reservation_id h)
          (storable_actual_cost_nano actual div storage_scale_nano) now) (reservations db)"
        using settle_eq [OF inv assms(2) r, of actual now] s
        by (auto simp: settled_db_def split: if_splits)
      then show ?thesis by (rule finishedI [rotated 3]) (rule r(1) c(1,2))+
    next
      case False
      then have "reservations db' = reservations db"
        using settle_eq [OF inv assms(2) r, of actual now] s by auto
      then show ?thesis using False r by (auto simp: finished_def)
    qed
  next
    assume l: "release h db = Inr (b, db')"
    show ?thesis
    proof (cases "row_state r = Reserved")
      case True
      then have "reservations db' = map (release_row (reservation_id h)) (reservations db)"
        using release_eq [OF inv assms(2) r] l by (auto simp: released_db_def)
      then show ?thesis by (rule finishedI [rotated 3]) (rule r(1) c(3,4))+
    next
      case False
      then have "reservations db' = reservations db"
        using release_eq [OF inv assms(2) r] l by auto
      then show ?thesis using False r by (auto simp: finished_def)
    qed
  qed
qed

theorem no_second_settlement:
  assumes "sources_within k sources" "ledger_run sources ledger_start (db, hs)" "h \<in> set hs"
    and "settle h actual now db = Inr (receipt, db1) \<or> release h db = Inr (b, db1)"
    and "ledger_run sources (db1, hs) (db2, hs2)"
  shows "\<exists>db3 db4. settle h actual' now' db2 = Inr (\<lparr>completed = False, stored_cost_nano = None,
      breach = False, saturated = False\<rparr>, db3) \<and> (\<forall>d. spent_of d db3 = spent_of d db2) \<and>
      reservations db3 = reservations db2 \<and> release h db2 = Inr (False, db4)"
proof -
  have k: "k \<le> max_storable_nano" using assms(1) by (simp add: sources_within_def)
  have inv: "ledger_inv k (db, hs)" by (rule reachable_inv [OF assms(2,1)])
  have "ledger_step sources (db, hs) (db1, hs)"
    using assms(3,4) settles releases by metis
  then have inv1: "ledger_inv k (db1, hs)" by (rule ledger_inv_step [OF _ assms(1) inv])
  have "finished h (fst (db2, hs2))"
    using run_invariant [OF assms(5,1) inv1, of "\<lambda>s. finished h (fst s)"]
      finished_by [OF inv k assms(3,4)] finished_step [OF _ assms(1)] by simp
  then obtain r where r: "r \<in> set (reservations db2)" "names_row h r" "row_state r \<noteq> Reserved"
    by (auto simp: finished_def)
  have "ledger_wf db2" "within_limit k db2"
    using ledger_inv_run [OF assms(5,1) inv1] by (auto simp: ledger_inv_def)
  from settle_eq [OF this k r(1,2), of actual' now'] release_eq [OF this k r(1,2)] r(3)
  show ?thesis by simp
qed

theorem no_second_settlement_witness:
  "\<exists>receipt db1 db3. settle example_handle 4575001 example_now example_db = Inr (receipt, db1) \<and>
     settle example_handle 7 example_now db1 = Inr (\<lparr>completed = False, stored_cost_nano = None,
      breach = False, saturated = False\<rparr>, db3)"
proof -
  obtain receipt db1 where s: "settle example_handle 4575001 example_now example_db =
    Inr (receipt, db1)" by (rule example_breach)
  have "ledger_run {(example_book, ImmediateHuman)} (db1, [example_handle]) (db1, [example_handle])"
    by (simp add: ledger_run_def)
  from no_second_settlement [OF example_sources example_run _ disjI1 [OF s] this, of 7 example_now] s
  show ?thesis by auto
qed

section \<open>Crash recovery\<close>

text \<open>
  A row that a handle names and that is still reserved is the row it was when the handle was issued:
  every transaction that changes a row retires it.
\<close>

lemma reserved_row_before:
  assumes "ledger_step sources s s'" "sources_within k sources" "ledger_inv k s" "h \<in> set (snd s)"
    and "r \<in> set (reservations (fst s'))" "names_row h r" "row_state r = Reserved"
  shows "r \<in> set (reservations (fst s))" "h \<in> set (snd s')"
proof -
  obtain day f new where f: "retires day f (reservations (fst s))"
    "reservations (fst s') = map f (reservations (fst s)) @ new"
    using ledger_step_effect [OF assms(1-3)] by blast
  obtain q where q: "q \<in> set (reservations (fst s))" "names_row h q"
    using handle_row assms(3,4) by (metis prod.collapse)
  have "names_row h (f q)" "f q \<in> set (reservations (fst s'))"
    using q f by (auto simp: retires_def names_row_def)
  moreover have "ledger_inv k (fst s', snd s')" using ledger_inv_step [OF assms(1-3)] by simp
  ultimately have "f q = r" using named_row_unique assms(5,6) by blast
  with q f(1) assms(7) have "f q = q" by (auto simp: retires_def)
  with \<open>f q = r\<close> q(1) show "r \<in> set (reservations (fst s))" by simp
  show "h \<in> set (snd s')" using assms(1,4) by cases (auto split: option.split)
qed

lemma reserved_row_at_issue:
  assumes "ledger_run sources s s'" "sources_within k sources" "ledger_inv k s" "h \<in> set (snd s)"
    and "r \<in> set (reservations (fst s'))" "names_row h r" "row_state r = Reserved"
  shows "r \<in> set (reservations (fst s))"
proof -
  have "ledger_inv k s' \<and> h \<in> set (snd s') \<and>
      (r \<in> set (reservations (fst s')) \<longrightarrow> r \<in> set (reservations (fst s)))"
    using assms(1) unfolding ledger_run_def
  proof (induction rule: rtranclp_induct)
    case base
    then show ?case using assms(3,4) by simp
  next
    case (step y z)
    note inv = conjunct1 [OF step(3)]
    have "h \<in> set (snd z)"
      using step(2) conjunct1 [OF conjunct2 [OF step(3)]] by cases (auto split: option.split)
    with step(3) ledger_inv_step [OF step(2) assms(2) inv] reserved_row_before [OF step(2) assms(2) inv]
      assms(6,7)
    show ?case by blast
  qed
  with assms(5) show ?thesis by blast
qed

text \<open>The row a reservation is made with.\<close>

lemma issued_row:
  assumes "valid_book book" "ledger_wf db" "within_limit k db" "lane_limit book priority \<le> k"
    "k \<le> max_storable_nano"
    and "reserve book kind model mx priority now entropy db = Inr ((d, Some h), db')"
  shows "\<exists>r \<in> set (reservations db'). names_row h r \<and> budget_date h = utc_day now \<and>
    expires_at r = datetime_column (plus_us now reservation_expiry_us)"
proof -
  have model: "model \<noteq> []" "length model \<le> model_name_limit"
    using assms(6) by (auto simp: reserve_def split: if_splits)
  let ?n = "the (stored_maximum mx)" and ?pid = "mint_public_id entropy"
  let ?r = "new_row ?pid (utc_day now) kind model ?n now (swept_db (utc_day now) now db)"
  have adm: "admit (ceiling_nano book) (seen_state (utc_day now) now db) (stored_maximum mx) priority
      (reserve_ratio book) = Inr Admitted"
    and h: "h = the_handle ?pid (utc_day now) ?n db" and db': "db' = reserved_db ?pid kind model ?n now db"
    using assms(6) unfolding reserve_eq [OF assms(1-5) model, of kind mx now entropy]
    by (auto split: sum.splits if_splits)
  have "storage_scale_nano dvd ?n"
    using admitted_cost [OF assms(1) adm] stored_maximum_props(1) by fastforce
  moreover have "?r \<in> set (reservations db')"
    by (simp add: db' reserved_db_def Let_def inserted_def)
  ultimately show ?thesis
    by (intro bexI [of _ ?r]) (simp_all add: h names_row_def the_handle_def new_row_def swept_db_def)
qed


lemma example_later_reserve:
  assumes "utc_day now = 0"
  shows "\<exists>d res db'. reserve example_book ChatResponse (u ''m'') None ImmediateHuman now []
    example_db = Inr ((d, res), db')"
  using example_inv assms reserve_eq [OF example_valid, of example_db 5000000000 ImmediateHuman "u ''m''"
      ChatResponse None now "[]"] example_sources
  by (simp add: ledger_inv_def sources_within_def u_def model_name_limit_def admit_def
      stored_maximum_def example_closed)


section \<open>What the reserve buys\<close>

text \<open>
  C14. Background work cannot starve people: in any state reached by
  background requests alone, however many and from however many sidecars with the same configuration,
  a person's request whose rounded maximum fits in the reserve is admitted, unless the breaker has
  opened.
\<close>

theorem background_cannot_starve_humans:
  assumes "valid_book book" "reserve_floor_nano (ceiling_nano book) (reserve_ratio book) = Inr f"
    and "ledger_run {(book, Background)} ledger_start (db, hs)" "\<not> is_circuit_open db"
    and "stored_maximum (Some cost) = Some n" "0 \<le> n" "n \<le> f"
    and "model \<noteq> []" "length model \<le> model_name_limit" "public_id_free (mint_public_id entropy) db"
  shows "\<exists>h db'. reserve book kind model (Some cost) ImmediateHuman now entropy db =
    Inr ((Admitted, Some h), db') \<and> max_cost_nano h = n"
proof -
  let ?c = "ceiling_nano book" and ?st = "seen_state (utc_day now) now db"
  have v: "0 < ?c" "?c \<le> max_storable_nano" "valid_ratio (reserve_ratio book)"
    using assms(1) by (auto simp: valid_book_def)
  have f: "0 \<le> f" "f \<le> ?c" using reserve_floor_bounds [OF v] assms(2) by auto
  have "sources_within (?c - f) {(book, Background)}"
    using assms(1,2) f v by (simp add: sources_within_def lane_limit_def)
  then have inv: "ledger_inv (?c - f) (db, hs)" by (rule reachable_inv [OF assms(3)])
  have "committed_nano ?st + n \<le> ?c" using seen_within_limit [OF inv assms(4), of "utc_day now" now]
    assms(7) by linarith
  then have adm: "admit ?c ?st (stored_maximum (Some cost)) ImmediateHuman (reserve_ratio book) =
      Inr Admitted"
    using assms(4,6) v(1) unfolding assms(5) by (simp add: admit_def Let_def)
  have wf: "ledger_wf db" "within_limit ?c db"
    using inv f by (auto simp: ledger_inv_def within_limit_def) (meson le_diff_eq order_trans
        add_increasing2 le_add_same_cancel1 diff_le_eq)+
  from reserve_eq [OF assms(1) wf _ v(2) assms(8,9), of ImmediateHuman kind "Some cost" now entropy]
  show ?thesis using adm assms(5,10) by (simp add: lane_limit_def the_handle_def)
qed

theorem background_cannot_starve_humans_witness:
  "reserve_floor_nano 5000000000 (Fdec 25 (- 2)) = Inr 1250000000 \<and>
   (\<exists>h db'. reserve example_book ChatResponse (u ''m'') (Some 4575001) ImmediateHuman example_now
     example_entropy empty_database = Inr ((Admitted, Some h), db') \<and> max_cost_nano h = 4576000)"
proof -
  have f: "reserve_floor_nano 5000000000 (Fdec 25 (- 2)) = Inr 1250000000"
    using reserve_floor_exact [of 5000000000 "Fdec 25 (- 2)"]
    by (simp add: dec_context fval_neg_expo)
  have run: "ledger_run {(example_book, Background)} ledger_start (empty_database, [])"
    by (simp add: ledger_run_def ledger_start_def)
  have q: "stored_maximum (Some 4575001) = Some 4576000"
    by (simp add: stored_maximum_def quantize_storable_nano_def storage_scale_nano_def ceil_div_def)
  have c: "ceiling_nano example_book = 5000000000" "reserve_ratio example_book = Fdec 25 (- 2)"
    by (simp_all add: example_book_def)
  have free: "public_id_free (mint_public_id example_entropy) empty_database"
    by (simp add: public_id_free_def mint_public_id_def example_entropy_def empty_database_def)
  from background_cannot_starve_humans [OF example_valid _ run _ q _ _ _ _ free, of 1250000000
      "u ''m''" ChatResponse example_now] f c
  show ?thesis
    by (simp add: is_circuit_open_def empty_database_def u_def model_name_limit_def)
qed

end
