(* ===== verification/Schema.thy ===== *)
theory Schema
  imports Database "HOL-Library.List_Lexorder" "HOL-Library.Char_ord"
begin

text \<open>
  \<open>sidecar/src/playerbots_llm/schema.py\<close>: the startup guard. A catalog is what MySQL's
  \<open>information_schema\<close> reports of the database; \<open>ensure_schema\<close> either refuses it, or creates the
  sidecar's own tables in it and accepts it. Also the retirement of superseded lock rows.
\<close>

section \<open>Text helpers\<close>

text \<open>Python's \<open>s.replace(old, new)\<close> for a non-empty \<open>old\<close>, and substring search.\<close>

function replace_all :: "string \<Rightarrow> string \<Rightarrow> string \<Rightarrow> string" where
  "replace_all old new s =
     (if s = [] \<or> old = [] then s
      else if take (length old) s = old then new @ replace_all old new (drop (length old) s)
      else hd s # replace_all old new (tl s))"
  by pat_completeness auto

termination
  by (relation "measure (\<lambda>(_, _, s). length s)") (auto simp: length_greater_0_conv neq_Nil_conv)

fun occurs_in :: "string \<Rightarrow> string \<Rightarrow> bool" where
  "occurs_in p [] = (p = [])"
| "occurs_in p (c # cs) = (take (length p) (c # cs) = p \<or> occurs_in p cs)"

text \<open>SQL's LIKE: \<open>%\<close> stands for any text, \<open>_\<close> for any one character.\<close>

fun sql_like :: "string \<Rightarrow> string \<Rightarrow> bool" where
  "sql_like [] s = (s = [])"
| "sql_like (p # ps) [] = (p = CHR ''%'' \<and> sql_like ps [])"
| "sql_like (p # ps) (c # cs) =
     (if p = CHR ''%'' then sql_like ps (c # cs) \<or> sql_like (p # ps) cs
      else (p = CHR ''_'' \<or> p = c) \<and> sql_like ps cs)"

section \<open>Who owns which table\<close>

definition required_module_tables :: "string list" where
  "required_module_tables =
    [''playerbot_llm_daily_budget'',
     ''playerbot_llm_budget_reservation'',
     ''playerbot_social_runtime_control'',
     ''playerbot_llm_bot_purge'']"

definition sidecar_owned_tables :: "string list" where
  "sidecar_owned_tables =
    [''playerbot_llm_lock'',
     ''playerbot_llm_profile'',
     ''playerbot_llm_conversation_turn'',
     ''playerbot_llm_career_decision'',
     ''playerbot_llm_ambient_attempt'']"

definition legacy_provider_tables :: "string list" where
  "legacy_provider_tables =
    [''playerbot_claude_daily_budget'',
     ''playerbot_claude_budget_reservation'',
     ''playerbot_claude_lock'',
     ''playerbot_claude_profile'',
     ''playerbot_claude_conversation_turn'',
     ''playerbot_claude_career_decision'',
     ''playerbot_claude_ambient_attempt'']"

definition neutral_budget_identifiers :: "string list" where
  "neutral_budget_identifiers =
    [''ck_llm_daily_budget_reserved'',
     ''ck_llm_daily_budget_spent'',
     ''uk_llm_reservation_public_id'',
     ''ix_llm_reservation_day_state'',
     ''ix_llm_reservation_expiry'',
     ''ck_llm_reservation_max_cost'',
     ''ck_llm_reservation_actual_cost'']"

definition legacy_budget_identifiers :: "string list" where
  "legacy_budget_identifiers =
     map (replace_all ''_llm_'' ''_claude_'') neutral_budget_identifiers"

section \<open>The expected shapes\<close>

text \<open>
  A column: name, type, whether it may be null, normalized default, whether it is an
  AUTO_INCREMENT, whether it is set on update. An index: name, whether it allows duplicates, columns.
\<close>

type_synonym column_shape = "string \<times> string \<times> string \<times> string option \<times> bool \<times> bool"
type_synonym index_shape = "string \<times> bool \<times> string list"

definition provider_column_shapes :: "(string \<times> column_shape list) list" where
  "provider_column_shapes = [
    (''playerbot_llm_daily_budget'', [
       (''budget_date'', ''date'', ''NO'', None, False, False),
       (''reserved_usd'', ''decimal(12,6)'', ''NO'', Some ''0'', False, False),
       (''spent_usd'', ''decimal(12,6)'', ''NO'', Some ''0'', False, False),
       (''created_at'', ''timestamp'', ''NO'', Some ''current_timestamp'', False, False),
       (''updated_at'', ''timestamp'', ''NO'', Some ''current_timestamp'', False, True)]),
    (''playerbot_llm_budget_reservation'', [
       (''id'', ''bigint unsigned'', ''NO'', None, True, False),
       (''public_id'', ''char(36)'', ''NO'', None, False, False),
       (''budget_date'', ''date'', ''NO'', None, False, False),
       (''request_kind'', ''enum('chat_response','backstory_generation','memory_extraction','moderation_classification','career_generation')'', ''NO'', None, False, False),
       (''priority_lane'', ''enum('unspecified','direct_human','mixed_human_bot','career_generation','bot_only_continuation','new_starter','background_extraction')'', ''NO'', Some ''unspecified'', False, False),
       (''model'', ''varchar(64)'', ''NO'', None, False, False),
       (''max_cost_usd'', ''decimal(12,6)'', ''NO'', None, False, False),
       (''actual_cost_usd'', ''decimal(12,6)'', ''YES'', None, False, False),
       (''state'', ''enum('reserved','completed','released','expired')'', ''NO'', Some ''reserved'', False, False),
       (''created_at'', ''timestamp'', ''NO'', Some ''current_timestamp'', False, False),
       (''expires_at'', ''datetime'', ''NO'', None, False, False),
       (''settled_at'', ''datetime'', ''YES'', None, False, False)]),
    (''playerbot_llm_bot_purge'', [
       (''bot_guid'', ''bigint unsigned'', ''NO'', None, False, False),
       (''acknowledged_at'', ''timestamp'', ''YES'', None, False, False),
       (''created_at'', ''timestamp'', ''NO'', Some ''current_timestamp'', False, False),
       (''updated_at'', ''timestamp'', ''NO'', Some ''current_timestamp'', False, True)]),
    (''playerbot_llm_lock'', [
       (''lock_key'', ''varchar(64)'', ''NO'', None, False, False)]),
    (''playerbot_llm_profile'', [
       (''bot_guid'', ''bigint unsigned'', ''NO'', None, False, False),
       (''profile_version'', ''int unsigned'', ''NO'', None, False, False),
       (''crafting_affinity'', ''tinyint unsigned'', ''NO'', None, False, False),
       (''gathering_affinity'', ''tinyint unsigned'', ''NO'', None, False, False),
       (''exploration_affinity'', ''tinyint unsigned'', ''NO'', None, False, False),
       (''sociability'', ''tinyint unsigned'', ''NO'', None, False, False),
       (''voice'', ''varchar(32)'', ''NO'', None, False, False),
       (''bot_name'', ''varchar(48)'', ''NO'', None, False, False),
       (''updated_at'', ''datetime'', ''NO'', None, False, False)]),
    (''playerbot_llm_conversation_turn'', [
       (''id'', ''bigint unsigned'', ''NO'', None, True, False),
       (''bot_guid'', ''bigint unsigned'', ''NO'', None, False, False),
       (''role'', ''enum('user','assistant')'', ''NO'', None, False, False),
       (''content'', ''text'', ''NO'', None, False, False),
       (''created_at'', ''datetime'', ''NO'', None, False, False)]),
    (''playerbot_llm_career_decision'', [
       (''bot_guid'', ''bigint unsigned'', ''NO'', None, False, False),
       (''career_version'', ''int unsigned'', ''NO'', None, False, False),
       (''candidate_token'', ''varchar(64)'', ''NO'', None, False, False),
       (''spending_style'', ''varchar(32)'', ''NO'', None, False, False),
       (''updated_at'', ''datetime'', ''NO'', None, False, False)]),
    (''playerbot_llm_ambient_attempt'', [
       (''id'', ''bigint unsigned'', ''NO'', None, True, False),
       (''created_at'', ''datetime'', ''NO'', None, False, False)])]"

definition provider_index_shapes :: "(string \<times> index_shape list) list" where
  "provider_index_shapes = [
    (''playerbot_llm_daily_budget'', [(''PRIMARY'', False, [''budget_date''])]),
    (''playerbot_llm_budget_reservation'', [(''PRIMARY'', False, [''id'']),
       (''uk_llm_reservation_public_id'', False, [''public_id'']),
       (''ix_llm_reservation_day_state'', True, [''budget_date'', ''state'']),
       (''ix_llm_reservation_expiry'', True, [''state'', ''expires_at''])]),
    (''playerbot_llm_bot_purge'', [(''PRIMARY'', False, [''bot_guid'']),
       (''ix_llm_bot_purge_pending'', True, [''acknowledged_at'', ''bot_guid''])]),
    (''playerbot_llm_lock'', [(''PRIMARY'', False, [''lock_key''])]),
    (''playerbot_llm_profile'', [(''PRIMARY'', False, [''bot_guid''])]),
    (''playerbot_llm_conversation_turn'', [(''PRIMARY'', False, [''id'']),
       (''ix_bot'', True, [''bot_guid'', ''id''])]),
    (''playerbot_llm_career_decision'', [(''PRIMARY'', False, [''bot_guid''])]),
    (''playerbot_llm_ambient_attempt'', [(''PRIMARY'', False, [''id'']),
       (''ix_created'', True, [''created_at''])])]"

definition provider_check_shapes :: "(string \<times> (string \<times> string) list) list" where
  "provider_check_shapes = [
    (''playerbot_llm_daily_budget'', [(''ck_llm_daily_budget_reserved'', ''reserved_usd>=0''),
       (''ck_llm_daily_budget_spent'', ''spent_usd>=0'')]),
    (''playerbot_llm_budget_reservation'', [(''ck_llm_reservation_max_cost'', ''max_cost_usd>=0''),
       (''ck_llm_reservation_actual_cost'', ''actual_cost_usdisnulloractual_cost_usd>=0'')])]"

section \<open>The catalog\<close>

text \<open>
  The rows of \<open>information_schema\<close>, in the order the queries ask for: columns by position, index
  parts by sequence.
\<close>

record column_row =
  col_table :: string
  col_name :: string
  col_type :: string
  col_nullable :: string
  col_default :: "string option"
  col_extra :: string

record index_row =
  ix_table :: string
  ix_name :: string
  ix_non_unique :: bool
  ix_column :: string

record catalog =
  cat_tables :: "string list"
  cat_columns :: "column_row list"
  cat_indexes :: "index_row list"
  cat_checks :: "(string \<times> string \<times> string) list"
  cat_constraints :: "(string \<times> string) list"

text \<open>A CREATE TABLE IF NOT EXISTS statement, as the catalog rows it gives a new table.\<close>

record table_definition =
  tbl_name :: string
  tbl_columns :: "column_row list"
  tbl_indexes :: "index_row list"

definition schema_statements :: "table_definition list" where
  "schema_statements = [
    \<lparr>tbl_name = ''playerbot_llm_lock'', tbl_columns = [
       \<lparr>col_table = ''playerbot_llm_lock'', col_name = ''lock_key'', col_type = ''varchar(64)'', col_nullable = ''NO'',
         col_default = None, col_extra = []\<rparr>],
     tbl_indexes = [
       \<lparr>ix_table = ''playerbot_llm_lock'', ix_name = ''PRIMARY'', ix_non_unique = False, ix_column = ''lock_key''\<rparr>]\<rparr>,
    \<lparr>tbl_name = ''playerbot_llm_profile'', tbl_columns = [
       \<lparr>col_table = ''playerbot_llm_profile'', col_name = ''bot_guid'', col_type = ''bigint unsigned'', col_nullable = ''NO'',
         col_default = None, col_extra = []\<rparr>,
       \<lparr>col_table = ''playerbot_llm_profile'', col_name = ''profile_version'', col_type = ''int unsigned'', col_nullable = ''NO'',
         col_default = None, col_extra = []\<rparr>,
       \<lparr>col_table = ''playerbot_llm_profile'', col_name = ''crafting_affinity'', col_type = ''tinyint unsigned'', col_nullable = ''NO'',
         col_default = None, col_extra = []\<rparr>,
       \<lparr>col_table = ''playerbot_llm_profile'', col_name = ''gathering_affinity'', col_type = ''tinyint unsigned'', col_nullable = ''NO'',
         col_default = None, col_extra = []\<rparr>,
       \<lparr>col_table = ''playerbot_llm_profile'', col_name = ''exploration_affinity'', col_type = ''tinyint unsigned'', col_nullable = ''NO'',
         col_default = None, col_extra = []\<rparr>,
       \<lparr>col_table = ''playerbot_llm_profile'', col_name = ''sociability'', col_type = ''tinyint unsigned'', col_nullable = ''NO'',
         col_default = None, col_extra = []\<rparr>,
       \<lparr>col_table = ''playerbot_llm_profile'', col_name = ''voice'', col_type = ''varchar(32)'', col_nullable = ''NO'',
         col_default = None, col_extra = []\<rparr>,
       \<lparr>col_table = ''playerbot_llm_profile'', col_name = ''bot_name'', col_type = ''varchar(48)'', col_nullable = ''NO'',
         col_default = None, col_extra = []\<rparr>,
       \<lparr>col_table = ''playerbot_llm_profile'', col_name = ''updated_at'', col_type = ''datetime'', col_nullable = ''NO'',
         col_default = None, col_extra = []\<rparr>],
     tbl_indexes = [
       \<lparr>ix_table = ''playerbot_llm_profile'', ix_name = ''PRIMARY'', ix_non_unique = False, ix_column = ''bot_guid''\<rparr>]\<rparr>,
    \<lparr>tbl_name = ''playerbot_llm_conversation_turn'', tbl_columns = [
       \<lparr>col_table = ''playerbot_llm_conversation_turn'', col_name = ''id'', col_type = ''bigint unsigned'', col_nullable = ''NO'',
         col_default = None, col_extra = ''auto_increment''\<rparr>,
       \<lparr>col_table = ''playerbot_llm_conversation_turn'', col_name = ''bot_guid'', col_type = ''bigint unsigned'', col_nullable = ''NO'',
         col_default = None, col_extra = []\<rparr>,
       \<lparr>col_table = ''playerbot_llm_conversation_turn'', col_name = ''role'', col_type = ''enum('user','assistant')'', col_nullable = ''NO'',
         col_default = None, col_extra = []\<rparr>,
       \<lparr>col_table = ''playerbot_llm_conversation_turn'', col_name = ''content'', col_type = ''text'', col_nullable = ''NO'',
         col_default = None, col_extra = []\<rparr>,
       \<lparr>col_table = ''playerbot_llm_conversation_turn'', col_name = ''created_at'', col_type = ''datetime'', col_nullable = ''NO'',
         col_default = None, col_extra = []\<rparr>],
     tbl_indexes = [
       \<lparr>ix_table = ''playerbot_llm_conversation_turn'', ix_name = ''PRIMARY'', ix_non_unique = False, ix_column = ''id''\<rparr>,
       \<lparr>ix_table = ''playerbot_llm_conversation_turn'', ix_name = ''ix_bot'', ix_non_unique = True, ix_column = ''bot_guid''\<rparr>,
       \<lparr>ix_table = ''playerbot_llm_conversation_turn'', ix_name = ''ix_bot'', ix_non_unique = True, ix_column = ''id''\<rparr>]\<rparr>,
    \<lparr>tbl_name = ''playerbot_llm_career_decision'', tbl_columns = [
       \<lparr>col_table = ''playerbot_llm_career_decision'', col_name = ''bot_guid'', col_type = ''bigint unsigned'', col_nullable = ''NO'',
         col_default = None, col_extra = []\<rparr>,
       \<lparr>col_table = ''playerbot_llm_career_decision'', col_name = ''career_version'', col_type = ''int unsigned'', col_nullable = ''NO'',
         col_default = None, col_extra = []\<rparr>,
       \<lparr>col_table = ''playerbot_llm_career_decision'', col_name = ''candidate_token'', col_type = ''varchar(64)'', col_nullable = ''NO'',
         col_default = None, col_extra = []\<rparr>,
       \<lparr>col_table = ''playerbot_llm_career_decision'', col_name = ''spending_style'', col_type = ''varchar(32)'', col_nullable = ''NO'',
         col_default = None, col_extra = []\<rparr>,
       \<lparr>col_table = ''playerbot_llm_career_decision'', col_name = ''updated_at'', col_type = ''datetime'', col_nullable = ''NO'',
         col_default = None, col_extra = []\<rparr>],
     tbl_indexes = [
       \<lparr>ix_table = ''playerbot_llm_career_decision'', ix_name = ''PRIMARY'', ix_non_unique = False, ix_column = ''bot_guid''\<rparr>]\<rparr>,
    \<lparr>tbl_name = ''playerbot_llm_ambient_attempt'', tbl_columns = [
       \<lparr>col_table = ''playerbot_llm_ambient_attempt'', col_name = ''id'', col_type = ''bigint unsigned'', col_nullable = ''NO'',
         col_default = None, col_extra = ''auto_increment''\<rparr>,
       \<lparr>col_table = ''playerbot_llm_ambient_attempt'', col_name = ''created_at'', col_type = ''datetime'', col_nullable = ''NO'',
         col_default = None, col_extra = []\<rparr>],
     tbl_indexes = [
       \<lparr>ix_table = ''playerbot_llm_ambient_attempt'', ix_name = ''PRIMARY'', ix_non_unique = False, ix_column = ''id''\<rparr>,
       \<lparr>ix_table = ''playerbot_llm_ambient_attempt'', ix_name = ''ix_created'', ix_non_unique = True, ix_column = ''created_at''\<rparr>]\<rparr>]"

definition create_table_if_absent :: "catalog \<Rightarrow> table_definition \<Rightarrow> catalog" where
  "create_table_if_absent cat t =
     (if tbl_name t \<in> set (cat_tables cat) then cat
      else cat\<lparr>cat_tables := cat_tables cat @ [tbl_name t],
               cat_columns := cat_columns cat @ tbl_columns t,
               cat_indexes := cat_indexes cat @ tbl_indexes t\<rparr>)"

section \<open>Validating the shapes\<close>

definition normalized_default :: "string option \<Rightarrow> string option" where
  "normalized_default v = (case v of
     None \<Rightarrow> None
   | Some s \<Rightarrow>
       let text = replace_all ''()'' [] (map ascii_lower s)
       in Some (case dec_parse text of Some (Finite d) \<Rightarrow> if coef d = 0 then ''0'' else text
                                     | _ \<Rightarrow> text))"

definition normalized_check :: "string \<Rightarrow> string" where
  "normalized_check s = filter (\<lambda>c. c \<notin> set [CHR ''`'', CHR ''('', CHR '')'', CHR '' '', CHR 0x09,
     CHR 0x0D, CHR 0x0A]) (map ascii_lower s)"

definition column_shape_of :: "column_row \<Rightarrow> column_shape" where
  "column_shape_of r =
     (let extra = map ascii_lower (col_extra r)
      in (col_name r, map ascii_lower (col_type r), col_nullable r, normalized_default (col_default r),
          occurs_in ''auto_increment'' extra, occurs_in ''on update current_timestamp'' extra))"

definition actual_columns :: "catalog \<Rightarrow> string \<Rightarrow> column_shape list" where
  "actual_columns cat t = map column_shape_of (filter (\<lambda>r. col_table r = t) (cat_columns cat))"

definition index_shape_of :: "index_row list \<Rightarrow> string \<Rightarrow> index_shape" where
  "index_shape_of rows n =
     (let parts = filter (\<lambda>r. ix_name r = n) rows
      in (n, ix_non_unique (last parts), map ix_column parts))"

text \<open>The dictionary of a table's indexes and of its checks, as lists with one entry per name.\<close>

definition actual_indexes :: "catalog \<Rightarrow> string \<Rightarrow> index_shape list" where
  "actual_indexes cat t =
     (let rows = filter (\<lambda>r. ix_table r = t) (cat_indexes cat)
      in map (index_shape_of rows) (remdups (map ix_name rows)))"

definition actual_checks :: "catalog \<Rightarrow> string \<Rightarrow> (string \<times> string) list" where
  "actual_checks cat t =
     (let rows = filter (\<lambda>(table, _, _). table = t) (cat_checks cat)
      in map (\<lambda>n. (n, normalized_check (snd (snd (last (filter (\<lambda>(_, name, _). name = n) rows))))))
           (remdups (map (\<lambda>(_, name, _). name) rows)))"

definition shape_matches :: "catalog \<Rightarrow> string \<Rightarrow> bool" where
  "shape_matches cat t \<longleftrightarrow>
     map_of provider_column_shapes t = Some (actual_columns cat t) \<and>
     set (actual_indexes cat t) = set (the (map_of provider_index_shapes t)) \<and>
     set (actual_checks cat t) =
       set (case map_of provider_check_shapes t of None \<Rightarrow> [] | Some cs \<Rightarrow> cs)"

section \<open>The guard\<close>

text \<open>
  Why a start is refused: tables that are missing, a legacy or mixed layout, legacy or incomplete
  identifiers, or a table of another shape.
\<close>

datatype schema_refusal =
    SchemaMissing "string list"
  | MixedLayout
  | MixedIdentifiers
  | UnexpectedShape string

definition budget_identifiers :: "string list" where
  "budget_identifiers = legacy_budget_identifiers @ neutral_budget_identifiers"

definition present_identifiers :: "catalog \<Rightarrow> string list" where
  "present_identifiers cat =
     filter (\<lambda>i. i \<in> set budget_identifiers)
       (map snd (filter (\<lambda>(t, _). t \<in> {''playerbot_llm_daily_budget'',
          ''playerbot_llm_budget_reservation''}) (cat_constraints cat)) @
        map ix_name (filter (\<lambda>r. ix_table r = ''playerbot_llm_budget_reservation'')
          (cat_indexes cat)))"

definition validate_shapes :: "catalog \<Rightarrow> string list \<Rightarrow> schema_refusal option" where
  "validate_shapes cat tables =
     map_option UnexpectedShape (find (\<lambda>t. \<not> shape_matches cat t) (sort (remdups tables)))"

definition budget_tables :: "string list" where
  "budget_tables = take 2 required_module_tables"

definition guard :: "catalog \<Rightarrow> schema_refusal option" where
  "guard cat =
     (let provider_tables = legacy_provider_tables @ required_module_tables @ sidecar_owned_tables;
          present = filter (\<lambda>t. t \<in> set provider_tables) (cat_tables cat);
          identifiers = present_identifiers cat;
          legacy_present = filter (\<lambda>t. t \<in> set legacy_provider_tables) present;
          neutral_present = filter (\<lambda>t. t \<in> set (budget_tables @ sidecar_owned_tables)) present;
          fresh_neutral = (set neutral_present = set budget_tables);
          complete_neutral = (set neutral_present = set (budget_tables @ sidecar_owned_tables));
          missing = filter (\<lambda>t. t \<notin> set present) required_module_tables
      in if legacy_present = [] \<and> neutral_present = [] \<and> missing \<noteq> [] then Some (SchemaMissing missing)
         else if legacy_present \<noteq> [] \<or> \<not> (fresh_neutral \<or> complete_neutral) then Some MixedLayout
         else if filter (\<lambda>i. i \<notin> set identifiers) neutral_budget_identifiers \<noteq> [] \<or>
                 filter (\<lambda>i. i \<in> set identifiers) legacy_budget_identifiers \<noteq> []
              then Some MixedIdentifiers
         else if missing \<noteq> [] then Some (SchemaMissing missing)
         else validate_shapes cat (neutral_present @
           (if ''playerbot_llm_bot_purge'' \<in> set present then [''playerbot_llm_bot_purge''] else [])))"

text \<open>
  The start: the guard first, then the statements, then the validation of everything. DDL commits
  itself, so the catalog after a refusal is part of the outcome.
\<close>

definition managed_tables :: "string list" where
  "managed_tables = budget_tables @ [''playerbot_llm_bot_purge''] @ sidecar_owned_tables"

definition ensure_schema :: "catalog \<Rightarrow> schema_refusal option \<times> catalog" where
  "ensure_schema cat = (case guard cat of
     Some refusal \<Rightarrow> (Some refusal, cat)
   | None \<Rightarrow>
       let cat' = foldl create_table_if_absent cat schema_statements
       in (validate_shapes cat' managed_tables, cat'))"

section \<open>Retiring superseded locks\<close>

text \<open>\<open>CAST(... AS UNSIGNED)\<close> of a text: its leading digits.\<close>

definition cast_unsigned :: "string \<Rightarrow> nat" where
  "cast_unsigned s = nat_of_digits (takeWhile is_digit s)"

definition superseded_lock :: "string \<Rightarrow> bool" where
  "superseded_lock key \<longleftrightarrow> sql_like ''budget_day:%'' key \<or>
     sql_like ''conversation:%'' key \<and>
       conversation_lock_buckets \<le> int (cast_unsigned (drop 13 key))"

definition retire_superseded_locks :: "database \<Rightarrow> nat \<times> database" where
  "retire_superseded_locks db =
     (length (filter superseded_lock (lock_keys db)),
      db\<lparr>lock_keys := filter (\<lambda>k. \<not> superseded_lock k) (lock_keys db)\<rparr>)"

section \<open>Facts about creating tables\<close>

text \<open>The rows of a catalog belong to its tables, and those of a definition to its table.\<close>

definition catalog_ok :: "catalog \<Rightarrow> bool" where
  "catalog_ok cat \<longleftrightarrow> (\<forall>r \<in> set (cat_columns cat). col_table r \<in> set (cat_tables cat)) \<and>
     (\<forall>r \<in> set (cat_indexes cat). ix_table r \<in> set (cat_tables cat)) \<and>
     (\<forall>(t, _, _) \<in> set (cat_checks cat). t \<in> set (cat_tables cat))"

definition definition_ok :: "table_definition \<Rightarrow> bool" where
  "definition_ok t \<longleftrightarrow> (\<forall>r \<in> set (tbl_columns t). col_table r = tbl_name t) \<and>
     (\<forall>r \<in> set (tbl_indexes t). ix_table r = tbl_name t)"

text \<open>A definition creates the shape that is expected of its table.\<close>

definition creates_expected :: "table_definition \<Rightarrow> bool" where
  "creates_expected t \<longleftrightarrow> shape_matches \<lparr>cat_tables = [], cat_columns = tbl_columns t,
     cat_indexes = tbl_indexes t, cat_checks = [], cat_constraints = []\<rparr> (tbl_name t)"

lemma create_preserves_ok:
  "catalog_ok cat \<Longrightarrow> definition_ok t \<Longrightarrow> catalog_ok (create_table_if_absent cat t)"
  by (auto simp: catalog_ok_def definition_ok_def create_table_if_absent_def)

lemma create_tables [simp]:
  "set (cat_tables (create_table_if_absent cat t)) = insert (tbl_name t) (set (cat_tables cat))"
  by (auto simp: create_table_if_absent_def)

lemma create_other:
  assumes "definition_ok t" "x \<noteq> tbl_name t"
  shows "shape_matches (create_table_if_absent cat t) x = shape_matches cat x"
proof -
  have "filter (\<lambda>r. col_table r = x) (tbl_columns t) = []"
    "filter (\<lambda>r. ix_table r = x) (tbl_indexes t) = []"
    using assms by (auto simp: definition_ok_def filter_empty_conv)
  then have "actual_columns (create_table_if_absent cat t) x = actual_columns cat x"
    "actual_indexes (create_table_if_absent cat t) x = actual_indexes cat x"
    "actual_checks (create_table_if_absent cat t) x = actual_checks cat x"
    by (auto simp: actual_columns_def actual_indexes_def actual_checks_def Let_def
        create_table_if_absent_def)
  then show ?thesis by (simp add: shape_matches_def)
qed

lemma create_new:
  assumes "definition_ok t" "catalog_ok cat" "tbl_name t \<notin> set (cat_tables cat)"
  shows "shape_matches (create_table_if_absent cat t) (tbl_name t) = creates_expected t"
proof -
  let ?x = "tbl_name t"
  have old: "filter (\<lambda>r. col_table r = ?x) (cat_columns cat) = []"
    "filter (\<lambda>r. ix_table r = ?x) (cat_indexes cat) = []"
    "filter (\<lambda>(table, _, _). table = ?x) (cat_checks cat) = []"
    using assms by (auto simp: catalog_ok_def filter_empty_conv)
  have new: "filter (\<lambda>r. col_table r = ?x) (tbl_columns t) = tbl_columns t"
    "filter (\<lambda>r. ix_table r = ?x) (tbl_indexes t) = tbl_indexes t"
    using assms(1) by (auto simp: definition_ok_def)
  show ?thesis
    using assms(3) old new
    by (simp add: shape_matches_def creates_expected_def actual_columns_def actual_indexes_def
        actual_checks_def Let_def create_table_if_absent_def)
qed

lemma create_present:
  "tbl_name t \<in> set (cat_tables cat) \<Longrightarrow> create_table_if_absent cat t = cat"
  by (simp add: create_table_if_absent_def)

lemma create_all_ok:
  "\<forall>t \<in> set ts. definition_ok t \<Longrightarrow> catalog_ok cat \<Longrightarrow> catalog_ok (foldl create_table_if_absent cat ts)"
  by (induction ts arbitrary: cat) (simp_all add: create_preserves_ok)

lemma create_all_tables:
  "set (cat_tables (foldl create_table_if_absent cat ts)) =
     set (cat_tables cat) \<union> tbl_name ` set ts"
  by (induction ts arbitrary: cat) auto

lemma create_all_matches:
  assumes "\<forall>t \<in> set ts. definition_ok t" "distinct (map tbl_name ts)" "catalog_ok cat"
  shows "shape_matches (foldl create_table_if_absent cat ts) x =
    (case find (\<lambda>t. tbl_name t = x \<and> x \<notin> set (cat_tables cat)) ts of
       None \<Rightarrow> shape_matches cat x | Some t \<Rightarrow> creates_expected t)"
  using assms
proof (induction ts arbitrary: cat)
  case (Cons t ts)
  let ?cat = "create_table_if_absent cat t"
  have ok: "catalog_ok ?cat" using Cons.prems by (simp add: create_preserves_ok)
  then have IH: "shape_matches (foldl create_table_if_absent ?cat ts) x =
    (case find (\<lambda>t'. tbl_name t' = x \<and> x \<notin> set (cat_tables ?cat)) ts of
       None \<Rightarrow> shape_matches ?cat x | Some t' \<Rightarrow> creates_expected t')"
    using Cons by simp
  show ?case
  proof (cases "x = tbl_name t")
    case True
    have "find (\<lambda>t'. tbl_name t' = x \<and> x \<notin> set (cat_tables ?cat)) ts = None"
      using True by (simp add: find_None_iff)
    moreover have "shape_matches ?cat x =
        (if x \<in> set (cat_tables cat) then shape_matches cat x else creates_expected t)"
      using True Cons.prems by (auto simp: create_new create_present)
    moreover have "find (\<lambda>t'. tbl_name t' = x \<and> x \<notin> set (cat_tables cat)) ts = None"
      using True Cons.prems by (auto simp: find_None_iff) (metis imageI)
    ultimately show ?thesis using IH True by simp
  next
    case False
    then show ?thesis using IH Cons.prems by (auto simp: create_other split: option.split)
  qed
qed simp

text \<open>The five statements create exactly the shapes the validation demands.\<close>

lemma statements_ok: "\<forall>t \<in> set schema_statements. definition_ok t"
  by (simp add: schema_statements_def definition_ok_def)

lemma statements_names: "map tbl_name schema_statements = sidecar_owned_tables"
  by (simp add: schema_statements_def sidecar_owned_tables_def)

lemma owned_distinct: "distinct sidecar_owned_tables"
  by (simp add: sidecar_owned_tables_def)

lemma statements_expected: "\<forall>t \<in> set schema_statements. creates_expected t"
  by code_simp

lemma create_all_statements:
  assumes "catalog_ok cat" and "x \<notin> set sidecar_owned_tables \<or> x \<in> set (cat_tables cat)"
  shows "shape_matches (foldl create_table_if_absent cat schema_statements) x = shape_matches cat x"
proof -
  have "tbl_name t \<in> set sidecar_owned_tables" if "t \<in> set schema_statements" for t
    using that statements_names by (metis image_eqI list.set_map)
  then have "find (\<lambda>t. tbl_name t = x \<and> x \<notin> set (cat_tables cat)) schema_statements = None"
    using assms(2) by (auto simp: find_None_iff)
  then show ?thesis
    using create_all_matches [OF statements_ok _ assms(1), of x] statements_names owned_distinct
    by simp
qed

lemma create_all_owned:
  assumes "catalog_ok cat" "x \<in> set sidecar_owned_tables" "x \<notin> set (cat_tables cat)"
  shows "shape_matches (foldl create_table_if_absent cat schema_statements) x"
proof -
  let ?P = "\<lambda>t. tbl_name t = x \<and> x \<notin> set (cat_tables cat)"
  obtain t where "t \<in> set schema_statements" "tbl_name t = x"
    using assms(2) statements_names by (metis imageE list.set_map)
  then have "find ?P schema_statements \<noteq> None" using assms(3) by (auto simp: find_None_iff)
  then obtain t' where "find ?P schema_statements = Some t'" by blast
  moreover from this have "t' \<in> set schema_statements" by (auto simp: find_Some_iff)
  ultimately show ?thesis
    using create_all_matches [OF statements_ok _ assms(1), of x] statements_names owned_distinct
      statements_expected by simp
qed

lemma validate_shapes_None:
  "validate_shapes cat ts = None \<longleftrightarrow> (\<forall>t \<in> set ts. shape_matches cat t)"
  by (auto simp: validate_shapes_def find_None_iff)

section \<open>Facts about the guard\<close>

lemma table_lists_disjoint:
  "set budget_tables \<inter> set sidecar_owned_tables = {}"
  "set budget_tables \<subseteq> set required_module_tables"
  "''playerbot_llm_bot_purge'' \<in> set required_module_tables"
  "''playerbot_llm_bot_purge'' \<notin> set sidecar_owned_tables"
  by (simp_all add: budget_tables_def sidecar_owned_tables_def required_module_tables_def)

text \<open>What an accepted catalog looks like.\<close>

lemma guard_None:
  assumes "guard cat = None"
  shows "set required_module_tables \<subseteq> set (cat_tables cat)"
    and "set legacy_provider_tables \<inter> set (cat_tables cat) = {}"
    and "set sidecar_owned_tables \<inter> set (cat_tables cat) = {} \<or>
      set sidecar_owned_tables \<subseteq> set (cat_tables cat)"
    and "\<forall>t \<in> set managed_tables \<inter> set (cat_tables cat). shape_matches cat t"
    and "set neutral_budget_identifiers \<subseteq> set (present_identifiers cat)"
    and "set legacy_budget_identifiers \<inter> set (present_identifiers cat) = {}"
proof -
  define present where "present =
    filter (\<lambda>t. t \<in> set (legacy_provider_tables @ required_module_tables @ sidecar_owned_tables))
      (cat_tables cat)"
  define neutral where "neutral =
    filter (\<lambda>t. t \<in> set (budget_tables @ sidecar_owned_tables)) present"
  have legacy: "filter (\<lambda>t. t \<in> set legacy_provider_tables) present = []"
    and layout: "set neutral = set budget_tables \<or>
      set neutral = set (budget_tables @ sidecar_owned_tables)"
    and missing: "filter (\<lambda>t. t \<notin> set present) required_module_tables = []"
    and ids: "filter (\<lambda>i. i \<notin> set (present_identifiers cat)) neutral_budget_identifiers = []"
      "filter (\<lambda>i. i \<in> set (present_identifiers cat)) legacy_budget_identifiers = []"
    and shapes: "validate_shapes cat (neutral @ (if ''playerbot_llm_bot_purge'' \<in> set present
      then [''playerbot_llm_bot_purge''] else [])) = None"
    using assms unfolding guard_def Let_def present_def [symmetric] neutral_def [symmetric]
    by (metis option.distinct(1))+
  have neutral_set: "set neutral = set (cat_tables cat) \<inter> (set budget_tables \<union> set sidecar_owned_tables)"
    using table_lists_disjoint(2) by (auto simp: neutral_def present_def)
  show "set required_module_tables \<subseteq> set (cat_tables cat)"
    using missing by (auto simp: filter_empty_conv present_def)
  then have purge: "''playerbot_llm_bot_purge'' \<in> set present"
    using table_lists_disjoint(3) by (auto simp: present_def)
  show "set legacy_provider_tables \<inter> set (cat_tables cat) = {}"
    using legacy by (auto simp: filter_empty_conv present_def)
  show "set sidecar_owned_tables \<inter> set (cat_tables cat) = {} \<or>
      set sidecar_owned_tables \<subseteq> set (cat_tables cat)"
    using layout neutral_set table_lists_disjoint(1) by auto
  show "\<forall>t \<in> set managed_tables \<inter> set (cat_tables cat). shape_matches cat t"
    using shapes purge neutral_set by (auto simp: validate_shapes_None managed_tables_def)
  show "set neutral_budget_identifiers \<subseteq> set (present_identifiers cat)"
    "set legacy_budget_identifiers \<inter> set (present_identifiers cat) = {}"
    using ids by (auto simp: filter_empty_conv)
qed

text \<open>The guard accepts a catalog with every table.\<close>

lemma guard_accepts:
  assumes "set required_module_tables \<subseteq> set (cat_tables cat)"
    and "set legacy_provider_tables \<inter> set (cat_tables cat) = {}"
    and "set sidecar_owned_tables \<subseteq> set (cat_tables cat)"
    and "\<forall>t \<in> set managed_tables. shape_matches cat t"
    and "set neutral_budget_identifiers \<subseteq> set (present_identifiers cat)"
    and "set legacy_budget_identifiers \<inter> set (present_identifiers cat) = {}"
  shows "guard cat = None"
proof -
  define present where "present =
    filter (\<lambda>t. t \<in> set (legacy_provider_tables @ required_module_tables @ sidecar_owned_tables))
      (cat_tables cat)"
  define neutral where "neutral =
    filter (\<lambda>t. t \<in> set (budget_tables @ sidecar_owned_tables)) present"
  have "filter (\<lambda>t. t \<in> set legacy_provider_tables) present = []"
    using assms(2) by (auto simp: filter_empty_conv present_def)
  moreover have neutral_set: "set neutral = set (budget_tables @ sidecar_owned_tables)"
    using assms(1,3) table_lists_disjoint(2) by (auto simp: neutral_def present_def)
  moreover have "filter (\<lambda>t. t \<notin> set present) required_module_tables = []"
    using assms(1) by (auto simp: filter_empty_conv present_def)
  moreover have "filter (\<lambda>i. i \<notin> set (present_identifiers cat)) neutral_budget_identifiers = []"
    "filter (\<lambda>i. i \<in> set (present_identifiers cat)) legacy_budget_identifiers = []"
    using assms(5,6) by (auto simp: filter_empty_conv)
  moreover have "validate_shapes cat (neutral @ (if ''playerbot_llm_bot_purge'' \<in> set present
      then [''playerbot_llm_bot_purge''] else [])) = None"
    using assms(4) neutral_set by (auto simp: validate_shapes_None managed_tables_def)
  ultimately show ?thesis
    unfolding guard_def Let_def present_def [symmetric] neutral_def [symmetric] by simp
qed

text \<open>The statements add no identifier of the budget tables.\<close>

lemma create_identifiers:
  assumes "definition_ok t" "tbl_name t \<noteq> ''playerbot_llm_budget_reservation''"
  shows "present_identifiers (create_table_if_absent cat t) = present_identifiers cat"
proof -
  have "filter (\<lambda>r. ix_table r = ''playerbot_llm_budget_reservation'') (tbl_indexes t) = []"
    using assms by (auto simp: definition_ok_def filter_empty_conv)
  then show ?thesis by (simp add: present_identifiers_def create_table_if_absent_def)
qed

lemma create_all_identifiers:
  assumes "\<forall>t \<in> set ts. definition_ok t \<and> tbl_name t \<noteq> ''playerbot_llm_budget_reservation''"
  shows "present_identifiers (foldl create_table_if_absent cat ts) = present_identifiers cat"
  using assms by (induction ts arbitrary: cat) (simp_all add: create_identifiers)

lemma guarded_start:
  assumes "catalog_ok cat" "guard cat = None"
  shows "\<forall>t \<in> set managed_tables.
    shape_matches (foldl create_table_if_absent cat schema_statements) t"
proof
  fix t assume t: "t \<in> set managed_tables"
  show "shape_matches (foldl create_table_if_absent cat schema_statements) t"
  proof (cases "t \<in> set (cat_tables cat)")
    case True
    then show ?thesis
      using create_all_statements [OF assms(1), of t] guard_None(4) [OF assms(2)] t by auto
  next
    case False
    then have "t \<in> set sidecar_owned_tables"
      using t guard_None(1) [OF assms(2)] table_lists_disjoint(2,3)
      by (auto simp: managed_tables_def)
    then show ?thesis using create_all_owned [OF assms(1) _ False] by simp
  qed
qed

text \<open>
  C33. The startup guard decides before anything is written: a start is
  refused exactly when the guard refuses the catalog, and a refused start leaves every table of the
  database as it was. In particular the validation after the CREATE statements, which could not be
  undone, never fails.
\<close>

theorem refused_start_touches_nothing:
  assumes "catalog_ok cat"
  shows "fst (ensure_schema cat) = guard cat \<and>
    (fst (ensure_schema cat) \<noteq> None \<longrightarrow> snd (ensure_schema cat) = cat)"
proof (cases "guard cat")
  case None
  then have "validate_shapes (foldl create_table_if_absent cat schema_statements) managed_tables = None"
    using guarded_start [OF assms] by (simp add: validate_shapes_None)
  with None show ?thesis by (simp add: ensure_schema_def Let_def)
qed (simp add: ensure_schema_def)

text \<open>A database to which the SQL revisions of the two modules have been applied, and nothing else.\<close>

definition column_of :: "string \<Rightarrow> string \<Rightarrow> string \<Rightarrow> string \<Rightarrow> string option \<Rightarrow> string \<Rightarrow> column_row" where
  "column_of t n ty nullable dflt extra = \<lparr>col_table = t, col_name = n, col_type = ty,
     col_nullable = nullable, col_default = dflt, col_extra = extra\<rparr>"

definition raw_column :: "string \<Rightarrow> column_shape \<Rightarrow> column_row" where
  "raw_column t = (\<lambda>(n, ty, nullable, dflt, auto_inc, on_update).
     column_of t n ty nullable dflt ((if auto_inc then ''auto_increment'' else []) @
       (if on_update then ''DEFAULT_GENERATED on update CURRENT_TIMESTAMP'' else [])))"

definition raw_index :: "string \<Rightarrow> index_shape \<Rightarrow> index_row list" where
  "raw_index t = (\<lambda>(n, non_unique, cols). map (\<lambda>c. \<lparr>ix_table = t, ix_name = n,
     ix_non_unique = non_unique, ix_column = c\<rparr>) cols)"

definition fresh_catalog :: catalog where
  "fresh_catalog =
     (let ts = budget_tables @ [''playerbot_llm_bot_purge''] in
      \<lparr>cat_tables = required_module_tables @ [''playerbots_rnditem_cache''],
       cat_columns = concat (map (\<lambda>t. map (raw_column t) (the (map_of provider_column_shapes t))) ts),
       cat_indexes = concat (map (\<lambda>t. concat (map (raw_index t) (the (map_of provider_index_shapes t)))) ts),
       cat_checks = [
         (''playerbot_llm_daily_budget'', ''ck_llm_daily_budget_reserved'', ''(`reserved_usd` >= 0)''),
         (''playerbot_llm_daily_budget'', ''ck_llm_daily_budget_spent'', ''(`spent_usd` >= 0)''),
         (''playerbot_llm_budget_reservation'', ''ck_llm_reservation_max_cost'',
            ''(`max_cost_usd` >= 0)''),
         (''playerbot_llm_budget_reservation'', ''ck_llm_reservation_actual_cost'',
            ''((`actual_cost_usd` is null) or (`actual_cost_usd` >= 0))'')],
       cat_constraints = [
         (''playerbot_llm_daily_budget'', ''ck_llm_daily_budget_reserved''),
         (''playerbot_llm_daily_budget'', ''ck_llm_daily_budget_spent''),
         (''playerbot_llm_budget_reservation'', ''ck_llm_reservation_max_cost''),
         (''playerbot_llm_budget_reservation'', ''ck_llm_reservation_actual_cost'')]\<rparr>)"

lemma fresh_catalog_ok: "catalog_ok fresh_catalog"
  by code_simp

lemma fresh_catalog_guard: "guard fresh_catalog = None"
  by code_simp

theorem refused_start_touches_nothing_witness:
  "catalog_ok fresh_catalog \<and> fst (ensure_schema fresh_catalog) = None \<and>
   catalog_ok (fresh_catalog\<lparr>cat_tables := ''playerbot_claude_lock'' # cat_tables fresh_catalog\<rparr>) \<and>
   ensure_schema (fresh_catalog\<lparr>cat_tables := ''playerbot_claude_lock'' # cat_tables fresh_catalog\<rparr>) =
     (Some MixedLayout, fresh_catalog\<lparr>cat_tables := ''playerbot_claude_lock'' # cat_tables fresh_catalog\<rparr>)"
proof -
  let ?mixed = "fresh_catalog\<lparr>cat_tables := ''playerbot_claude_lock'' # cat_tables fresh_catalog\<rparr>"
  have ok: "catalog_ok ?mixed" using fresh_catalog_ok by (auto simp: catalog_ok_def)
  have "guard ?mixed = Some MixedLayout" by code_simp
  with refused_start_touches_nothing [OF ok] have "ensure_schema ?mixed = (Some MixedLayout, ?mixed)"
    by (metis option.distinct(1) prod.collapse)
  then show ?thesis
    using ok fresh_catalog_ok fresh_catalog_guard refused_start_touches_nothing [OF fresh_catalog_ok]
    by simp
qed

text \<open>
  C34. An accepted start leaves a database whose nine provider tables all have
  exactly the expected columns, indexes and checks, in which every table of the modules is present and
  no table of the retired layout is; it added the sidecar's own tables and no other, and the next
  start accepts it, guard and validation, and changes nothing.
\<close>

theorem accepted_schema:
  assumes "catalog_ok cat" "ensure_schema cat = (None, cat')"
  shows "(\<forall>t \<in> set managed_tables. shape_matches cat' t) \<and>
    set required_module_tables \<subseteq> set (cat_tables cat') \<and>
    set legacy_provider_tables \<inter> set (cat_tables cat') = {} \<and>
    set (cat_tables cat') = set (cat_tables cat) \<union> set sidecar_owned_tables \<and>
    ensure_schema cat' = (None, cat')"
proof -
  have g: "guard cat = None" and cat': "cat' = foldl create_table_if_absent cat schema_statements"
    using assms(2) by (auto simp: ensure_schema_def Let_def split: option.splits)
  have names: "tbl_name ` set schema_statements = set sidecar_owned_tables"
    by (metis list.set_map statements_names)
  then have tables: "set (cat_tables cat') = set (cat_tables cat) \<union> set sidecar_owned_tables"
    by (simp add: cat' create_all_tables)
  have "set legacy_provider_tables \<inter> set sidecar_owned_tables = {}"
    by (simp add: legacy_provider_tables_def sidecar_owned_tables_def)
  then have legacy: "set legacy_provider_tables \<inter> set (cat_tables cat') = {}"
    using guard_None(2) [OF g] tables by auto
  have shapes: "\<forall>t \<in> set managed_tables. shape_matches cat' t"
    using guarded_start [OF assms(1) g] unfolding cat' .
  have required: "set required_module_tables \<subseteq> set (cat_tables cat')"
    using guard_None(1) [OF g] tables by auto
  have "''playerbot_llm_budget_reservation'' \<notin> set sidecar_owned_tables"
    by (simp add: sidecar_owned_tables_def)
  then have "present_identifiers cat' = present_identifiers cat"
    unfolding cat' names [symmetric] using statements_ok
    by (intro create_all_identifiers) (auto dest: sym)
  then have "guard cat' = None"
    using guard_accepts [OF required legacy _ shapes] guard_None(5,6) [OF g] tables by simp
  moreover have "foldl create_table_if_absent c ts = c"
    if "\<forall>t \<in> set ts. tbl_name t \<in> set (cat_tables c)" for ts c
    using that by (induction ts) (simp_all add: create_present)
  from this [of schema_statements cat'] have
    "foldl create_table_if_absent cat' schema_statements = cat'" using tables names by auto
  ultimately have "ensure_schema cat' = (None, cat')"
    using shapes by (simp add: ensure_schema_def validate_shapes_None)
  with shapes required legacy tables show ?thesis by blast
qed

theorem accepted_schema_witness:
  "\<exists>cat'. ensure_schema fresh_catalog = (None, cat') \<and>
     (\<forall>t \<in> set managed_tables. shape_matches cat' t) \<and> ensure_schema cat' = (None, cat') \<and>
     cat' \<noteq> fresh_catalog"
proof -
  obtain cat' where e: "ensure_schema fresh_catalog = (None, cat')"
    using fresh_catalog_guard guarded_start [OF fresh_catalog_ok fresh_catalog_guard]
    by (simp add: ensure_schema_def Let_def validate_shapes_None)
  note accepted = accepted_schema [OF fresh_catalog_ok e]
  have "''playerbot_llm_career_decision'' \<in> set (cat_tables cat')"
    "''playerbot_llm_career_decision'' \<notin> set (cat_tables fresh_catalog)"
    using accepted
    by (simp_all add: sidecar_owned_tables_def fresh_catalog_def Let_def required_module_tables_def)
  then have "cat' \<noteq> fresh_catalog" by auto
  with accepted e show ?thesis by blast
qed

section \<open>Facts about superseded locks\<close>

lemma sql_like_percent: "sql_like [CHR ''%''] s"
  by (induction s) simp_all

lemma takeWhile_show_nat [simp]: "takeWhile is_digit (show_nat n) = show_nat n"
  using show_nat_digits [of n] by (simp add: takeWhile_eq_all_conv)

text \<open>
  Retiring superseded locks removes every lock of the retired
  shapes, one per day and one per bot at or above the bucket bound, and none of the keys the current
  code takes: the budget key, the ambient key, the purge key and the conversation buckets.
\<close>

theorem retirement_spares_live_locks:
  "\<not> superseded_lock ''budget_day'' \<and> \<not> superseded_lock ''ambient'' \<and> \<not> superseded_lock ''bot_purge'' \<and>
   (\<forall>b. superseded_lock (''conversation:'' @ show_nat b) \<longleftrightarrow> 256 \<le> b) \<and>
   (\<forall>d. superseded_lock (''budget_day:'' @ d)) \<and>
   set (lock_keys (snd (retire_superseded_locks db))) = {k \<in> set (lock_keys db). \<not> superseded_lock k} \<and>
   length (lock_keys (snd (retire_superseded_locks db))) + fst (retire_superseded_locks db) =
     length (lock_keys db)"
proof -
  have "superseded_lock (''conversation:'' @ show_nat b) \<longleftrightarrow> 256 \<le> b" for b
    by (simp add: superseded_lock_def sql_like_percent cast_unsigned_def
        conversation_lock_buckets_def)
  moreover have "superseded_lock (''budget_day:'' @ d)" for d
    by (simp add: superseded_lock_def sql_like_percent)
  ultimately show ?thesis
    using sum_length_filter_compl [of superseded_lock "lock_keys db"]
    by (auto simp: retire_superseded_locks_def superseded_lock_def)
qed

end
