(* ===== verification/Store.thy ===== *)
theory Store
  imports Database
begin

text \<open>
  \<open>sidecar/src/playerbots_llm/store.py\<close>: the durable state that is not money. Profiles and career
  decisions are one row per bot, replaced as a whole; the conversation of a bot is its newest turns;
  ambient messages are rated per rolling hour; a purge deletes what a bot owns.
\<close>

section \<open>Constants and column limits\<close>

definition conversation_turn_limit :: nat where "conversation_turn_limit = 12"

definition ambient_window_us :: int where "ambient_window_us = 3600 * second_us"

definition max_ambient_messages_per_hour :: int where "max_ambient_messages_per_hour = 6"

text \<open>An unsigned integer column of \<open>w\<close> bits and a TEXT column of 65535 bytes.\<close>

definition unsigned_fits :: "nat \<Rightarrow> int \<Rightarrow> bool" where
  "unsigned_fits w n \<longleftrightarrow> 0 \<le> n \<and> n < 2 ^ w"

definition text_fits :: "ustr \<Rightarrow> bool" where
  "text_fits s \<longleftrightarrow> sum_list (map utf8_width s) \<le> 65535"

section \<open>Profiles and careers\<close>

record profile_values =
  val_profile_version :: int
  val_crafting_affinity :: int
  val_gathering_affinity :: int
  val_exploration_affinity :: int
  val_sociability :: int
  val_voice :: ustr
  val_bot_name :: ustr

definition record_profile ::
  "int \<Rightarrow> profile_values \<Rightarrow> clock_reading \<Rightarrow> database \<Rightarrow> db_error + database" where
  "record_profile guid v now db =
     and_then (assuring (unsigned_fits 64 guid \<and> unsigned_fits 32 (val_profile_version v) \<and>
         unsigned_fits 8 (val_crafting_affinity v) \<and> unsigned_fits 8 (val_gathering_affinity v) \<and>
         unsigned_fits 8 (val_exploration_affinity v) \<and> unsigned_fits 8 (val_sociability v) \<and>
         length (val_voice v) \<le> 32 \<and> length (val_bot_name v) \<le> 48) SqlError) (\<lambda>_.
     Inr (db\<lparr>profiles := (profiles db)(guid := Some
       \<lparr>profile_version = val_profile_version v,
         crafting_affinity = val_crafting_affinity v,
         gathering_affinity = val_gathering_affinity v,
         exploration_affinity = val_exploration_affinity v,
         sociability = val_sociability v, profile_voice = val_voice v,
         profile_bot_name = val_bot_name v, profile_updated_at = datetime_column now\<rparr>)\<rparr>))"

definition get_profile :: "int \<Rightarrow> database \<Rightarrow> profile_values option" where
  "get_profile guid db = map_option (\<lambda>r.
     \<lparr>val_profile_version = profile_version r, val_crafting_affinity = crafting_affinity r,
       val_gathering_affinity = gathering_affinity r,
       val_exploration_affinity = exploration_affinity r, val_sociability = sociability r,
       val_voice = profile_voice r, val_bot_name = profile_bot_name r\<rparr>) (profiles db guid)"

record career_values =
  val_career_version :: int
  val_candidate_token :: ustr
  val_spending_style :: ustr

definition record_career_decision ::
  "int \<Rightarrow> career_values \<Rightarrow> clock_reading \<Rightarrow> database \<Rightarrow> db_error + database" where
  "record_career_decision guid v now db =
     and_then (assuring (unsigned_fits 64 guid \<and> unsigned_fits 32 (val_career_version v) \<and>
         length (val_candidate_token v) \<le> 64 \<and> length (val_spending_style v) \<le> 32) SqlError) (\<lambda>_.
     Inr (db\<lparr>careers := (careers db)(guid := Some
       \<lparr>career_version = val_career_version v, candidate_token = val_candidate_token v,
         spending_style = val_spending_style v, career_updated_at = datetime_column now\<rparr>)\<rparr>))"

definition get_career_decision :: "int \<Rightarrow> database \<Rightarrow> career_values option" where
  "get_career_decision guid db = map_option (\<lambda>r.
     \<lparr>val_career_version = career_version r, val_candidate_token = candidate_token r,
       val_spending_style = spending_style r\<rparr>) (careers db guid)"

section \<open>Conversations\<close>

text \<open>The ids of the newest turns of a bot: \<open>ORDER BY id DESC LIMIT n\<close>.\<close>

definition newest_turn_ids :: "nat \<Rightarrow> int \<Rightarrow> turn_row list \<Rightarrow> nat list" where
  "newest_turn_ids n guid rows =
     take n (rev (sort (map turn_id (filter (\<lambda>r. turn_bot_guid r = guid) rows))))"

definition conversation_lock :: "int \<Rightarrow> string" where
  "conversation_lock guid = ''conversation:'' @ show_nat (nat (guid mod conversation_lock_buckets))"

definition role_of :: "string \<Rightarrow> turn_role option" where
  "role_of role = (if role = ''user'' then Some User
     else if role = ''assistant'' then Some Assistant else None)"

definition insert_turn ::
  "int \<Rightarrow> turn_role \<Rightarrow> ustr \<Rightarrow> clock_reading \<Rightarrow> database \<Rightarrow> db_error + database" where
  "insert_turn guid role content now db =
     and_then (assuring (unsigned_fits 64 guid \<and> text_fits content) SqlError) (\<lambda>_.
     Inr (db\<lparr>turns := turns db @ [\<lparr>turn_id = next_turn_id db, turn_bot_guid = guid,
            turn_role = role, turn_content = content, turn_created_at = datetime_column now\<rparr>],
          next_turn_id := next_turn_id db + 1\<rparr>))"

definition trim_turns :: "int \<Rightarrow> database \<Rightarrow> database" where
  "trim_turns guid db =
     (let keep = newest_turn_ids conversation_turn_limit guid (turns db)
      in db\<lparr>turns := filter (\<lambda>r. \<not> (turn_bot_guid r = guid \<and> turn_id r \<notin> set keep)) (turns db)\<rparr>)"

definition append_turn ::
  "int \<Rightarrow> string \<Rightarrow> ustr \<Rightarrow> clock_reading \<Rightarrow> database \<Rightarrow> db_error + database" where
  "append_turn guid role content now db = (case role_of role of
     None \<Rightarrow> Inl LedgerError
   | Some r \<Rightarrow>
       let db = acquire_named_lock (conversation_lock guid) db
       in and_then (insert_turn guid r content now db) (\<lambda>db. Inr (trim_turns guid db)))"

definition recent_turns :: "int \<Rightarrow> database \<Rightarrow> (turn_role \<times> ustr) list" where
  "recent_turns guid db = map (\<lambda>r. (turn_role r, turn_content r))
     (sort_key turn_id (filter (\<lambda>r. turn_bot_guid r = guid) (turns db)))"

section \<open>The ambient rate\<close>

definition try_begin_ambient :: "int \<Rightarrow> clock_reading \<Rightarrow> database \<Rightarrow> bool \<times> database" where
  "try_begin_ambient messages_per_hour now db =
     (if \<not> (1 \<le> messages_per_hour \<and> messages_per_hour \<le> max_ambient_messages_per_hour)
      then (False, db)
      else
        let cutoff = plus_us now (- ambient_window_us);
            db = acquire_named_lock ''ambient'' db;
            kept = filter (\<lambda>r. \<not> column_le (ambient_created_at r) cutoff) (ambient_attempts db);
            db = db\<lparr>ambient_attempts := kept\<rparr>;
            n = length (filter (\<lambda>r. \<not> column_le (ambient_created_at r) cutoff) (ambient_attempts db))
        in if messages_per_hour \<le> int n then (False, db)
           else (True, db\<lparr>ambient_attempts := ambient_attempts db @
             [\<lparr>ambient_id = next_ambient_id db, ambient_created_at = datetime_column now\<rparr>],
             next_ambient_id := next_ambient_id db + 1\<rparr>))"

section \<open>The purge\<close>

definition is_pending :: "purge_row \<Rightarrow> bool" where
  "is_pending r \<longleftrightarrow> acknowledged_at r = None"

definition pending_guids :: "database \<Rightarrow> int list" where
  "pending_guids db = map purge_bot_guid (filter is_pending (bot_purge db))"

text \<open>One transaction: delete what the bot owns, then acknowledge.\<close>

definition purge_bot :: "int \<Rightarrow> int \<Rightarrow> database \<Rightarrow> database" where
  "purge_bot guid stamp db = db\<lparr>
     profiles := (profiles db)(guid := None),
     turns := filter (\<lambda>r. turn_bot_guid r \<noteq> guid) (turns db),
     careers := (careers db)(guid := None),
     bot_purge := map (\<lambda>r. if purge_bot_guid r = guid then r\<lparr>acknowledged_at := Some stamp\<rparr> else r)
       (bot_purge db)\<rparr>"

text \<open>
  The loop, with the server's timestamp of each round as an argument. Every round acknowledges at
  least one pending row, so it ends.
\<close>

lemma purge_bot_pending:
  "length (filter is_pending (bot_purge (purge_bot guid stamp db))) =
     length (filter (\<lambda>r. is_pending r \<and> purge_bot_guid r \<noteq> guid) (bot_purge db))"
proof -
  have "length (filter is_pending (map (\<lambda>r. if purge_bot_guid r = guid
      then r\<lparr>acknowledged_at := Some stamp\<rparr> else r) rows)) =
    length (filter (\<lambda>r. is_pending r \<and> purge_bot_guid r \<noteq> guid) rows)" for rows
    by (induction rows) (auto simp: is_pending_def)
  then show ?thesis by (simp add: purge_bot_def)
qed

lemma purge_bot_decreases:
  assumes "guid \<in> set (pending_guids db)"
  shows "length (filter is_pending (bot_purge (purge_bot guid stamp db))) <
    length (filter is_pending (bot_purge db))"
proof -
  obtain r where r: "r \<in> set (bot_purge db)" "is_pending r" "purge_bot_guid r = guid"
    using assms by (auto simp: pending_guids_def)
  have "filter (\<lambda>r. is_pending r \<and> purge_bot_guid r \<noteq> guid) (bot_purge db) =
      filter (\<lambda>r. purge_bot_guid r \<noteq> guid) (filter is_pending (bot_purge db))"
    by (simp add: conj_commute)
  moreover have "length (filter (\<lambda>r. purge_bot_guid r \<noteq> guid) (filter is_pending (bot_purge db))) <
      length (filter is_pending (bot_purge db))"
    by (rule length_filter_less [of r]) (use r in auto)
  ultimately show ?thesis by (simp add: purge_bot_pending)
qed

function purge_loop :: "(nat \<Rightarrow> int) \<Rightarrow> nat \<Rightarrow> database \<Rightarrow> nat \<times> database" where
  "purge_loop stamps purged db =
     (let db = acquire_named_lock ''bot_purge'' db in
      if pending_guids db = [] then (purged, db)
      else purge_loop stamps (purged + 1)
        (purge_bot (Min (set (pending_guids db))) (stamps purged) db))"
  by pat_completeness auto

termination
proof (relation "measure (\<lambda>(_, _, db). length (filter is_pending (bot_purge db)))")
  fix stamps :: "nat \<Rightarrow> int" and purged db x
  assume x: "x = acquire_named_lock ''bot_purge'' db" and ne: "pending_guids x \<noteq> []"
  then have "Min (set (pending_guids x)) \<in> set (pending_guids x)" by simp
  from purge_bot_decreases [OF this, of "stamps purged"] x
  show "((stamps, purged + 1, purge_bot (Min (set (pending_guids x))) (stamps purged) x),
      stamps, purged, db) \<in> measure (\<lambda>(_, _, db). length (filter is_pending (bot_purge db)))"
    by simp
qed simp

declare purge_loop.simps [simp del]

definition purge_pending_bot_data :: "(nat \<Rightarrow> int) \<Rightarrow> database \<Rightarrow> nat \<times> database" where
  "purge_pending_bot_data stamps db = purge_loop stamps 0 db"

section \<open>A keyed store\<close>

text \<open>
  What profiles and career decisions are to their clients: a row per key, replaced as a whole. Reading
  a key after a sequence of writes gives the last one.
\<close>

fun write_all :: "(int \<Rightarrow> 'v \<Rightarrow> clock_reading \<Rightarrow> 'db \<Rightarrow> db_error + 'db) \<Rightarrow>
    (int \<times> 'v \<times> clock_reading) list \<Rightarrow> 'db \<Rightarrow> db_error + 'db" where
  "write_all w [] db = Inr db"
| "write_all w ((k, v, now) # ws) db = and_then (w k v now db) (write_all w ws)"

locale keyed_store =
  fixes write_row :: "int \<Rightarrow> 'v \<Rightarrow> clock_reading \<Rightarrow> 'db \<Rightarrow> db_error + 'db"
    and read_row :: "int \<Rightarrow> 'db \<Rightarrow> 'v option"
  assumes read_same: "write_row k v now db = Inr db' \<Longrightarrow> read_row k db' = Some v"
    and read_other: "write_row k v now db = Inr db' \<Longrightarrow> k' \<noteq> k \<Longrightarrow> read_row k' db' = read_row k' db"
begin

lemma read_after_writes:
  "write_all write_row ws db = Inr db' \<Longrightarrow>
     read_row k db' = (case find (\<lambda>(k', _). k' = k) (rev ws) of
       None \<Rightarrow> read_row k db | Some (_, v, _) \<Rightarrow> Some v)"
proof (induction ws arbitrary: db)
  case (Cons w ws)
  obtain k' v now where w: "w = (k', v, now)" by (cases w) auto
  from Cons.prems w obtain db1 where db1: "write_row k' v now db = Inr db1" "write_all write_row ws db1 = Inr db'"
    by (auto simp: and_then_Inr_iff)
  have split: "find P (xs @ [x]) = (case find P xs of None \<Rightarrow> (if P x then Some x else None)
      | Some y \<Rightarrow> Some y)" for P xs and x :: "int \<times> 'v \<times> clock_reading"
    by (induction xs) auto
  show ?case
    using Cons.IH [OF db1(2)] read_same [OF db1(1)] read_other [OF db1(1)]
    by (cases "k' = k") (auto simp: w split split: option.splits)
qed simp

end

interpretation profile_store: keyed_store record_profile get_profile
  by unfold_locales (auto simp: record_profile_def get_profile_def and_then_Inr_iff)

interpretation career_store: keyed_store record_career_decision get_career_decision
  by unfold_locales (auto simp: record_career_decision_def get_career_decision_def and_then_Inr_iff)

text \<open>
  C35. Profiles and careers are read back as written: after any sequence of
  recordings that succeeds, reading a bot gives exactly the values of its last recording, or what was
  there before when it has none. Recording one bot never changes another.
\<close>

theorem last_write_wins:
  assumes "write_all record_profile ws db = Inr db1" "write_all record_career_decision cs db = Inr db2"
  shows "get_profile g db1 = (case find (\<lambda>(k, _). k = g) (rev ws) of
        None \<Rightarrow> get_profile g db | Some (_, v, _) \<Rightarrow> Some v) \<and>
    get_career_decision g db2 = (case find (\<lambda>(k, _). k = g) (rev cs) of
        None \<Rightarrow> get_career_decision g db | Some (_, v, _) \<Rightarrow> Some v)"
  using profile_store.read_after_writes [OF assms(1)] career_store.read_after_writes [OF assms(2)]
  by simp

theorem last_write_wins_witness:
  "\<exists>db2. write_all record_career_decision
       [(7, \<lparr>val_career_version = 1, val_candidate_token = u ''a'', val_spending_style = u ''b''\<rparr>, \<lparr>wall_us = 0, utc_offset_us = None\<rparr>),
        (8, \<lparr>val_career_version = 1, val_candidate_token = [], val_spending_style = []\<rparr>, \<lparr>wall_us = 0, utc_offset_us = None\<rparr>),
        (7, \<lparr>val_career_version = 2, val_candidate_token = u ''c'', val_spending_style = u ''d''\<rparr>, \<lparr>wall_us = 0, utc_offset_us = None\<rparr>)]
       empty_database = Inr db2 \<and>
     get_career_decision 7 db2 = Some
       \<lparr>val_career_version = 2, val_candidate_token = u ''c'', val_spending_style = u ''d''\<rparr>"
proof -
  let ?cs = "[(7, \<lparr>val_career_version = 1, val_candidate_token = u ''a'', val_spending_style = u ''b''\<rparr>, \<lparr>wall_us = 0, utc_offset_us = None\<rparr>),
        (8, \<lparr>val_career_version = 1, val_candidate_token = [], val_spending_style = []\<rparr>, \<lparr>wall_us = 0, utc_offset_us = None\<rparr>),
        (7, \<lparr>val_career_version = 2, val_candidate_token = u ''c'', val_spending_style = u ''d''\<rparr>, \<lparr>wall_us = 0, utc_offset_us = None\<rparr>)]"
  obtain db2 where c: "write_all record_career_decision ?cs empty_database = Inr db2"
    by (simp add: record_career_decision_def unsigned_fits_def u_def)
  have "write_all record_profile [] empty_database = Inr empty_database" by simp
  from last_write_wins [OF this c, of 7] c show ?thesis by simp
qed

section \<open>Conversations\<close>

definition last_n :: "nat \<Rightarrow> 'a list \<Rightarrow> 'a list" where
  "last_n n xs = drop (length xs - n) xs"

definition turns_ok :: "database \<Rightarrow> bool" where
  "turns_ok db \<longleftrightarrow> sorted_wrt (<) (map turn_id (turns db)) \<and>
     (\<forall>r \<in> set (turns db). turn_id r < next_turn_id db)"

definition turns_of :: "int \<Rightarrow> database \<Rightarrow> turn_row list" where
  "turns_of guid db = filter (\<lambda>r. turn_bot_guid r = guid) (turns db)"

definition said :: "turn_row \<Rightarrow> turn_role \<times> ustr" where
  "said r = (turn_role r, turn_content r)"

lemma turns_of_sorted:
  assumes "turns_ok db"
  shows "sorted_wrt (<) (map turn_id (turns_of guid db))"
proof -
  have "sorted_wrt (<) (map turn_id (filter P rows))"
    if "sorted_wrt (<) (map turn_id rows)" for P and rows :: "turn_row list"
    using that by (induction rows) (auto simp: sorted_wrt_map)
  then show ?thesis using assms by (simp add: turns_ok_def turns_of_def)
qed

lemma recent_turns_eq:
  assumes "turns_ok db"
  shows "recent_turns guid db = map said (turns_of guid db)"
proof -
  have "sorted (map turn_id (turns_of guid db))"
    using turns_of_sorted [OF assms] by (simp add: strict_sorted_imp_sorted)
  then show ?thesis
    by (simp add: recent_turns_def sort_key_id_if_sorted said_def flip: turns_of_def)
qed

lemma filter_newest:
  fixes f :: "'a \<Rightarrow> nat"
  assumes "sorted_wrt (<) (map f xs)"
  shows "filter (\<lambda>x. f x \<in> set (take n (rev (sort (map f xs))))) xs = last_n n xs"
proof -
  have "sort (map f xs) = map f xs"
    using assms by (simp add: strict_sorted_imp_sorted sorted_sort_id)
  then have ids: "set (take n (rev (sort (map f xs)))) = set (map f (last_n n xs))"
    by (simp add: take_rev last_n_def drop_map)
  have "filter (\<lambda>x. f x \<in> set (map f (drop k xs))) xs = drop k xs" for k
    using assms
  proof (induction xs arbitrary: k)
    case (Cons x xs)
    then have less: "f x < f y" if "y \<in> set xs" for y using that by auto
    show ?case
    proof (cases k)
      case 0
      then show ?thesis by (auto intro: filter_True)
    next
      case (Suc j)
      have "f x \<notin> set (map f (drop j xs))" using less by (fastforce dest: in_set_dropD)
      then show ?thesis using Suc Cons by simp
    qed
  qed simp
  then show ?thesis unfolding ids by (simp add: last_n_def)
qed

lemma trim_turns_effect:
  assumes "turns_ok db"
  shows "turns_of guid (trim_turns guid db) = last_n conversation_turn_limit (turns_of guid db)"
    and "g \<noteq> guid \<Longrightarrow> turns_of g (trim_turns guid db) = turns_of g db"
    and "turns_ok (trim_turns guid db)"
proof -
  let ?keep = "newest_turn_ids conversation_turn_limit guid (turns db)"
  have "turns_of guid (trim_turns guid db) = filter (\<lambda>r. turn_id r \<in> set ?keep) (turns_of guid db)"
    by (auto simp: trim_turns_def turns_of_def Let_def intro: filter_cong)
  also have "\<dots> = last_n conversation_turn_limit (turns_of guid db)"
    using filter_newest [OF turns_of_sorted [OF assms], of conversation_turn_limit guid]
    by (simp add: newest_turn_ids_def turns_of_def)
  finally show "turns_of guid (trim_turns guid db) =
      last_n conversation_turn_limit (turns_of guid db)" .
  show "turns_of g (trim_turns guid db) = turns_of g db" if "g \<noteq> guid"
    using that by (auto simp: trim_turns_def turns_of_def Let_def intro: filter_cong)
  have "sorted_wrt (<) (map turn_id (filter P rows))"
    if "sorted_wrt (<) (map turn_id rows)" for P and rows :: "turn_row list"
    using that by (induction rows) (auto simp: sorted_wrt_map)
  then show "turns_ok (trim_turns guid db)"
    using assms by (auto simp: turns_ok_def trim_turns_def Let_def)
qed

lemma append_turn_effect:
  assumes "turns_ok db" "append_turn guid role content now db = Inr db'"
  shows "turns_ok db'"
    and "\<exists>r. role_of role = Some r \<and> recent_turns guid db' =
      last_n conversation_turn_limit (recent_turns guid db @ [(r, content)])"
    and "g \<noteq> guid \<Longrightarrow> recent_turns g db' = recent_turns g db"
    and "daily_budget db' = daily_budget db \<and> reservations db' = reservations db \<and>
      next_reservation_id db' = next_reservation_id db \<and> runtime_control db' = runtime_control db"
proof -
  obtain r where r: "role_of role = Some r"
    using assms(2) by (auto simp: append_turn_def split: option.splits)
  define new where "new = \<lparr>turn_id = next_turn_id db, turn_bot_guid = guid, turn_role = r,
    turn_content = content, turn_created_at = datetime_column now\<rparr>"
  define mid where "mid = (acquire_named_lock (conversation_lock guid) db)
    \<lparr>turns := turns db @ [new], next_turn_id := next_turn_id db + 1\<rparr>"
  have db': "db' = trim_turns guid mid"
    using assms(2) r by (auto simp: append_turn_def Let_def insert_turn_def and_then_Inr_iff new_def
        mid_def)
  have ok: "turns_ok mid"
    using assms(1) by (auto simp: turns_ok_def mid_def new_def sorted_wrt_append less_Suc_eq)
  note trim = trim_turns_effect [OF ok]
  show "turns_ok db'" unfolding db' by (rule trim(3))
  have "turns_of guid mid = turns_of guid db @ [new]" by (simp add: turns_of_def mid_def new_def)
  moreover have "map said (last_n n xs) = last_n n (map said xs)" for n xs
    by (simp add: last_n_def drop_map)
  ultimately have "recent_turns guid db' =
      last_n conversation_turn_limit (recent_turns guid db @ [(r, content)])"
    using trim(1) recent_turns_eq [OF trim(3)] recent_turns_eq [OF assms(1)]
    by (simp add: db') (simp add: said_def new_def)
  with r show "\<exists>r. role_of role = Some r \<and> recent_turns guid db' =
      last_n conversation_turn_limit (recent_turns guid db @ [(r, content)])" by blast
  show "recent_turns g db' = recent_turns g db" if "g \<noteq> guid"
  proof -
    have "turns_of g mid = turns_of g db" using that by (simp add: turns_of_def mid_def new_def)
    then show ?thesis
      using trim(2) [OF that] recent_turns_eq [OF trim(3)] recent_turns_eq [OF assms(1)]
      by (simp add: db')
  qed
  show "daily_budget db' = daily_budget db \<and> reservations db' = reservations db \<and>
      next_reservation_id db' = next_reservation_id db \<and> runtime_control db' = runtime_control db"
    by (simp add: db' trim_turns_def Let_def mid_def)
qed

text \<open>A sequence of turns, of any bots.\<close>

fun append_all :: "(int \<times> string \<times> ustr \<times> clock_reading) list \<Rightarrow> database \<Rightarrow> db_error + database" where
  "append_all [] db = Inr db"
| "append_all ((guid, role, content, now) # ms) db =
     and_then (append_turn guid role content now db) (append_all ms)"

definition spoken :: "int \<Rightarrow> (int \<times> string \<times> ustr \<times> clock_reading) list \<Rightarrow> (turn_role \<times> ustr) list" where
  "spoken g ms = map (\<lambda>(_, role, content, _). (the (role_of role), content))
     (filter (\<lambda>(guid, _). guid = g) ms)"

lemma last_n_last_n: "last_n n (last_n n xs @ ys) = last_n n (xs @ ys)"
  by (cases "length xs \<le> n") (simp_all add: last_n_def add.commute)

lemma append_all_effect:
  assumes "turns_ok db" "length (recent_turns g db) \<le> conversation_turn_limit"
    "append_all ms db = Inr db'"
  shows "recent_turns g db' = last_n conversation_turn_limit (recent_turns g db @ spoken g ms)"
  using assms
proof (induction ms arbitrary: db)
  case Nil
  then show ?case by (simp add: spoken_def last_n_def)
next
  case (Cons m ms)
  obtain guid role content now where m: "m = (guid, role, content, now)" by (cases m) auto
  obtain db1 where db1: "append_turn guid role content now db = Inr db1" "append_all ms db1 = Inr db'"
    using Cons.prems(3) m by (auto simp: and_then_Inr_iff)
  note eff = append_turn_effect [OF Cons.prems(1) db1(1)]
  show ?case
  proof (cases "guid = g")
    case True
    obtain r where r: "role_of role = Some r" "recent_turns g db1 =
        last_n conversation_turn_limit (recent_turns g db @ [(r, content)])"
      using eff(2) True by blast
    then have "length (recent_turns g db1) \<le> conversation_turn_limit" by (simp add: last_n_def)
    with Cons.IH [OF eff(1) this db1(2)] r show ?thesis
      by (simp add: m True spoken_def last_n_last_n)
  next
    case False
    then have "recent_turns g db1 = recent_turns g db" using eff(3) [of g] by simp
    with Cons.IH [OF eff(1) _ db1(2)] Cons.prems(2) False show ?thesis
      by (simp add: m spoken_def)
  qed
qed

text \<open>
  C23. The memory of a conversation: starting from an empty table,
  after any interleaving of turns of any bots, what is read back for a bot is exactly its own last
  twelve turns, oldest first, with the roles and texts they were appended with.
\<close>

theorem conversation_is_newest_twelve:
  assumes "turns db = []" "append_all ms db = Inr db'"
  shows "recent_turns g db' = drop (length (spoken g ms) - 12) (spoken g ms)"
proof -
  have "turns_ok db" "recent_turns g db = []"
    using assms(1) by (simp_all add: turns_ok_def recent_turns_def)
  with append_all_effect [OF this(1) _ assms(2), of g] show ?thesis
    by (simp add: last_n_def conversation_turn_limit_def)
qed

theorem conversation_is_newest_twelve_witness:
  "\<exists>db'. append_all (map (\<lambda>i. (7, ''user'', [i], \<lparr>wall_us = 0, utc_offset_us = None\<rparr>)) [0..<14]) empty_database = Inr db' \<and>
     length (recent_turns 7 db') = 12"
proof -
  have "\<exists>db'. append_all (map (\<lambda>i. (7, ''user'', [i], \<lparr>wall_us = 0, utc_offset_us = None\<rparr>)) xs) db = Inr db'" for xs db
    by (induction xs arbitrary: db)
      (simp_all add: append_turn_def role_of_def Let_def insert_turn_def unsigned_fits_def
        text_fits_def utf8_width_def)
  then obtain db' where a: "append_all (map (\<lambda>i. (7, ''user'', [i], \<lparr>wall_us = 0, utc_offset_us = None\<rparr>)) [0..<14]) empty_database =
    Inr db'" by blast
  have "turns empty_database = []" by (simp add: empty_database_def)
  from conversation_is_newest_twelve [OF this a, of 7] a show ?thesis
    by (simp add: spoken_def filter_map o_def)
qed

section \<open>The ambient rate over time\<close>

definition stored_times :: "database \<Rightarrow> int list" where
  "stored_times db = map ambient_created_at (ambient_attempts db)"

definition after_cutoff :: "clock_reading \<Rightarrow> int \<Rightarrow> bool" where
  "after_cutoff now s \<longleftrightarrow> wall_us now - ambient_window_us < s * second_us"

text \<open>A run of attempts: the clock readings of those that were let through, and the database.\<close>

definition ambient_attempt ::
  "int \<Rightarrow> clock_reading list \<times> database \<Rightarrow> clock_reading \<Rightarrow> clock_reading list \<times> database" where
  "ambient_attempt n = (\<lambda>(begun, db) now. case try_begin_ambient n now db of
     (True, db') \<Rightarrow> (begun @ [now], db')
   | (False, db') \<Rightarrow> (begun, db'))"

definition ambient_run :: "int \<Rightarrow> clock_reading list \<Rightarrow> database \<Rightarrow> clock_reading list \<times> database" where
  "ambient_run n moments db = foldl (ambient_attempt n) ([], db) moments"

lemma try_begin_ambient_effect:
  assumes "1 \<le> n" "n \<le> max_ambient_messages_per_hour"
  defines "kept db now \<equiv> filter (after_cutoff now) (stored_times db)"
  shows "fst (try_begin_ambient n now db) \<longleftrightarrow> int (length (kept db now)) < n"
    and "stored_times (snd (try_begin_ambient n now db)) = kept db now @
      (if int (length (kept db now)) < n then [datetime_column now] else [])"
  using assms(1,2)
  by (auto simp: try_begin_ambient_def Let_def kept_def stored_times_def filter_map o_def
      after_cutoff_def column_le_def plus_us_def not_le)

lemma ambient_attempt_effect:
  assumes n: "1 \<le> n" "n \<le> max_ambient_messages_per_hour"
    and step: "ambient_attempt n (begun, db) now = (begun', db')"
  shows "\<exists>new. begun' = begun @ new \<and>
      stored_times db' = filter (after_cutoff now) (stored_times db) @ map datetime_column new \<and>
      new = (if int (length (filter (after_cutoff now) (stored_times db))) < n then [now] else [])"
  using step try_begin_ambient_effect [OF n, of now db]
  by (auto simp: ambient_attempt_def split: prod.splits bool.splits if_splits)

text \<open>
  What the table has forgotten is before every cutoff, so past a cutoff the stored times are those of
  the attempts let through.
\<close>

lemma ambient_run_stored:
  assumes n: "1 \<le> n" "n \<le> max_ambient_messages_per_hour" and "ambient_attempts db = []"
    and "\<forall>t \<in> set moments. wall_us t \<le> wall_us now"
  shows "filter (after_cutoff now) (stored_times (snd (ambient_run n moments db))) =
    filter (after_cutoff now) (map datetime_column (fst (ambient_run n moments db)))"
  using assms(4)
proof (induction moments rule: rev_induct)
  case Nil
  then show ?case using assms(3) by (simp add: ambient_run_def stored_times_def)
next
  case (snoc t moments)
  obtain begun db1 where run: "ambient_run n moments db = (begun, db1)" by fastforce
  obtain begun' db' where step: "ambient_attempt n (begun, db1) t = (begun', db')" by fastforce
  then have "ambient_run n (moments @ [t]) db = (begun', db')"
    using run by (simp add: ambient_run_def)
  moreover obtain new where "begun' = begun @ new"
    "stored_times db' = filter (after_cutoff t) (stored_times db1) @ map datetime_column new"
    using ambient_attempt_effect [OF n step] by blast
  moreover have "after_cutoff now s \<Longrightarrow> after_cutoff t s" for s
    using snoc.prems by (simp add: after_cutoff_def)
  then have "filter (after_cutoff now) (filter (after_cutoff t) xs) = filter (after_cutoff now) xs" for xs
    by (auto intro!: filter_cong)
  ultimately show ?case using snoc run by simp
qed

text \<open>One more attempt: it is let through exactly when the hour before it, as stored, has room.\<close>

lemma ambient_run_snoc:
  assumes n: "1 \<le> n" "n \<le> max_ambient_messages_per_hour" and "ambient_attempts db = []"
    and "\<forall>t \<in> set moments. wall_us t \<le> wall_us now"
  shows "fst (ambient_run n (moments @ [now]) db) = fst (ambient_run n moments db) @
    (if int (length (filter (after_cutoff now \<circ> datetime_column) (fst (ambient_run n moments db)))) < n
     then [now] else [])"
proof -
  obtain begun db1 where run: "ambient_run n moments db = (begun, db1)" by fastforce
  obtain begun' db' where step: "ambient_attempt n (begun, db1) now = (begun', db')" by fastforce
  have "fst (ambient_run n (moments @ [now]) db) = begun'"
    using run step by (simp add: ambient_run_def)
  then show ?thesis
    using ambient_attempt_effect [OF n step] ambient_run_stored [OF assms] run
    by (auto simp: filter_map)
qed

definition within_us :: "int \<Rightarrow> int \<Rightarrow> clock_reading \<Rightarrow> bool" where
  "within_us t d w \<longleftrightarrow> t < wall_us w \<and> wall_us w \<le> t + d"

text \<open>A reading half a second clear of the cutoff is on the same side of it as its stored time.\<close>

lemma stored_side:
  "wall_us now - ambient_window_us + second_us div 2 < wall_us w \<Longrightarrow> after_cutoff now (datetime_column w)"
  "after_cutoff now (datetime_column w) \<Longrightarrow> wall_us now - ambient_window_us - second_us div 2 < wall_us w"
  using datetime_column_near [of w] by (auto simp: after_cutoff_def second_us_def)

lemma length_filter_mono: "(\<And>x. x \<in> set xs \<Longrightarrow> P x \<Longrightarrow> Q x) \<Longrightarrow> length (filter P xs) \<le> length (filter Q xs)"
  by (induction xs) auto

lemma ambient_run_set: "set (fst (ambient_run n moments db)) \<subseteq> set moments"
proof (induction moments rule: rev_induct)
  case (snoc t moments)
  obtain begun db1 where run: "ambient_run n moments db = (begun, db1)" by fastforce
  then show ?case using snoc
    by (auto simp: ambient_run_def ambient_attempt_def split: prod.splits bool.splits)
qed (simp add: ambient_run_def)

lemma ambient_run_count:
  assumes n: "1 \<le> n" "n \<le> max_ambient_messages_per_hour" and "ambient_attempts db = []"
    and "sorted (map wall_us moments)"
  shows "int (length (filter (within_us t (ambient_window_us - second_us div 2))
    (fst (ambient_run n moments db)))) \<le> n"
  using assms(4)
proof (induction moments rule: rev_induct)
  case Nil
  then show ?case using n by (simp add: ambient_run_def)
next
  case (snoc now moments)
  let ?begun = "fst (ambient_run n moments db)"
  let ?in = "within_us t (ambient_window_us - second_us div 2)"
  have before: "\<forall>s \<in> set moments. wall_us s \<le> wall_us now"
    using snoc.prems by (auto simp: sorted_append)
  have IH: "int (length (filter ?in ?begun)) \<le> n"
    using snoc.IH snoc.prems by (simp add: sorted_append)
  note step = ambient_run_snoc [OF n assms(3) before]
  show ?case
  proof (cases "?in now \<and> int (length (filter (after_cutoff now \<circ> datetime_column) ?begun)) < n")
    case True
    have "length (filter ?in ?begun) \<le> length (filter (after_cutoff now \<circ> datetime_column) ?begun)"
      using True by (intro length_filter_mono) (auto simp: within_us_def intro!: stored_side(1))
    with True show ?thesis unfolding step by simp
  next
    case False
    then show ?thesis using IH unfolding step by auto
  qed
qed

text \<open>
  C24. The ambient rate: for any history of attempts in the order of their
  clock readings, no window of an hour less half a second has more of them let through than the
  configured number, and an attempt is let through whenever fewer were in the hour and a half second
  before it; a number outside one to six lets none through. The half second is what the column rounds
  away, and the hour itself can be exceeded by it.
\<close>

theorem ambient_rate_is_rolling:
  assumes "ambient_attempts db = []" "sorted (map wall_us (moments @ [now]))"
  shows "int (length (filter (within_us t 3599500000) (fst (ambient_run n (moments @ [now]) db)))) \<le>
      max 0 n \<and>
    (1 \<le> n \<and> n \<le> 6 \<and> int (length (filter (within_us (wall_us now - 3600500000) 3600500000)
        (fst (ambient_run n moments db)))) < n \<longrightarrow>
      fst (ambient_run n (moments @ [now]) db) = fst (ambient_run n moments db) @ [now]) \<and>
    (n < 1 \<or> 6 < n \<longrightarrow> fst (ambient_run n (moments @ [now]) db) = [])"
proof (cases "1 \<le> n \<and> n \<le> max_ambient_messages_per_hour")
  case True
  then have n: "1 \<le> n" "n \<le> max_ambient_messages_per_hour" by auto
  let ?begun = "fst (ambient_run n moments db)"
  have before: "\<forall>s \<in> set moments. wall_us s \<le> wall_us now"
    using assms(2) by (auto simp: sorted_append)
  have "length (filter (after_cutoff now \<circ> datetime_column) ?begun) \<le>
      length (filter (within_us (wall_us now - 3600500000) 3600500000) ?begun)"
    using before ambient_run_set [of n moments db]
    by (intro length_filter_mono)
      (auto simp: within_us_def ambient_window_us_def second_us_def dest!: stored_side(2))
  moreover have "int (length (filter (within_us t 3599500000)
      (fst (ambient_run n (moments @ [now]) db)))) \<le> n"
    using ambient_run_count [OF n assms] by (simp add: ambient_window_us_def second_us_def)
  ultimately show ?thesis
    using n ambient_run_snoc [OF n assms(1) before] by (auto simp: max_ambient_messages_per_hour_def)
next
  case False
  then have "ambient_attempt n (begun, db) t = (begun, db)" for begun db t
    by (simp add: ambient_attempt_def try_begin_ambient_def)
  then have "foldl (ambient_attempt n) s ts = s" for s ts
    by (induction ts arbitrary: s) auto
  then have "ambient_run n ms db = ([], db)" for ms unfolding ambient_run_def .
  with False show ?thesis by (auto simp: max_ambient_messages_per_hour_def)
qed

lemmas ambient_run_eval = ambient_run_def ambient_attempt_def try_begin_ambient_def empty_database_def
  Let_def max_ambient_messages_per_hour_def column_le_def plus_us_def ambient_window_us_def
  second_us_def datetime_column_def

theorem ambient_rate_is_rolling_witness:
  "fst (ambient_run 1 [\<lparr>wall_us = 0, utc_offset_us = None\<rparr>, \<lparr>wall_us = 1000000, utc_offset_us = None\<rparr>]
     empty_database) = [\<lparr>wall_us = 0, utc_offset_us = None\<rparr>] \<and>
   fst (ambient_run 1 [\<lparr>wall_us = 0, utc_offset_us = None\<rparr>, \<lparr>wall_us = 3601000000, utc_offset_us = None\<rparr>]
     empty_database) = [\<lparr>wall_us = 0, utc_offset_us = None\<rparr>, \<lparr>wall_us = 3601000000, utc_offset_us = None\<rparr>]"
proof
  show "fst (ambient_run 1 [\<lparr>wall_us = 0, utc_offset_us = None\<rparr>,
      \<lparr>wall_us = 1000000, utc_offset_us = None\<rparr>] empty_database) = [\<lparr>wall_us = 0, utc_offset_us = None\<rparr>]"
    by (simp add: ambient_run_eval)
  have empty: "ambient_attempts empty_database = []" by (simp add: empty_database_def)
  have one: "fst (ambient_run 1 [\<lparr>wall_us = 0, utc_offset_us = None\<rparr>] empty_database) =
      [\<lparr>wall_us = 0, utc_offset_us = None\<rparr>]"
    by (simp add: ambient_run_eval)
  from ambient_rate_is_rolling [OF empty, of "[\<lparr>wall_us = 0, utc_offset_us = None\<rparr>]"
      "\<lparr>wall_us = 3601000000, utc_offset_us = None\<rparr>" _ 1]
  show "fst (ambient_run 1 [\<lparr>wall_us = 0, utc_offset_us = None\<rparr>,
      \<lparr>wall_us = 3601000000, utc_offset_us = None\<rparr>] empty_database) =
      [\<lparr>wall_us = 0, utc_offset_us = None\<rparr>, \<lparr>wall_us = 3601000000, utc_offset_us = None\<rparr>]"
    unfolding one by (simp add: within_us_def)
qed

text \<open>
  The hour itself is not kept: at a limit of one, an attempt just below a half second is stored as the
  second before, and another is let through 3599.700001 seconds later.
\<close>

theorem ambient_hour_loses_half_a_second:
  "map wall_us (fst (ambient_run 1 [\<lparr>wall_us = 499999, utc_offset_us = None\<rparr>,
     \<lparr>wall_us = 3600200000, utc_offset_us = None\<rparr>] empty_database)) = [499999, 3600200000]"
  by (simp add: ambient_run_eval)

section \<open>The purge\<close>

lemma pending_after_purge_list:
  "pending_guids (purge_bot guid stamp db) = filter (\<lambda>g. g \<noteq> guid) (pending_guids db)"
proof -
  have "map purge_bot_guid (filter is_pending (map (\<lambda>r. if purge_bot_guid r = guid
      then r\<lparr>acknowledged_at := Some stamp\<rparr> else r) rows)) =
    filter (\<lambda>g. g \<noteq> guid) (map purge_bot_guid (filter is_pending rows))" for rows
    by (induction rows) (auto simp: is_pending_def)
  then show ?thesis by (simp add: pending_guids_def purge_bot_def)
qed

lemma pending_after_purge:
  "set (pending_guids (purge_bot guid stamp db)) = set (pending_guids db) - {guid}"
  by (auto simp: pending_after_purge_list)

lemma purge_bot_frames [simp]:
  "daily_budget (purge_bot guid stamp db) = daily_budget db"
  "reservations (purge_bot guid stamp db) = reservations db"
  "next_reservation_id (purge_bot guid stamp db) = next_reservation_id db"
  "runtime_control (purge_bot guid stamp db) = runtime_control db"
  by (simp_all add: purge_bot_def)

definition owns_nothing :: "int \<Rightarrow> database \<Rightarrow> bool" where
  "owns_nothing g db \<longleftrightarrow> get_profile g db = None \<and> get_career_decision g db = None \<and>
     recent_turns g db = []"

definition same_bot_data :: "int \<Rightarrow> database \<Rightarrow> database \<Rightarrow> bool" where
  "same_bot_data g db db' \<longleftrightarrow> get_profile g db' = get_profile g db \<and>
     get_career_decision g db' = get_career_decision g db \<and> recent_turns g db' = recent_turns g db"

lemma purge_bot_effect:
  "owns_nothing guid (purge_bot guid stamp db)"
  "g \<noteq> guid \<Longrightarrow> same_bot_data g db (purge_bot guid stamp db)"
  "owns_nothing g db \<Longrightarrow> owns_nothing g (purge_bot guid stamp db)"
proof -
  show "owns_nothing guid (purge_bot guid stamp db)"
    by (simp add: owns_nothing_def purge_bot_def get_profile_def get_career_decision_def
        recent_turns_def filter_filter)
  have "filter (\<lambda>x. turn_bot_guid x \<noteq> guid \<and> turn_bot_guid x = g) (turns db) =
      filter (\<lambda>r. turn_bot_guid r = g) (turns db)" if "g \<noteq> guid"
    using that by (auto intro: filter_cong)
  then show other: "same_bot_data g db (purge_bot guid stamp db)" if "g \<noteq> guid"
    using that by (simp add: same_bot_data_def purge_bot_def get_profile_def
        get_career_decision_def recent_turns_def)
  show "owns_nothing g (purge_bot guid stamp db)" if "owns_nothing g db"
    using that other \<open>owns_nothing guid (purge_bot guid stamp db)\<close>
    by (cases "g = guid") (auto simp: owns_nothing_def same_bot_data_def)
qed

lemma lock_keeps_bot_data [simp]:
  "owns_nothing g (acquire_named_lock k db) = owns_nothing g db"
  "same_bot_data g (acquire_named_lock k db) db' = same_bot_data g db db'"
  "same_bot_data g db (acquire_named_lock k db)"
  "pending_guids (acquire_named_lock k db) = pending_guids db"
  by (simp_all add: owns_nothing_def same_bot_data_def get_profile_def get_career_decision_def
      recent_turns_def pending_guids_def)

lemma purge_loop_effect:
  "purge_loop stamps n db = (m, db') \<Longrightarrow>
     m = n + card (set (pending_guids db)) \<and> pending_guids db' = [] \<and>
     (\<forall>g. if g \<in> set (pending_guids db) \<or> owns_nothing g db then owns_nothing g db'
          else same_bot_data g db db') \<and>
     daily_budget db' = daily_budget db \<and> reservations db' = reservations db \<and>
     next_reservation_id db' = next_reservation_id db \<and> runtime_control db' = runtime_control db"
proof (induction stamps n db arbitrary: m db' rule: purge_loop.induct)
  case (1 stamps n db)
  let ?db = "acquire_named_lock ''bot_purge'' db"
  let ?g = "Min (set (pending_guids ?db))"
  let ?next = "purge_bot ?g (stamps n) ?db"
  show ?case
  proof (cases "pending_guids db = []")
    case True
    then show ?thesis using "1.prems" by (auto simp: purge_loop.simps Let_def)
  next
    case False
    then have mem: "?g \<in> set (pending_guids db)" by simp
    have rec: "purge_loop stamps (n + 1) ?next = (m, db')"
      using "1.prems" False by (subst (asm) purge_loop.simps) (simp add: Let_def)
    have "pending_guids ?db \<noteq> []" using False by simp
    note IH = "1.IH" [OF refl this rec]
    have card: "card (set (pending_guids ?next)) + 1 = card (set (pending_guids db))"
      using card_Suc_Diff1 [OF _ mem] by (simp add: pending_after_purge)
    have trans: "same_bot_data g a c" if "same_bot_data g a b" "same_bot_data g b c" for g a b c
      using that by (simp add: same_bot_data_def)
    have same: "same_bot_data g db ?next" if "g \<noteq> ?g" for g
      using purge_bot_effect(2) [OF that, of ?db "stamps n"] by simp
    have none: "owns_nothing g ?next" if "owns_nothing g db \<or> g = ?g" for g
      using that purge_bot_effect(1,3) by auto
    have data: "if g \<in> set (pending_guids db) \<or> owns_nothing g db then owns_nothing g db'
          else same_bot_data g db db'" for g
    proof (cases "g = ?g")
      case True
      then have "owns_nothing g ?next" using none [of g] by blast
      then have "owns_nothing g db'" using IH by presburger
      then show ?thesis using True mem by simp
    next
      case other: False
      have owns: "owns_nothing g ?next = owns_nothing g db"
        using same [OF other] by (simp add: owns_nothing_def same_bot_data_def)
      have pend: "g \<in> set (pending_guids ?next) \<longleftrightarrow> g \<in> set (pending_guids db)"
        using other by (simp add: pending_after_purge)
      have "if g \<in> set (pending_guids ?next) \<or> owns_nothing g ?next then owns_nothing g db'
          else same_bot_data g ?next db'" using IH by blast
      then show ?thesis unfolding owns pend using trans [OF same [OF other]] by presburger
    qed
    have m: "m = n + card (set (pending_guids db))" using IH card by linarith
    have frames: "pending_guids db' = []" "daily_budget db' = daily_budget db"
      "reservations db' = reservations db" "next_reservation_id db' = next_reservation_id db"
      "runtime_control db' = runtime_control db"
      using IH [unfolded purge_bot_frames acquire_named_lock_frame] by iprover+
    show ?thesis by (intro conjI allI m frames data)
  qed
qed

text \<open>
  C25. The purge ends, and when it does every queued bot has been acknowledged and owns
  nothing any more, the returned count is the number of bots that were queued, no other bot has lost
  anything, and the ledger's tables are as they were.
\<close>

theorem purge_completes:
  "\<exists>n db'. purge_pending_bot_data stamps db = (n, db') \<and> n = card (set (pending_guids db)) \<and>
     pending_guids db' = [] \<and>
     (\<forall>g. if g \<in> set (pending_guids db) \<or> owns_nothing g db then owns_nothing g db'
          else same_bot_data g db db') \<and>
     daily_budget db' = daily_budget db \<and> reservations db' = reservations db \<and>
     runtime_control db' = runtime_control db"
proof -
  obtain n db' where p: "purge_loop stamps 0 db = (n, db')" by fastforce
  from purge_loop_effect [OF this] p show ?thesis
    unfolding purge_pending_bot_data_def by auto
qed

end
