(* ===== verification/Text_Codec.thy ===== *)
theory Text_Codec
  imports Prelude
begin

text \<open>
  UTF-8, as Python's \<open>str.encode\<close> and \<open>bytes.decode\<close> do it: strict, without overlong forms,
  surrogates or code points past U+10FFFF. A byte is a natural number.
\<close>

type_synonym bytes = "nat list"

definition is_surrogate :: "nat \<Rightarrow> bool" where
  "is_surrogate c \<longleftrightarrow> 55296 \<le> c \<and> c < 57344"

definition is_scalar :: "nat \<Rightarrow> bool" where
  "is_scalar c \<longleftrightarrow> c < 1114112 \<and> \<not> is_surrogate c"

section \<open>Encoding\<close>

definition encode_char :: "nat \<Rightarrow> bytes" where
  "encode_char c =
     (if c < 128 then [c]
      else if c < 2048 then [192 + c div 64, 128 + c mod 64]
      else if c < 65536 then [224 + c div 4096, 128 + c div 64 mod 64, 128 + c mod 64]
      else [240 + c div 262144, 128 + c div 4096 mod 64, 128 + c div 64 mod 64, 128 + c mod 64])"

text \<open>\<open>None\<close> is the \<open>UnicodeEncodeError\<close> of a lone surrogate.\<close>

definition utf8_encode :: "ustr \<Rightarrow> bytes option" where
  "utf8_encode s = (if list_all is_scalar s then Some (concat (map encode_char s)) else None)"

definition byte_length :: "ustr \<Rightarrow> nat" where
  "byte_length s = sum_list (map utf8_width s)"

section \<open>Decoding\<close>

definition is_continuation :: "nat \<Rightarrow> bool" where
  "is_continuation b \<longleftrightarrow> 128 \<le> b \<and> b < 192"

text \<open>
  One character: its code point and the bytes after it. Each length form is accepted only for the
  code points that need it.
\<close>

definition decode_char :: "bytes \<Rightarrow> (nat \<times> bytes) option" where
  "decode_char bs = (case bs of
     [] \<Rightarrow> None
   | b0 # r0 \<Rightarrow>
       if b0 < 128 then Some (b0, r0)
       else (case r0 of
         [] \<Rightarrow> None
       | b1 # r1 \<Rightarrow>
           if \<not> is_continuation b1 then None
           else if 192 \<le> b0 \<and> b0 < 224 then
             (let c = (b0 - 192) * 64 + (b1 - 128)
              in if 128 \<le> c then Some (c, r1) else None)
           else (case r1 of
             [] \<Rightarrow> None
           | b2 # r2 \<Rightarrow>
               if \<not> is_continuation b2 then None
               else if 224 \<le> b0 \<and> b0 < 240 then
                 (let c = (b0 - 224) * 4096 + (b1 - 128) * 64 + (b2 - 128)
                  in if 2048 \<le> c \<and> \<not> is_surrogate c then Some (c, r2) else None)
               else (case r2 of
                 [] \<Rightarrow> None
               | b3 # r3 \<Rightarrow>
                   if \<not> is_continuation b3 then None
                   else if 240 \<le> b0 \<and> b0 < 248 then
                     (let c = (b0 - 240) * 262144 + (b1 - 128) * 4096 + (b2 - 128) * 64 + (b3 - 128)
                      in if 65536 \<le> c \<and> c < 1114112 then Some (c, r3) else None)
                   else None))))"

lemma decode_char_shorter: "decode_char bs = Some (c, r) \<Longrightarrow> length r < length bs"
  by (auto simp: decode_char_def Let_def split: list.splits if_splits)

function utf8_decode :: "bytes \<Rightarrow> ustr option" where
  "utf8_decode bs =
     (if bs = [] then Some []
      else case decode_char bs of
        None \<Rightarrow> None
      | Some (c, r) \<Rightarrow> map_option ((#) c) (utf8_decode r))"
  by pat_completeness auto

termination
  by (relation "measure length") (auto dest: decode_char_shorter)

declare utf8_decode.simps [simp del]

section \<open>Facts\<close>

lemma length_encode_char: "length (encode_char c) = utf8_width c"
  by (simp add: encode_char_def utf8_width_def)

lemma length_utf8_encode: "utf8_encode s = Some bs \<Longrightarrow> length bs = byte_length s"
  by (auto simp: utf8_encode_def byte_length_def length_concat o_def length_encode_char
      split: if_splits)

lemma byte_length_append [simp]: "byte_length (s @ t) = byte_length s + byte_length t"
  by (simp add: byte_length_def)

lemma byte_length_simps [simp]:
  "byte_length [] = 0"
  "byte_length (c # s) = utf8_width c + byte_length s"
  by (simp_all add: byte_length_def)

lemma byte_length_concat: "byte_length (concat ss) = sum_list (map byte_length ss)"
  by (induction ss) simp_all

lemma length_le_byte_length: "length s \<le> byte_length s"
  unfolding byte_length_def by (rule sum_list_width_ge_length)

lemma decode_encode_char:
  assumes "is_scalar c"
  shows "decode_char (encode_char c @ r) = Some (c, r)"
proof -
  have c: "c < 1114112" "\<not> is_surrogate c" using assms by (auto simp: is_scalar_def)
  consider "c < 128" | "128 \<le> c" "c < 2048" | "2048 \<le> c" "c < 65536" | "65536 \<le> c" by linarith
  then show ?thesis
  proof cases
    case 2
    define q where "q = c div 64"
    have "q < 32" "q * 64 + c mod 64 = c" using 2 by (auto simp: q_def)
    then show ?thesis using 2
      by (simp add: encode_char_def decode_char_def is_continuation_def Let_def flip: q_def)
  next
    case 3
    have e: "c div 4096 = c div 64 div 64" by (simp add: div_mult2_eq [symmetric])
    have "c div 4096 < 16" using 3 by linarith
    moreover have "c div 64 div 64 * 64 + c div 64 mod 64 = c div 64" "c div 64 * 64 + c mod 64 = c"
      by simp_all
    then have "c div 4096 * 4096 + c div 64 mod 64 * 64 + c mod 64 = c" unfolding e by linarith
    ultimately show ?thesis using 3 c
      by (simp add: encode_char_def decode_char_def is_continuation_def Let_def)
  next
    case 4
    have e: "c div 262144 = c div 64 div 64 div 64" "c div 4096 = c div 64 div 64"
      by (simp_all add: div_mult2_eq [symmetric])
    have "c div 262144 < 8" using c by linarith
    moreover have "c div 64 div 64 div 64 * 64 + c div 64 div 64 mod 64 = c div 64 div 64"
      "c div 64 div 64 * 64 + c div 64 mod 64 = c div 64" "c div 64 * 64 + c mod 64 = c" by simp_all
    then have "c div 262144 * 262144 + c div 4096 mod 64 * 4096 + c div 64 mod 64 * 64 + c mod 64 = c"
      unfolding e by linarith
    ultimately show ?thesis using 4 c
      by (simp add: encode_char_def decode_char_def is_continuation_def Let_def)
  qed (simp add: encode_char_def decode_char_def)
qed

lemma encode_char_nonempty [simp]: "encode_char c \<noteq> []"
  by (simp add: encode_char_def)

lemma utf8_decode_encode:
  assumes "utf8_encode s = Some bs"
  shows "utf8_decode bs = Some s"
proof -
  have "utf8_decode (concat (map encode_char s)) = Some s" if "list_all is_scalar s" for s
    using that
  proof (induction s)
    case Nil
    then show ?case by (simp add: utf8_decode.simps)
  next
    case (Cons c s)
    then show ?case
      by (subst utf8_decode.simps) (simp add: decode_encode_char)
  qed
  then show ?thesis using assms by (auto simp: utf8_encode_def split: if_splits)
qed

lemma decode_char_scalar: "decode_char bs = Some (c, r) \<Longrightarrow> is_scalar c"
  by (auto simp: decode_char_def Let_def is_scalar_def is_surrogate_def is_continuation_def
      split: list.splits if_splits)

lemma utf8_decode_scalar: "utf8_decode bs = Some s \<Longrightarrow> list_all is_scalar s"
proof (induction bs arbitrary: s rule: utf8_decode.induct)
  case (1 bs)
  then show ?case
    by (subst (asm) (2) utf8_decode.simps)
      (auto split: if_splits option.splits dest: decode_char_scalar)
qed

end
