(* ===== verification/Json.thy ===== *)
theory Json
  imports Text_Codec Decimal_Text
begin

text \<open>
  The JSON of the bridge: what \<open>json.loads\<close> makes of a request payload (with the hook that refuses
  duplicate keys), and what \<open>json.dumps(..., ensure_ascii=False, separators=(",", ":"))\<close> writes for
  the flat payloads of the responses.
\<close>

section \<open>Values\<close>

datatype json =
    JNull
  | JBool bool
  | JInt int
  | JFloat ustr
  | JStr ustr
  | JArr "json list"
  | JObj "(ustr \<times> json) list"

text \<open>
  The outcomes of parsing besides a value: a \<open>ValueError\<close> (malformed text, a duplicate key, an
  integer past the interpreter's digit limit) and the \<open>RecursionError\<close> of a text nested deeper than
  the interpreter's limit. The last one is the fuel of the model, which is never exhausted.
\<close>

datatype json_error = JsonInvalid | JsonTooDeep | OutOfFuel

section \<open>Strings\<close>

definition is_ws :: "nat \<Rightarrow> bool" where
  "is_ws c \<longleftrightarrow> c = 32 \<or> c = 9 \<or> c = 10 \<or> c = 13"

definition skip_ws :: "ustr \<Rightarrow> ustr" where
  "skip_ws s = dropWhile is_ws s"

definition hex_val :: "nat \<Rightarrow> nat option" where
  "hex_val c = (if 48 \<le> c \<and> c \<le> 57 then Some (c - 48)
     else if 97 \<le> c \<and> c \<le> 102 then Some (c - 87)
     else if 65 \<le> c \<and> c \<le> 70 then Some (c - 55) else None)"

definition hex4 :: "nat \<Rightarrow> nat \<Rightarrow> nat \<Rightarrow> nat \<Rightarrow> nat option" where
  "hex4 a b c d = (case (hex_val a, hex_val b, hex_val c, hex_val d) of
     (Some a, Some b, Some c, Some d) \<Rightarrow> Some (((a * 16 + b) * 16 + c) * 16 + d)
   | _ \<Rightarrow> None)"

definition simple_escape :: "nat \<Rightarrow> nat option" where
  "simple_escape c = map_of [(34, 34), (92, 92), (47, 47), (98, 8), (102, 12), (110, 10), (114, 13),
     (116, 9)] c"

text \<open>The text after an opening quote, up to its closing quote, and what follows it.\<close>

fun scan_string :: "ustr \<Rightarrow> (ustr \<times> ustr) option" where
  "scan_string [] = None"
| "scan_string (c # r) =
     (if c = 34 then Some ([], r)
      else if c < 32 then None
      else if c \<noteq> 92 then map_option (\<lambda>(s, r). (c # s, r)) (scan_string r)
      else (case r of
        [] \<Rightarrow> None
      | e # r1 \<Rightarrow>
          if e = 117 then
            (case r1 of
               h1 # h2 # h3 # h4 # r2 \<Rightarrow>
                 (case hex4 h1 h2 h3 h4 of
                    None \<Rightarrow> None
                  | Some v \<Rightarrow> map_option (\<lambda>(s, r). (v # s, r)) (scan_string r2))
             | _ \<Rightarrow> None)
          else (case simple_escape e of
             None \<Rightarrow> None
           | Some v \<Rightarrow> map_option (\<lambda>(s, r). (v # s, r)) (scan_string r1))))"

text \<open>A high surrogate followed by a low one is one code point.\<close>

fun join_surrogates :: "ustr \<Rightarrow> ustr" where
  "join_surrogates (a # b # s) =
     (if 55296 \<le> a \<and> a < 56320 \<and> 56320 \<le> b \<and> b < 57344
      then (65536 + (a - 55296) * 1024 + (b - 56320)) # join_surrogates s
      else a # join_surrogates (b # s))"
| "join_surrogates s = s"

definition parse_string :: "ustr \<Rightarrow> json_error + ustr \<times> ustr" where
  "parse_string s = (case scan_string s of
     None \<Rightarrow> Inl JsonInvalid | Some (t, r) \<Rightarrow> Inr (join_surrogates t, r))"

section \<open>Numbers\<close>

definition is_udigit :: "nat \<Rightarrow> bool" where "is_udigit c \<longleftrightarrow> 48 \<le> c \<and> c \<le> 57"

definition udigits_val :: "ustr \<Rightarrow> nat" where
  "udigits_val s = foldl (\<lambda>a c. 10 * a + (c - 48)) 0 s"

definition max_int_digits :: nat where "max_int_digits = 4300"

text \<open>The fraction and the exponent of a number, when there are any.\<close>

definition take_fraction :: "ustr \<Rightarrow> ustr \<times> ustr" where
  "take_fraction s = (case s of
     p # d # _ \<Rightarrow> if p = 46 \<and> is_udigit d
       then (p # takeWhile is_udigit (tl s), dropWhile is_udigit (tl s)) else ([], s)
   | _ \<Rightarrow> ([], s))"

definition take_exponent :: "ustr \<Rightarrow> ustr \<times> ustr" where
  "take_exponent s = (case s of
     e # r \<Rightarrow>
       if e = 69 \<or> e = 101 then
         (let (sign, r1) = (case r of c # r' \<Rightarrow> if c = 43 \<or> c = 45 then ([c], r') else ([], r)
                                    | [] \<Rightarrow> ([], r));
              ds = takeWhile is_udigit r1
          in if ds = [] then ([], s) else (e # sign @ ds, dropWhile is_udigit r1))
       else ([], s)
   | [] \<Rightarrow> ([], s))"

definition take_minus :: "ustr \<Rightarrow> ustr \<times> ustr" where
  "take_minus s = (case s of c # r \<Rightarrow> if c = 45 then ([c], r) else ([], s) | [] \<Rightarrow> ([], s))"

definition take_integer :: "ustr \<Rightarrow> ustr \<times> ustr" where
  "take_integer s = (case s of
     [] \<Rightarrow> ([], s)
   | c # r \<Rightarrow> if c = 48 then ([c], r) else (takeWhile is_udigit s, dropWhile is_udigit s))"

definition parse_number :: "ustr \<Rightarrow> json_error + json \<times> ustr" where
  "parse_number s =
     (let (sign, r) = take_minus s; (ds, r1) = take_integer r;
          (frac, r2) = take_fraction r1; (expn, r3) = take_exponent r2
      in if ds = [] then Inl JsonInvalid
         else if frac = [] \<and> expn = [] then
           (if max_int_digits < length ds then Inl JsonInvalid
            else Inr (JInt ((if sign = [] then 1 else - 1) * int (udigits_val ds)), r1))
         else Inr (JFloat (sign @ ds @ frac @ expn), r3))"

text \<open>The constants, those that are not JSON but that \<open>json.loads\<close> accepts included.\<close>

definition constants :: "(ustr \<times> json) list" where
  "constants = [(u ''null'', JNull), (u ''true'', JBool True), (u ''false'', JBool False),
     (u ''NaN'', JFloat (u ''NaN'')), (u ''Infinity'', JFloat (u ''Infinity'')),
     (u ''-Infinity'', JFloat (u ''-Infinity''))]"

definition parse_constant :: "ustr \<Rightarrow> (json \<times> ustr) option" where
  "parse_constant s = (case find (\<lambda>(k, _). take (length k) s = k) constants of
     None \<Rightarrow> None | Some (k, v) \<Rightarrow> Some (v, drop (length k) s))"

section \<open>Values with their nesting\<close>

text \<open>The hook every object goes through: a repeated key is a \<open>ValueError\<close>.\<close>

definition unique_keys :: "(ustr \<times> json) list \<Rightarrow> bool" where
  [simp]: "unique_keys ms \<longleftrightarrow> distinct (map fst ms)"

text \<open>
  \<open>d\<close> is how many more containers may be open at once. A member list is the text after the brace and
  the white space that follows it.
\<close>

fun parse_value :: "nat \<Rightarrow> nat \<Rightarrow> ustr \<Rightarrow> json_error + json \<times> ustr"
and parse_elements :: "nat \<Rightarrow> nat \<Rightarrow> ustr \<Rightarrow> json_error + json list \<times> ustr"
and parse_members :: "nat \<Rightarrow> nat \<Rightarrow> ustr \<Rightarrow> json_error + (ustr \<times> json) list \<times> ustr" where
  "parse_value 0 d s = Inl OutOfFuel"
| "parse_value (Suc n) d s = (case s of
     [] \<Rightarrow> Inl JsonInvalid
   | c # r \<Rightarrow>
       if c = 34 then and_then (parse_string r) (\<lambda>(t, r). Inr (JStr t, r))
       else if c = 123 then
         (if d = 0 then Inl JsonTooDeep
          else (let r = skip_ws r in
            if r \<noteq> [] \<and> hd r = 125 then Inr (JObj [], tl r)
            else and_then (parse_members n (d - 1) r) (\<lambda>(ms, r).
              if unique_keys ms then Inr (JObj ms, r) else Inl JsonInvalid)))
       else if c = 91 then
         (if d = 0 then Inl JsonTooDeep
          else (let r = skip_ws r in
            if r \<noteq> [] \<and> hd r = 93 then Inr (JArr [], tl r)
            else and_then (parse_elements n (d - 1) r) (\<lambda>(vs, r). Inr (JArr vs, r))))
       else (case parse_constant s of
         Some res \<Rightarrow> Inr res
       | None \<Rightarrow> parse_number s))"
| "parse_elements 0 d s = Inl OutOfFuel"
| "parse_elements (Suc n) d s =
     and_then (parse_value n d s) (\<lambda>(v, r). (case skip_ws r of
       [] \<Rightarrow> Inl JsonInvalid
     | c # r \<Rightarrow>
         if c = 93 then Inr ([v], r)
         else if c = 44 then
           and_then (parse_elements n d (skip_ws r)) (\<lambda>(vs, r). Inr (v # vs, r))
         else Inl JsonInvalid))"
| "parse_members 0 d s = Inl OutOfFuel"
| "parse_members (Suc n) d s = (case s of
     [] \<Rightarrow> Inl JsonInvalid
   | q # r \<Rightarrow>
       if q \<noteq> 34 then Inl JsonInvalid
       else and_then (parse_string r) (\<lambda>(k, r). (case skip_ws r of
         [] \<Rightarrow> Inl JsonInvalid
       | c # r \<Rightarrow>
           if c \<noteq> 58 then Inl JsonInvalid
           else and_then (parse_value n d (skip_ws r)) (\<lambda>(v, r). (case skip_ws r of
             [] \<Rightarrow> Inl JsonInvalid
           | c # r \<Rightarrow>
               if c = 125 then Inr ([(k, v)], r)
               else if c = 44 then
                 and_then (parse_members n d (skip_ws r)) (\<lambda>(ms, r). Inr ((k, v) # ms, r))
               else Inl JsonInvalid)))))"

definition json_loads :: "nat \<Rightarrow> ustr \<Rightarrow> json_error + json" where
  "json_loads limit s =
     (if s \<noteq> [] \<and> hd s = 65279 then Inl JsonInvalid
      else and_then (parse_value (2 * length s + 1) limit (skip_ws s)) (\<lambda>(v, r).
        if skip_ws r = [] then Inr v else Inl JsonInvalid))"

section \<open>Writing\<close>

datatype payload_value = PInt int | PStr ustr

definition show_uint :: "int \<Rightarrow> ustr" where
  "show_uint n = (if n < 0 then [45] else []) @ u (show_nat (nat \<bar>n\<bar>))"

definition hex_code :: "nat \<Rightarrow> nat" where
  "hex_code d = (if d < 10 then 48 + d else 87 + d)"

definition escape_char :: "nat \<Rightarrow> ustr" where
  "escape_char c =
     (if c = 34 then [92, 34] else if c = 92 then [92, 92]
      else if c = 10 then [92, 110] else if c = 13 then [92, 114] else if c = 9 then [92, 116]
      else if c = 12 then [92, 102] else if c = 8 then [92, 98]
      else if c < 32 then [92, 117, 48, 48, hex_code (c div 16), hex_code (c mod 16)]
      else [c])"

definition quote_string :: "ustr \<Rightarrow> ustr" where
  "quote_string s = 34 # concat (map escape_char s) @ [34]"

fun dump_value :: "payload_value \<Rightarrow> ustr" where
  "dump_value (PInt n) = show_uint n"
| "dump_value (PStr s) = quote_string s"

type_synonym payload = "(ustr \<times> payload_value) list"

fun dump_members :: "payload \<Rightarrow> ustr" where
  "dump_members [] = []"
| "dump_members [(k, v)] = quote_string k @ 58 # dump_value v"
| "dump_members ((k, v) # ms) = quote_string k @ 58 # dump_value v @ 44 # dump_members ms"

definition json_dumps :: "payload \<Rightarrow> ustr" where
  "json_dumps p = 123 # dump_members p @ [125]"

section \<open>The parser ends\<close>

lemma skip_ws_shorter: "length (skip_ws s) \<le> length s"
  by (simp add: skip_ws_def length_dropWhile_le)

lemma scan_string_shorter: "scan_string s = Some (t, r) \<Longrightarrow> length r < length s"
proof (induction s arbitrary: t r rule: scan_string.induct)
  case (2 c cs)
  then show ?case
    by (fastforce split: if_splits list.splits option.splits)
qed simp

lemma parse_string_shorter: "parse_string s = Inr (t, r) \<Longrightarrow> length r < length s"
  by (auto simp: parse_string_def split: option.splits dest: scan_string_shorter)

lemma parse_constant_shorter: "parse_constant s = Some (v, r) \<Longrightarrow> length r < length s"
proof -
  assume "parse_constant s = Some (v, r)"
  then obtain k where k: "find (\<lambda>(k, _). take (length k) s = k) constants = Some (k, v)"
    "r = drop (length k) s" by (auto simp: parse_constant_def split: option.splits)
  then have "(k, v) \<in> set constants" "take (length k) s = k"
    by (auto simp: find_Some_iff) (metis nth_mem)
  then have "k \<noteq> []" "take (length k) s = k" by (auto simp: constants_def u_def)
  then have "s \<noteq> []" "0 < length k" by auto
  then show ?thesis using k(2) by (simp add: length_greater_0_conv)
qed

lemma take_fraction_shorter: "length (snd (take_fraction s)) \<le> length s"
  by (auto simp: take_fraction_def length_dropWhile_le le_SucI split: list.split)

lemma take_exponent_shorter: "length (snd (take_exponent s)) \<le> length s"
  by (auto simp: take_exponent_def Let_def le_SucI split: list.split
      intro: le_trans [OF length_dropWhile_le])

lemma take_minus_shorter: "length (snd (take_minus s)) \<le> length s"
  by (simp add: take_minus_def split: list.split)

lemma take_integer_shorter: "fst (take_integer s) \<noteq> [] \<Longrightarrow> length (snd (take_integer s)) < length s"
  by (auto simp: take_integer_def length_dropWhile_le le_imp_less_Suc split: list.splits if_splits)

lemma parse_number_shorter: "parse_number s = Inr (v, r) \<Longrightarrow> length r < length s"
proof -
  assume p: "parse_number s = Inr (v, r)"
  define r0 where "r0 = snd (take_minus s)"
  define r1 where "r1 = snd (take_integer r0)"
  have ds: "fst (take_integer r0) \<noteq> []" and "r = r1 \<or> r = snd (take_exponent (snd (take_fraction r1)))"
    using p by (auto simp: parse_number_def Let_def r0_def r1_def split: prod.splits if_splits)
  moreover have "length r1 < length r0" unfolding r1_def by (rule take_integer_shorter [OF ds])
  moreover have "length r0 \<le> length s" unfolding r0_def by (rule take_minus_shorter)
  moreover note take_fraction_shorter [of r1] take_exponent_shorter [of "snd (take_fraction r1)"]
  ultimately show ?thesis by auto
qed

lemma parse_shorter:
  "parse_value n d s = Inr (v, r) \<Longrightarrow> length r < length s"
  "parse_elements n d s = Inr (vs, r) \<Longrightarrow> length r < length s"
  "parse_members n d s = Inr (ms, r) \<Longrightarrow> length r < length s"
proof (induction n d s and n d s and n d s arbitrary: v r and vs r and ms r
    rule: parse_value_parse_elements_parse_members.induct)
  case (2 n d s)
  obtain c cs where s: "s = c # cs" using "2.prems" by (auto split: list.splits)
  have ws: "length (skip_ws cs) \<le> length cs" by (rule skip_ws_shorter)
  then have tl: "skip_ws cs \<noteq> [] \<Longrightarrow> length (tl (skip_ws cs)) < length s" by (simp add: s)
  consider "c = 34" | "c = 123" | "c = 91" | "c \<noteq> 34" "c \<noteq> 123" "c \<noteq> 91" by blast
  then show ?case
  proof cases
    case 1
    then show ?thesis using "2.prems"
      by (auto simp: s and_then_Inr_iff dest!: parse_string_shorter)
  next
    case 2
    then show ?thesis using "2.prems" "2.IH"(1) [OF s _ 2] tl ws
      by (fastforce simp: s Let_def and_then_Inr_iff split: if_splits)
  next
    case 3
    then show ?thesis using "2.prems" "2.IH"(2) [OF s _ _ 3] tl ws
      by (fastforce simp: s Let_def and_then_Inr_iff split: if_splits)
  next
    case 4
    then show ?thesis using "2.prems"
      by (auto simp: s split: option.splits dest: parse_constant_shorter parse_number_shorter)
  qed
next
  case (4 n d s)
  obtain v r1 where v: "parse_value n d s = Inr (v, r1)"
    and rest: "(case skip_ws r1 of [] \<Rightarrow> Inl JsonInvalid
     | c # r \<Rightarrow> if c = 93 then Inr ([v], r) else if c = 44 then
           and_then (parse_elements n d (skip_ws r)) (\<lambda>(vs, r). Inr (v # vs, r))
         else Inl JsonInvalid) = Inr (vs, r)"
    using "4.prems" by (auto simp: and_then_Inr_iff)
  have "length r1 < length s" by (rule "4.IH"(1) [OF v])
  moreover obtain c r2 where c: "skip_ws r1 = c # r2" using rest by (auto split: list.splits)
  moreover have "length (skip_ws r1) \<le> length r1" "length (skip_ws r2) \<le> length r2"
    by (rule skip_ws_shorter)+
  ultimately show ?case
    using rest "4.IH"(2) [OF c] by (fastforce simp: and_then_Inr_iff split: if_splits)
next
  case (6 n d s)
  obtain q cs where s: "s = q # cs" "q = 34" using "6.prems" by (auto split: list.splits if_splits)
  obtain k r1 where k: "parse_string cs = Inr (k, r1)" using "6.prems" s by (auto simp: and_then_Inr_iff)
  obtain c r2 where c: "skip_ws r1 = c # r2" "c = 58"
    using "6.prems" s k by (auto split: list.splits if_splits)
  obtain v r3 where v: "parse_value n d (skip_ws r2) = Inr (v, r3)"
    using "6.prems" s k c by (auto simp: and_then_Inr_iff)
  obtain e r4 where e: "skip_ws r3 = e # r4" using "6.prems" s k c v by (auto split: list.splits)
  have lens: "length r1 < length cs" "length (skip_ws r1) \<le> length r1"
    "length (skip_ws r2) \<le> length r2" "length (skip_ws r3) \<le> length r3"
    "length (skip_ws r4) \<le> length r4" "length r3 < length (skip_ws r2)"
    using parse_string_shorter [OF k] skip_ws_shorter
      "6.IH"(1) [OF s(1) _ c(1) _ v] s(2) c(2) by auto
  show ?case
    using "6.prems" s k c v e lens "6.IH"(2) [OF s(1) _ c(1) _ e]
    by (fastforce simp: and_then_Inr_iff split: if_splits)
qed simp_all

lemma parse_string_fuel: "parse_string s \<noteq> Inl OutOfFuel"
  by (simp add: parse_string_def split: option.splits)

lemma parse_number_fuel: "parse_number s \<noteq> Inl OutOfFuel"
  by (simp add: parse_number_def Let_def split: prod.splits)

lemma and_then_fuel:
  "r \<noteq> Inl OutOfFuel \<Longrightarrow> (\<And>x. r = Inr x \<Longrightarrow> f x \<noteq> Inl OutOfFuel) \<Longrightarrow> and_then r f \<noteq> Inl OutOfFuel"
  by (cases r) auto

lemma enough_fuel:
  "2 * length s + 1 \<le> n \<Longrightarrow> parse_value n d s \<noteq> Inl OutOfFuel"
  "2 * length s + 2 \<le> n \<Longrightarrow> parse_elements n d s \<noteq> Inl OutOfFuel"
  "2 * length s + 2 \<le> n \<Longrightarrow> parse_members n d s \<noteq> Inl OutOfFuel"
proof (induction n d s and n d s and n d s rule: parse_value_parse_elements_parse_members.induct)
  case (2 n d s)
  show ?case
  proof (cases s)
    case (Cons c cs)
    have len: "2 * length (skip_ws cs) + 2 \<le> n"
      using "2.prems" skip_ws_shorter [of cs] by (simp add: Cons)
    consider "c = 34" | "c = 123" | "c = 91" | "c \<noteq> 34" "c \<noteq> 123" "c \<noteq> 91" by blast
    then show ?thesis
    proof cases
      case 1
      then show ?thesis by (simp add: Cons) (intro and_then_fuel parse_string_fuel, auto)
    next
      case 2
      have rec: "d \<noteq> 0 \<Longrightarrow> \<not> (skip_ws cs \<noteq> [] \<and> hd (skip_ws cs) = 125) \<Longrightarrow>
          parse_members n (d - 1) (skip_ws cs) \<noteq> Inl OutOfFuel"
        using "2.IH"(1) [OF Cons _ 2 _ refl _ len] 2 by simp
      show ?thesis
      proof (cases "d = 0 \<or> skip_ws cs \<noteq> [] \<and> hd (skip_ws cs) = 125")
        case True
        then show ?thesis by (auto simp: Cons 2 Let_def)
      next
        case False
        then have "parse_value (Suc n) d s = and_then (parse_members n (d - 1) (skip_ws cs)) (\<lambda>(ms, r).
              if unique_keys ms then Inr (JObj ms, r) else Inl JsonInvalid)"
          by (auto simp: Cons 2 Let_def)
        also have "\<dots> \<noteq> Inl OutOfFuel" using False by (intro and_then_fuel rec) (auto split: if_splits)
        finally show ?thesis .
      qed
    next
      case 3
      have rec: "d \<noteq> 0 \<Longrightarrow> \<not> (skip_ws cs \<noteq> [] \<and> hd (skip_ws cs) = 93) \<Longrightarrow>
          parse_elements n (d - 1) (skip_ws cs) \<noteq> Inl OutOfFuel"
        using "2.IH"(2) [OF Cons _ _ 3 _ refl _ len] 3 by simp
      show ?thesis
      proof (cases "d = 0 \<or> skip_ws cs \<noteq> [] \<and> hd (skip_ws cs) = 93")
        case True
        then show ?thesis by (auto simp: Cons 3 Let_def)
      next
        case False
        then have "parse_value (Suc n) d s =
            and_then (parse_elements n (d - 1) (skip_ws cs)) (\<lambda>(vs, r). Inr (JArr vs, r))"
          by (auto simp: Cons 3 Let_def)
        also have "\<dots> \<noteq> Inl OutOfFuel" using False by (intro and_then_fuel rec) auto
        finally show ?thesis .
      qed
    next
      case 4
      then show ?thesis using parse_number_fuel [of s] by (simp add: Cons split: option.split)
    qed
  qed simp
next
  case (4 n d s)
  have "parse_value n d s \<noteq> Inl OutOfFuel" using "4.IH"(1) "4.prems" by simp
  moreover have rest: "parse_elements n d (skip_ws r2) \<noteq> Inl OutOfFuel"
    if v: "parse_value n d s = Inr (v, r1)" and c: "skip_ws r1 = c # r2" "c \<noteq> 93" "c = 44" for v r1 c r2
  proof (rule "4.IH"(2) [OF c])
    have "length r1 < length s" by (rule parse_shorter(1) [OF v])
    then show "2 * length (skip_ws r2) + 2 \<le> n"
      using "4.prems" skip_ws_shorter [of r1] skip_ws_shorter [of r2] c(1) by simp
  qed
  ultimately show ?case
    by (auto simp: and_then_Inl_iff split: list.splits if_splits dest: rest)
next
  case (6 n d s)
  show ?case
  proof (cases s)
    case (Cons q cs)
    have val: "parse_value n d (skip_ws r2) \<noteq> Inl OutOfFuel"
      if k: "parse_string cs = Inr (k, r1)" and c: "skip_ws r1 = c # r2" "\<not> c \<noteq> 58" and q: "\<not> q \<noteq> 34"
      for k r1 c r2
    proof (rule "6.IH"(1) [OF Cons q c])
      show "2 * length (skip_ws r2) + 1 \<le> n"
        using "6.prems" parse_string_shorter [OF k] skip_ws_shorter [of r1] skip_ws_shorter [of r2] c(1)
        by (simp add: Cons)
    qed
    have members: "parse_members n d (skip_ws r4) \<noteq> Inl OutOfFuel"
      if k: "parse_string cs = Inr (k, r1)" and c: "skip_ws r1 = c # r2" "\<not> c \<noteq> 58"
        and v: "parse_value n d (skip_ws r2) = Inr (v, r3)" and e: "skip_ws r3 = e # r4" "e \<noteq> 125" "e = 44"
        and q: "\<not> q \<noteq> 34"
      for k r1 c r2 v r3 e r4
    proof (rule "6.IH"(2) [OF Cons q c e])
      show "2 * length (skip_ws r4) + 2 \<le> n"
        using "6.prems" parse_string_shorter [OF k] skip_ws_shorter [of r1] skip_ws_shorter [of r2]
          skip_ws_shorter [of r3] skip_ws_shorter [of r4] parse_shorter(1) [OF v] c(1) e(1)
        by (simp add: Cons)
    qed
    show ?thesis
      using parse_string_fuel [of cs]
      by (auto simp: Cons and_then_Inl_iff split: list.splits if_splits dest: val members)
  qed simp
qed simp_all

text \<open>
  Parsing ends: the fuel the parser is given is enough for every text, so the
  only outcomes of \<open>json_loads\<close> are a value, a refused text or a text nested too deep.
\<close>

theorem parsing_terminates: "json_loads limit s \<noteq> Inl OutOfFuel"
proof -
  have "parse_value (2 * length s + 1) limit (skip_ws s) \<noteq> Inl OutOfFuel"
    by (rule enough_fuel(1)) (simp add: skip_ws_shorter)
  then have "and_then (parse_value (2 * length s + 1) limit (skip_ws s)) (\<lambda>(v, r).
      if skip_ws r = [] then Inr v else Inl JsonInvalid) \<noteq> Inl OutOfFuel"
    by (rule and_then_fuel) (auto split: if_splits)
  then show ?thesis by (simp add: json_loads_def del: parse_value.simps)
qed

section \<open>Nesting\<close>

lemma parse_array:
  "parse_value (Suc n) (Suc d) (91 # 91 # s) =
     and_then (parse_elements n d (91 # s)) (\<lambda>(vs, r). Inr (JArr vs, r))"
  by (simp add: Let_def skip_ws_def is_ws_def)

lemma too_deep:
  "2 * d + 1 \<le> n \<Longrightarrow> parse_value n d (replicate (Suc d) 91 @ s) = Inl JsonTooDeep"
proof (induction d arbitrary: n)
  case 0
  then show ?case by (cases n) auto
next
  case (Suc d)
  then obtain m where n: "n = Suc (Suc m)" "2 * d + 1 \<le> m"
    by (cases n; cases "n - 1") auto
  have "parse_value m d (91 # replicate d 91 @ s) = Inl JsonTooDeep"
    using Suc.IH [OF n(2)] by simp
  then have "parse_elements (Suc m) d (91 # replicate d 91 @ s) = Inl JsonTooDeep"
    by (simp del: parse_value.simps)
  moreover have "parse_value n (Suc d) (replicate (Suc (Suc d)) 91 @ s) =
      and_then (parse_elements (Suc m) d (91 # replicate d 91 @ s)) (\<lambda>(vs, r). Inr (JArr vs, r))"
    using parse_array [of "Suc m" d "replicate d 91 @ s"] by (simp add: n(1) del: parse_value.simps)
  ultimately show ?case by simp
qed

text \<open>
  A text that opens more arrays than the interpreter's limit is not a malformed text for
  \<open>json.loads\<close>, whatever follows.
\<close>

lemma too_deep_text:
  "json_loads limit (replicate (Suc limit) 91 @ s) = Inl JsonTooDeep"
proof -
  have ws: "skip_ws (replicate (Suc limit) 91 @ s) = replicate (Suc limit) 91 @ s"
    by (simp add: skip_ws_def is_ws_def)
  have "parse_value (2 * length (replicate (Suc limit) 91 @ s) + 1) limit
      (replicate (Suc limit) 91 @ s) = Inl JsonTooDeep"
    by (rule too_deep) simp
  then have "and_then (parse_value (2 * length (replicate (Suc limit) 91 @ s) + 1) limit
      (skip_ws (replicate (Suc limit) 91 @ s))) f = Inl JsonTooDeep" for f :: "json \<times> ustr \<Rightarrow> json_error + json"
    unfolding ws by (simp del: parse_value.simps)
  then show ?thesis by (simp add: json_loads_def del: parse_value.simps)
qed

section \<open>Reading back what was written\<close>

fun json_of :: "payload_value \<Rightarrow> json" where
  "json_of (PInt n) = JInt n"
| "json_of (PStr s) = JStr s"

definition json_of_payload :: "payload \<Rightarrow> json" where
  "json_of_payload p = JObj (map (\<lambda>(k, v). (k, json_of v)) p)"

fun writable :: "payload_value \<Rightarrow> bool" where
  "writable (PInt n) \<longleftrightarrow> length (show_nat (nat \<bar>n\<bar>)) \<le> max_int_digits"
| "writable (PStr s) \<longleftrightarrow> list_all is_scalar s"

lemma hex_val_code: "d < 16 \<Longrightarrow> hex_val (hex_code d) = Some d"
  by (auto simp: hex_val_def hex_code_def)

lemma scan_escaped_char:
  "scan_string (escape_char c @ r) = map_option (\<lambda>(s, r). (c # s, r)) (scan_string r)"
proof (cases "c < 32")
  case True
  then have "hex4 48 48 (hex_code (c div 16)) (hex_code (c mod 16)) = Some c"
    using hex_val_code [of "c div 16"] hex_val_code [of "c mod 16"]
    by (simp add: hex4_def hex_val_def)
  then show ?thesis using True by (simp add: escape_char_def simple_escape_def)
next
  case False
  then show ?thesis by (simp add: escape_char_def simple_escape_def)
qed

lemma scan_quoted: "scan_string (concat (map escape_char s) @ 34 # r) = Some (s, r)"
  by (induction s) (simp_all add: scan_escaped_char)

lemma join_scalar: "list_all is_scalar s \<Longrightarrow> join_surrogates s = s"
  by (induction s rule: join_surrogates.induct) (auto simp: is_scalar_def is_surrogate_def)

lemma parse_quoted:
  "list_all is_scalar s \<Longrightarrow> parse_string (concat (map escape_char s) @ 34 # r) = Inr (s, r)"
  by (simp add: parse_string_def scan_quoted join_scalar)

definition ends_number :: "ustr \<Rightarrow> bool" where
  "ends_number r \<longleftrightarrow> (case r of c # _ \<Rightarrow> c = 44 \<or> c = 125 | [] \<Rightarrow> False)"

lemma of_char_digit: "is_digit c \<Longrightarrow> is_udigit (of_char c) \<and> of_char c - (48 :: nat) = digit_val c"
  by (auto simp: is_digit_def is_udigit_def digit_val_def)

lemma u_show_nat:
  "list_all is_udigit (u (show_nat n))" "udigits_val (u (show_nat n)) = n" "u (show_nat n) \<noteq> []"
proof -
  have d: "\<forall>c \<in> set (show_nat n). is_digit c" by (rule show_nat_digits)
  then show "list_all is_udigit (u (show_nat n))"
    by (auto simp: u_def list_all_iff dest: of_char_digit)
  have "foldl (\<lambda>a c. 10 * a + (c - 48)) b (map of_char cs) = foldl (\<lambda>a c. 10 * a + digit_val c) b cs"
    if "\<forall>c \<in> set cs. is_digit c" for b cs
    using that by (induction cs arbitrary: b) (auto dest: of_char_digit)
  from this [OF d, of 0] show "udigits_val (u (show_nat n)) = n"
    using nat_of_digits_show_nat [of n] by (simp add: udigits_val_def u_def nat_of_digits_def)
qed (simp add: u_def)

lemma show_nat_leading_zero: "hd (show_nat n) = CHR ''0'' \<Longrightarrow> n = 0"
proof (induction n rule: show_nat.induct)
  case (1 n)
  show ?case
  proof (cases "n < 10")
    case True
    with "1.prems" have "digit_char n = CHR ''0''" by (subst (asm) show_nat.simps) simp
    then have "digit_val (digit_char n) = digit_val (CHR ''0'')" by simp
    with True show ?thesis by simp (simp add: digit_val_def)
  next
    case False
    with "1.prems" have "hd (show_nat (n div 10)) = CHR ''0''"
      by (subst (asm) show_nat.simps) simp
    with "1.IH" [OF False] False show ?thesis by simp
  qed
qed

lemma digits_then:
  assumes "list_all is_udigit ds" "ends_number r"
  shows "takeWhile is_udigit (ds @ r) = ds" "dropWhile is_udigit (ds @ r) = r"
proof -
  have "takeWhile is_udigit r = [] \<and> dropWhile is_udigit r = r"
    using assms(2) by (cases r) (auto simp: ends_number_def is_udigit_def)
  with assms(1) show "takeWhile is_udigit (ds @ r) = ds" "dropWhile is_udigit (ds @ r) = r"
    by (simp_all add: list_all_iff takeWhile_append dropWhile_append)
qed

lemma take_integer_show:
  assumes "ends_number r"
  shows "take_integer (u (show_nat n) @ r) = (u (show_nat n), r)"
proof (cases "u (show_nat n)")
  case Nil
  then show ?thesis using u_show_nat(3) [of n] by simp
next
  case (Cons c cs)
  note d = digits_then [OF u_show_nat(1) [of n] assms]
  show ?thesis
  proof (cases "c = 48")
    case True
    obtain k ks where k: "show_nat n = k # ks" by (cases "show_nat n") simp_all
    have "of_char k = (of_char (CHR ''0'') :: nat)" using Cons True k by (simp add: u_def)
    then have "k = CHR ''0''" by (simp only: of_char_eq_iff)
    then have "n = 0" using k show_nat_leading_zero [of n] by simp
    then have "cs = []" using Cons by (subst (asm) show_nat.simps) (simp add: u_def)
    then show ?thesis using True Cons by (simp add: take_integer_def)
  next
    case False
    then show ?thesis using d Cons by (simp add: take_integer_def)
  qed
qed

lemma no_fraction: "ends_number r \<Longrightarrow> take_fraction r = ([], r)"
  by (auto simp: ends_number_def take_fraction_def split: list.split)

lemma no_exponent: "ends_number r \<Longrightarrow> take_exponent r = ([], r)"
  by (auto simp: ends_number_def take_exponent_def split: list.split)

lemma take_minus_show: "take_minus (u (show_nat n) @ r) = ([], u (show_nat n) @ r)"
proof (cases "u (show_nat n)")
  case Nil
  then show ?thesis using u_show_nat(3) [of n] by simp
next
  case (Cons c cs)
  then have "is_udigit c" using u_show_nat(1) [of n] by simp
  then show ?thesis using Cons by (auto simp: take_minus_def is_udigit_def)
qed

lemma parse_number_show:
  assumes "ends_number r" "length (show_nat (nat \<bar>n\<bar>)) \<le> max_int_digits"
  shows "parse_number (show_uint n @ r) = Inr (JInt n, r)"
proof -
  let ?ds = "u (show_nat (nat \<bar>n\<bar>))"
  have len: "\<not> max_int_digits < length ?ds" using assms(2) by (simp add: u_def)
  note facts = take_integer_show [OF assms(1)] no_fraction [OF assms(1)] no_exponent [OF assms(1)]
    u_show_nat len
  show ?thesis
  proof (cases "n < 0")
    case True
    then have "show_uint n @ r = 45 # ?ds @ r" by (simp add: show_uint_def)
    then show ?thesis using True facts by (simp add: parse_number_def take_minus_def Let_def)
  next
    case False
    then have "show_uint n @ r = ?ds @ r" by (simp add: show_uint_def)
    then show ?thesis using False facts by (simp add: parse_number_def take_minus_show Let_def)
  qed
qed

lemma u_Cons: "u (c # cs) = of_char c # u cs" and u_Nil: "u [] = []"
  by (simp_all add: u_def)

lemma show_uint_head:
  obtains c cs where "show_uint n = c # cs" "is_udigit c"
  | c cs where "show_uint n = 45 # c # cs" "is_udigit c"
proof -
  obtain c cs where c: "u (show_nat (nat \<bar>n\<bar>)) = c # cs" "is_udigit c"
    using u_show_nat(1,3) [of "nat \<bar>n\<bar>"] by (cases "u (show_nat (nat \<bar>n\<bar>))") auto
  show thesis
    by (cases "n < 0") (use c in \<open>auto simp: show_uint_def intro: that\<close>)
qed

lemma no_constant_digit: "is_udigit c \<Longrightarrow> parse_constant (c # r) = None \<and> parse_constant (45 # c # r) = None"
  by (auto simp: parse_constant_def constants_def u_Cons u_Nil is_udigit_def)

lemma skip_ws_head: "c \<noteq> 32 \<Longrightarrow> c \<noteq> 9 \<Longrightarrow> c \<noteq> 10 \<Longrightarrow> c \<noteq> 13 \<Longrightarrow> skip_ws (c # r) = c # r"
  by (simp add: skip_ws_def is_ws_def)

lemma parse_dumped_value:
  assumes "writable v" "ends_number r"
  shows "parse_value (Suc n) d (dump_value v @ r) = Inr (json_of v, r) \<and>
    skip_ws (dump_value v @ r) = dump_value v @ r"
proof (cases v)
  case (PStr s)
  then show ?thesis using assms parse_quoted [of s r]
    by (simp add: quote_string_def skip_ws_head)
next
  case (PInt i)
  with assms have p: "parse_number (show_uint i @ r) = Inr (JInt i, r)"
    by (intro parse_number_show) auto
  show ?thesis
  proof (cases rule: show_uint_head [of i])
    case (1 c cs)
    then show ?thesis using p no_constant_digit [of c "cs @ r"] PInt
      by (auto simp: is_udigit_def skip_ws_head)
  next
    case (2 c cs)
    then show ?thesis using p no_constant_digit [of c "cs @ r"] PInt
      by (auto simp: skip_ws_head)
  qed
qed

lemma parse_dumped_members:
  assumes "ms \<noteq> []" "list_all (\<lambda>(k, v). list_all is_scalar k \<and> writable v) ms" "length ms < n"
  shows "parse_members n d (dump_members ms @ 125 # r) =
    Inr (map (\<lambda>(k, v). (k, json_of v)) ms, r) \<and>
    hd (dump_members ms @ 125 # r) = 34"
  using assms
proof (induction ms arbitrary: n rule: dump_members.induct)
  case (2 k v)
  obtain m where n: "n = Suc (Suc m)" using "2.prems"(3) by (cases n; cases "n - 1") auto
  have q: "parse_string (concat (map escape_char k) @ 34 # 58 # dump_value v @ 125 # r) =
      Inr (k, 58 # dump_value v @ 125 # r)" using "2.prems" by (intro parse_quoted) simp
  have "ends_number (125 # r)" by (simp add: ends_number_def)
  with "2.prems" have "parse_value (Suc m) d (dump_value v @ 125 # r) = Inr (json_of v, 125 # r)"
    "skip_ws (dump_value v @ 125 # r) = dump_value v @ 125 # r"
    using parse_dumped_value [of v "125 # r" m d] by simp_all
  then show ?case using q by (simp add: n quote_string_def skip_ws_head del: parse_value.simps)
next
  case (3 k v kv ms)
  let ?rest = "dump_members (kv # ms) @ 125 # r"
  obtain m where n: "n = Suc (Suc m)" "length (kv # ms) < Suc m"
    using "3.prems"(3) by (cases n; cases "n - 1") auto
  have rec: "parse_members (Suc m) d ?rest = Inr (map (\<lambda>(k, v). (k, json_of v)) (kv # ms), r)"
    "hd ?rest = 34"
    using "3.IH" [OF _ _ n(2)] "3.prems"(2) by simp_all
  moreover have "?rest \<noteq> []" by simp
  ultimately have ws: "skip_ws ?rest = ?rest"
    by (cases ?rest) (simp_all add: skip_ws_head)
  have q: "parse_string (concat (map escape_char k) @ 34 # 58 # dump_value v @ 44 # ?rest) =
      Inr (k, 58 # dump_value v @ 44 # ?rest)" using "3.prems" by (intro parse_quoted) simp
  have "ends_number (44 # ?rest)" by (simp add: ends_number_def)
  with "3.prems" have "parse_value (Suc m) d (dump_value v @ 44 # ?rest) = Inr (json_of v, 44 # ?rest)"
    "skip_ws (dump_value v @ 44 # ?rest) = dump_value v @ 44 # ?rest"
    using parse_dumped_value [of v "44 # ?rest" m d] by simp_all
  then show ?case using q rec(1) ws
    by (simp add: n quote_string_def skip_ws_head del: parse_value.simps dump_members.simps(2))
qed simp

lemma length_dump_members: "length ms \<le> length (dump_members ms)"
  by (induction ms rule: dump_members.induct) (simp_all add: quote_string_def)

lemma json_loads_dumps:
  assumes "distinct (map fst p)" "list_all (\<lambda>(k, v). list_all is_scalar k \<and> writable v) p" "0 < limit"
  shows "json_loads limit (json_dumps p) = Inr (json_of_payload p)"
proof -
  obtain d where d: "limit = Suc d" using assms(3) by (cases limit) auto
  let ?s = "json_dumps p"
  have ws: "skip_ws ?s = ?s" "skip_ws [] = []" by (simp_all add: json_dumps_def skip_ws_head) (simp add: skip_ws_def)
  have keys: "fst \<circ> (\<lambda>(k, v). (k, json_of v)) = (fst :: ustr \<times> payload_value \<Rightarrow> ustr)" by auto
  have "parse_value (2 * length ?s + 1) limit ?s = Inr (json_of_payload p, [])"
  proof (cases "p = []")
    case True
    then have s: "?s = [123, 125]" by (simp add: json_dumps_def)
    have "parse_value (Suc n) (Suc d) [123, 125] = Inr (JObj [], [])" for n
      by (simp add: Let_def skip_ws_head)
    from this [of 4] show ?thesis
      unfolding s d using True by (simp add: json_of_payload_def del: parse_value.simps)
  next
    case False
    have "length p < 2 * length ?s"
      using length_dump_members [of p] by (simp add: json_dumps_def)
    from parse_dumped_members [OF False assms(2) this, of d "[]"]
    have m: "parse_members (2 * length ?s) d (dump_members p @ [125]) =
        Inr (map (\<lambda>(k, v). (k, json_of v)) p, [])" "hd (dump_members p @ [125]) = 34" by simp_all
    then have "skip_ws (dump_members p @ [125]) = dump_members p @ [125]"
      by (cases "dump_members p @ [125]") (simp_all add: skip_ws_head)
    then have "parse_value (Suc (2 * length ?s)) (Suc d) (123 # dump_members p @ [125]) =
        Inr (json_of_payload p, [])"
      using m assms(1) keys by (simp add: Let_def json_of_payload_def)
    then show ?thesis by (simp add: d json_dumps_def [of p] del: parse_value.simps)
  qed
  then have "and_then (parse_value (2 * length ?s + 1) limit (skip_ws ?s)) (\<lambda>(v, r).
      if skip_ws r = [] then Inr v else Inl JsonInvalid) = Inr (json_of_payload p)"
    unfolding ws(1) using ws(2) by simp
  moreover have "hd ?s \<noteq> 65279" by (simp add: json_dumps_def)
  ultimately show ?thesis unfolding json_loads_def by (simp del: parse_value.simps)
qed

text \<open>
  What the bridge writes it can read: the text written for a payload with
  distinct keys parses back to exactly that payload, key by key and in order, whatever its strings
  hold (quotes, backslashes and control characters included), as long as its integers are shorter
  than the interpreter's digit limit.
\<close>

theorem payload_roundtrip:
  assumes "distinct (map fst p)" "list_all (\<lambda>(k, v). list_all is_scalar k \<and> writable v) p" "0 < limit"
  shows "json_loads limit (json_dumps p) = Inr (json_of_payload p)"
  using json_loads_dumps [OF assms] .

theorem payload_roundtrip_witness:
  "json_loads 1 (json_dumps [(u ''reply'', PStr [34, 92, 10, 7, 128512]), (u ''version'', PInt (- 6))]) =
     Inr (JObj [(u ''reply'', JStr [34, 92, 10, 7, 128512]), (u ''version'', JInt (- 6))])"
proof -
  have n: "length (show_nat 6) = 1" by (subst show_nat.simps) simp
  have "json_loads 1 (json_dumps [(u ''reply'', PStr [34, 92, 10, 7, 128512]), (u ''version'', PInt (- 6))])
      = Inr (json_of_payload [(u ''reply'', PStr [34, 92, 10, 7, 128512]), (u ''version'', PInt (- 6))])"
    by (rule payload_roundtrip)
      (simp_all add: u_Cons u_Nil n is_scalar_def is_surrogate_def max_int_digits_def)
  then show ?thesis by (simp add: json_of_payload_def)
qed

end
