(* ===== verification/Wire.thy ===== *)
theory Wire
  imports Json
begin

text \<open>
  The bottom of the bridge protocol (\<open>protocol.py\<close>): frames, the bounds every string of a payload is
  held to, character names, bridge tokens, and the first steps of every parser, from the bytes of a
  frame to the members of one JSON object.
\<close>

section \<open>The interpreter\<close>

text \<open>
  What the protocol takes from Python and pydantic as data: the general categories of characters
  (\<open>unicodedata.category\<close> starting with \<open>L\<close> or \<open>M\<close>), \<open>str.isdigit\<close>, how deep \<open>json.loads\<close> may nest, and
  the integer a value that is not an \<open>int\<close> is taken for when it is looked up in an integer \<open>Literal\<close>.
\<close>

record interpreter =
  py_letter :: "nat \<Rightarrow> bool"
  py_mark :: "nat \<Rightarrow> bool"
  py_digit :: "nat \<Rightarrow> bool"
  py_nesting :: nat
  py_literal_int :: "json \<Rightarrow> int option"

text \<open>The exceptions that leave the protocol functions.\<close>

datatype protocol_error = ProtocolError | TokenMismatchError | RecursionRaised | UnicodeRaised

section \<open>Constants\<close>

definition schema_version :: int where "schema_version = 6"
definition social_schema_version :: int where "social_schema_version = 9"
definition max_frame_payload_bytes :: nat where "max_frame_payload_bytes = 64 * 1024"
definition max_request_message_bytes :: nat where "max_request_message_bytes = 512"
definition max_career_message_bytes :: nat where "max_career_message_bytes = 60 * 1024"
definition max_response_message_bytes :: nat where "max_response_message_bytes = 240"
definition max_actor_name_bytes :: nat where "max_actor_name_bytes = 48"
definition max_social_context_bytes :: nat where "max_social_context_bytes = 4 * 1024"
definition max_thread_id_bytes :: nat where "max_thread_id_bytes = 64"
definition max_social_bot_zone_bytes :: nat where "max_social_bot_zone_bytes = 64"
definition max_social_model_bytes :: nat where "max_social_model_bytes = 64"
definition max_social_evidence_entries :: nat where "max_social_evidence_entries = 24"
definition max_social_evidence_value_bytes :: nat where "max_social_evidence_value_bytes = 128"
definition max_social_evidence_envelope_bytes :: nat where
  "max_social_evidence_envelope_bytes = 2 * 1024"
definition max_career_summary_bytes :: nat where "max_career_summary_bytes = 160"
definition min_bridge_token_bytes :: nat where "min_bridge_token_bytes = 32"
definition max_bridge_token_bytes :: nat where "max_bridge_token_bytes = 256"
definition max_social_active_expansion :: int where "max_social_active_expansion = 2"
definition max_player_name_characters :: nat where "max_player_name_characters = 12"
definition max_social_context_entries :: nat where "max_social_context_entries = 12"
definition max_extracted_memories :: nat where "max_extracted_memories = 4"
definition max_social_context_entry_bytes :: nat where "max_social_context_entry_bytes = 512"
definition max_biography_field_bytes :: nat where "max_biography_field_bytes = 240"
definition uint64_max :: int where "uint64_max = 2 ^ 64 - 1"
definition ambient_event_kind :: int where "ambient_event_kind = 4"
definition career_event_kind :: int where "career_event_kind = 5"
definition ambient_event_marker :: ustr where "ambient_event_marker = u ''ambient_world''"
definition social_channel_count :: int where "social_channel_count = 4"

lemmas wire_bounds = max_frame_payload_bytes_def max_request_message_bytes_def
  max_career_message_bytes_def max_response_message_bytes_def max_actor_name_bytes_def
  max_social_context_bytes_def max_thread_id_bytes_def max_social_bot_zone_bytes_def
  max_social_model_bytes_def max_social_evidence_entries_def max_social_evidence_value_bytes_def
  max_social_evidence_envelope_bytes_def max_career_summary_bytes_def min_bridge_token_bytes_def
  max_bridge_token_bytes_def max_player_name_characters_def max_social_context_entries_def
  max_extracted_memories_def max_social_context_entry_bytes_def max_biography_field_bytes_def

section \<open>Frames\<close>

text \<open>
  A frame is its length in four bytes, the most significant first, and the payload. A stream is the
  bytes it delivers before it ends; \<open>readexactly\<close> fails when fewer are left than asked for.
\<close>

datatype frame_error = FrameError

definition pack_length :: "nat \<Rightarrow> bytes" where
  "pack_length n = [n div 16777216 mod 256, n div 65536 mod 256, n div 256 mod 256, n mod 256]"

definition unpack_length :: "bytes \<Rightarrow> nat" where
  "unpack_length bs = foldl (\<lambda>a b. 256 * a + b) 0 bs"

definition encode_frame :: "bytes \<Rightarrow> frame_error + bytes" where
  "encode_frame payload =
     (if max_frame_payload_bytes < length payload then Inl FrameError
      else Inr (pack_length (length payload) @ payload))"

definition readexactly :: "nat \<Rightarrow> bytes \<Rightarrow> (bytes \<times> bytes) option" where
  "readexactly n stream = (if length stream < n then None else Some (take n stream, drop n stream))"

definition read_frame :: "bytes \<Rightarrow> frame_error + bytes \<times> bytes" where
  "read_frame stream = (case readexactly 4 stream of
     None \<Rightarrow> Inl FrameError
   | Some (header, rest) \<Rightarrow>
       (let len = unpack_length header
        in if max_frame_payload_bytes < len then Inl FrameError
           else case readexactly len rest of
             None \<Rightarrow> Inl FrameError
           | Some res \<Rightarrow> Inr res))"

section \<open>Bounded text\<close>

text \<open>
  A length in UTF-8 bytes exists only for text that can be encoded; \<open>UnicodeEncodeError\<close> is a
  \<open>ValueError\<close>, so a field validator that meets it refuses the field.
\<close>

definition bytes_within :: "nat \<Rightarrow> ustr \<Rightarrow> bool" where
  "bytes_within n s \<longleftrightarrow> list_all is_scalar s \<and> byte_length s \<le> n"

text \<open>A string constrained in characters, which pydantic also wants to be encodable.\<close>

definition chars_within :: "nat \<Rightarrow> nat \<Rightarrow> ustr \<Rightarrow> bool" where
  "chars_within lo hi s \<longleftrightarrow> list_all is_scalar s \<and> lo \<le> length s \<and> length s \<le> hi"

definition valid_token :: "ustr \<Rightarrow> bool" where
  "valid_token s \<longleftrightarrow> bytes_within max_bridge_token_bytes s \<and> min_bridge_token_bytes \<le> byte_length s"

definition encoder_token :: "ustr \<Rightarrow> protocol_error + ustr" where
  "encoder_token s = (if valid_token s then Inr s else Inl ProtocolError)"

definition actor_name_is_usable :: "interpreter \<Rightarrow> ustr \<Rightarrow> bool" where
  "actor_name_is_usable env s = (case s of
     [] \<Rightarrow> False
   | c # r \<Rightarrow> length s \<le> max_player_name_characters \<and> py_letter env c \<and>
       list_all (\<lambda>c. py_letter env c \<or> py_mark env c) r)"

text \<open>\<open>str.removeprefix\<close>.\<close>

definition remove_prefix :: "ustr \<Rightarrow> ustr \<Rightarrow> ustr" where
  "remove_prefix p s = (if take (length p) s = p then drop (length p) s else s)"

definition hex_digit :: "nat \<Rightarrow> bool" where
  "hex_digit c \<longleftrightarrow> c \<in> set (u ''0123456789abcdef'')"

definition event_public_id_is_valid :: "ustr \<Rightarrow> bool" where
  "event_public_id_is_valid s =
     (let body = remove_prefix (u ''evt_'') s
      in length s = 36 \<and> length body = 32 \<and> list_all hex_digit body)"

text \<open>The characters \<open>str.strip\<close> removes, and a text that is not blank.\<close>

definition py_space :: "nat \<Rightarrow> bool" where
  "py_space c \<longleftrightarrow> 9 \<le> c \<and> c \<le> 13 \<or> 28 \<le> c \<and> c \<le> 32 \<or> c = 133 \<or> c = 160 \<or> c = 5760 \<or>
     8192 \<le> c \<and> c \<le> 8202 \<or> c = 8232 \<or> c = 8233 \<or> c = 8239 \<or> c = 8287 \<or> c = 12288"

definition py_strip :: "ustr \<Rightarrow> ustr" where
  "py_strip s = rev (dropWhile py_space (rev (dropWhile py_space s)))"

definition single_line :: "ustr \<Rightarrow> bool" where
  "single_line s \<longleftrightarrow> list_all (\<lambda>c. 32 \<le> c) s"

section \<open>From a frame to the members of an object\<close>

type_synonym members = "(ustr \<times> json) list"

definition load_object :: "interpreter \<Rightarrow> bytes \<Rightarrow> protocol_error + members" where
  "load_object env payload = (case utf8_decode payload of
     None \<Rightarrow> Inl ProtocolError
   | Some text \<Rightarrow>
       (case json_loads (py_nesting env) text of
          Inl JsonTooDeep \<Rightarrow> Inl RecursionRaised
        | Inl _ \<Rightarrow> Inl ProtocolError
        | Inr (JObj ms) \<Rightarrow> Inr ms
        | Inr _ \<Rightarrow> Inl ProtocolError))"

definition declared_kind :: "interpreter \<Rightarrow> bytes \<Rightarrow> protocol_error + ustr option" where
  "declared_kind env payload = and_then (load_object env payload) (\<lambda>ms.
     case map_of ms (u ''kind'') of
       None \<Rightarrow> Inr None
     | Some JNull \<Rightarrow> Inr None
     | Some (JStr k) \<Rightarrow> Inr (Some k)
     | Some _ \<Rightarrow> Inl ProtocolError)"

section \<open>Facts about frames\<close>

lemma unpack_pack: "n < 4294967296 \<Longrightarrow> unpack_length (pack_length n) = n"
proof -
  assume n: "n < 4294967296"
  have e: "n div 65536 = n div 256 div 256" "n div 16777216 = n div 256 div 256 div 256"
    by (simp_all add: div_mult2_eq [symmetric])
  have "n div 256 div 256 div 256 < 256" using n by linarith
  moreover have "n div 256 * 256 + n mod 256 = n"
    "n div 256 div 256 * 256 + n div 256 mod 256 = n div 256"
    "n div 256 div 256 div 256 * 256 + n div 256 div 256 mod 256 = n div 256 div 256" by simp_all
  ultimately show ?thesis
    unfolding unpack_length_def pack_length_def e by simp
qed

lemma pack_length_bytes: "length (pack_length n) = 4" "list_all (\<lambda>b. b < 256) (pack_length n)"
  by (simp_all add: pack_length_def)

lemma read_encoded_frame:
  assumes "encode_frame p = Inr f"
  shows "read_frame (f @ rest) = Inr (p, rest)"
proof -
  have p: "length p \<le> max_frame_payload_bytes" "f = pack_length (length p) @ p"
    using assms by (auto simp: encode_frame_def split: if_splits)
  then have "unpack_length (pack_length (length p)) = length p"
    by (intro unpack_pack) (simp add: max_frame_payload_bytes_def)
  with p show ?thesis by (simp add: read_frame_def readexactly_def pack_length_bytes Let_def)
qed

lemma read_frame_consumes:
  assumes "read_frame s = Inr (p, r)"
  shows "length s = 4 + length p + length r \<and> length p \<le> max_frame_payload_bytes"
  using assms
  by (auto simp: read_frame_def readexactly_def Let_def split: if_splits)

text \<open>Reading frames until one cannot be read: the payloads, in order.\<close>

function read_frames :: "bytes \<Rightarrow> bytes list" where
  "read_frames s = (case read_frame s of Inl _ \<Rightarrow> [] | Inr (p, r) \<Rightarrow> p # read_frames r)"
  by pat_completeness auto

termination
  by (relation "measure length") (auto dest: read_frame_consumes)

declare read_frames.simps [simp del]

text \<open>
  C32. Framing loses nothing and runs nothing together: reading a stream of encoded
  frames gives back exactly their payloads, in order, and stops at whatever follows that is not a
  whole frame. A payload is refused by the writer exactly when it is longer than 64 KiB, and a header
  that announces more than that is refused by the reader before a byte of the payload is read.
\<close>

theorem frames_roundtrip:
  assumes "list_all2 (\<lambda>p f. encode_frame p = Inr f) ps fs" "read_frame rest = Inl e"
  shows "read_frames (concat fs @ rest) = ps \<and>
    (encode_frame q = Inl FrameError \<longleftrightarrow> 65536 < length q) \<and>
    (65536 < n \<and> n < 4294967296 \<longrightarrow> read_frame (pack_length n @ any) = Inl FrameError)"
proof -
  have "read_frames (concat fs @ rest) = ps"
    using assms(1)
  proof (induction rule: list_all2_induct)
    case Nil
    show ?case using assms(2) by (simp add: read_frames.simps)
  next
    case (Cons p ps f fs)
    then show ?case by (subst read_frames.simps) (simp add: read_encoded_frame)
  qed
  moreover have "encode_frame q = Inl FrameError \<longleftrightarrow> 65536 < length q"
    by (simp add: encode_frame_def max_frame_payload_bytes_def)
  moreover have "65536 < n \<and> n < 4294967296 \<longrightarrow> read_frame (pack_length n @ any) = Inl FrameError"
    using unpack_pack [of n]
    by (simp add: read_frame_def readexactly_def pack_length_bytes max_frame_payload_bytes_def Let_def)
  ultimately show ?thesis by blast
qed

theorem frames_roundtrip_witness:
  "read_frames ([0, 0, 0, 2, 123, 125] @ [0, 0, 0, 0] @ [0, 1]) = [[123, 125], []]"
proof -
  have "read_frames (concat [[0, 0, 0, 2, 123, 125], [0, 0, 0, 0]] @ [0, 1]) = [[123, 125], []] \<and>
    (encode_frame [] = Inl FrameError \<longleftrightarrow> 65536 < length ([] :: bytes)) \<and>
    (65536 < (70000 :: nat) \<and> 70000 < (4294967296 :: nat) \<longrightarrow>
      read_frame (pack_length 70000 @ []) = Inl FrameError)"
    by (rule frames_roundtrip [where e = FrameError])
      (simp_all add: encode_frame_def pack_length_def max_frame_payload_bytes_def read_frame_def
        readexactly_def)
  then show ?thesis by simp
qed

section \<open>Facts about the first steps\<close>

text \<open>
  A payload nested deeper than the interpreter allows is not
  answered with the \<open>ProtocolError\<close> the connection handler knows: whatever the deep text is made of
  after its opening brackets, and before any token has been looked at, reading its kind raises
  \<open>RecursionError\<close>. When the limit is below 64 Ki, such a payload fits in one frame.
\<close>

theorem nesting_escapes_every_parser:
  assumes "list_all is_scalar s"
  shows "declared_kind env (concat (map encode_char (replicate (Suc (py_nesting env)) 91 @ s))) =
      Inl RecursionRaised \<and>
    (py_nesting env < 65536 \<longrightarrow>
      (\<exists>f. encode_frame (replicate (Suc (py_nesting env)) 91) = Inr f) \<and>
      declared_kind env (replicate (Suc (py_nesting env)) 91) = Inl RecursionRaised)"
proof -
  have scalar: "is_scalar 91" by (simp add: is_scalar_def is_surrogate_def)
  have deep: "declared_kind env (concat (map encode_char (replicate (Suc (py_nesting env)) 91 @ t))) =
      Inl RecursionRaised" if "list_all is_scalar t" for t
  proof -
    let ?t = "replicate (Suc (py_nesting env)) 91 @ t"
    have "list_all is_scalar ?t" using that scalar by (auto simp: list_all_iff)
    then have "utf8_encode ?t = Some (concat (map encode_char ?t))" by (simp only: utf8_encode_def if_True)
    then have "utf8_decode (concat (map encode_char ?t)) = Some ?t" by (rule utf8_decode_encode)
    then show ?thesis
      by (simp only: declared_kind_def load_object_def option.case too_deep_text sum.case
          json_error.case and_then_simps)
  qed
  have e: "encode_char 91 = [91]" by (simp add: encode_char_def)
  have flat: "concat (map encode_char (replicate n 91)) = replicate n 91" for n
    by (induction n) (simp_all add: e)
  show ?thesis
    using deep [OF assms] deep [of "[]"] flat [of "Suc (py_nesting env)"]
    by (simp add: encode_frame_def max_frame_payload_bytes_def del: replicate.simps)
qed

theorem nesting_escapes_every_parser_witness:
  "declared_kind \<lparr>py_letter = (\<lambda>_. False), py_mark = (\<lambda>_. False), py_digit = (\<lambda>_. False),
     py_nesting = 1, py_literal_int = (\<lambda>_. None)\<rparr> [91, 91, 48] = Inl RecursionRaised"
proof -
  let ?env = "\<lparr>py_letter = (\<lambda>_. False), py_mark = (\<lambda>_. False), py_digit = (\<lambda>_. False),
     py_nesting = 1, py_literal_int = (\<lambda>_. None)\<rparr>"
  have "list_all is_scalar [48]" by (simp add: is_scalar_def is_surrogate_def)
  from nesting_escapes_every_parser [OF this, of ?env]
  show ?thesis by (simp add: encode_char_def)
qed

end
