(* ===== verification/Field_Checks.thy ===== *)
theory Field_Checks
  imports Wire "HOL-Library.Monad_Syntax"
begin

text \<open>
  Strict validation of the members of a JSON object, as the pydantic models of \<open>protocol.py\<close> do it
  (\<open>extra="forbid"\<close>, \<open>strict=True\<close>): every named member is there, no other is, and every value has
  exactly the declared type. A validator gives the validated value or \<open>None\<close> for a \<open>ValidationError\<close>.
\<close>

section \<open>Members\<close>

definition has_fields :: "ustr list \<Rightarrow> ustr list \<Rightarrow> members \<Rightarrow> bool" where
  "has_fields required optional ms \<longleftrightarrow>
     list_all (\<lambda>k. k \<in> set (map fst ms)) required \<and>
     list_all (\<lambda>(k, _). k \<in> set required \<or> k \<in> set optional) ms"

definition guarded :: "bool \<Rightarrow> unit option" where
  "guarded b = (if b then Some () else None)"

section \<open>Values\<close>

definition json_text :: "(ustr \<Rightarrow> bool) \<Rightarrow> json \<Rightarrow> ustr option" where
  "json_text P v = (case v of JStr s \<Rightarrow> if P s then Some s else None | _ \<Rightarrow> None)"

definition json_int :: "int \<Rightarrow> int \<Rightarrow> json \<Rightarrow> int option" where
  "json_int lo hi v = (case v of JInt n \<Rightarrow> if lo \<le> n \<and> n \<le> hi then Some n else None | _ \<Rightarrow> None)"

definition json_choice :: "(ustr \<times> 'a) list \<Rightarrow> json \<Rightarrow> 'a option" where
  "json_choice choices v = (case v of JStr s \<Rightarrow> map_of choices s | _ \<Rightarrow> None)"

definition json_list :: "(json \<Rightarrow> 'a option) \<Rightarrow> nat \<Rightarrow> nat \<Rightarrow> json \<Rightarrow> 'a list option" where
  "json_list f lo hi v = (case v of
     JArr vs \<Rightarrow> if lo \<le> length vs \<and> length vs \<le> hi then those (map f vs) else None
   | _ \<Rightarrow> None)"

definition json_members :: "(members \<Rightarrow> 'a option) \<Rightarrow> json \<Rightarrow> 'a option" where
  "json_members f v = (case v of JObj ms \<Rightarrow> f ms | _ \<Rightarrow> None)"

section \<open>Fields\<close>

definition field :: "(json \<Rightarrow> 'a option) \<Rightarrow> ustr \<Rightarrow> members \<Rightarrow> 'a option" where
  "field f k ms = Option.bind (map_of ms k) f"

definition text_field :: "(ustr \<Rightarrow> bool) \<Rightarrow> ustr \<Rightarrow> members \<Rightarrow> ustr option" where
  "text_field P = field (json_text P)"

definition int_field :: "int \<Rightarrow> int \<Rightarrow> ustr \<Rightarrow> members \<Rightarrow> int option" where
  "int_field lo hi = field (json_int lo hi)"

definition choice_field :: "(ustr \<times> 'a) list \<Rightarrow> ustr \<Rightarrow> members \<Rightarrow> 'a option" where
  "choice_field choices = field (json_choice choices)"

text \<open>
  An integer \<open>Literal\<close>. A value that is not an integer is looked up among the expected ones too, by
  Python's equality.
\<close>

definition literal_field :: "interpreter \<Rightarrow> int list \<Rightarrow> ustr \<Rightarrow> members \<Rightarrow> int option" where
  "literal_field env vs = field (\<lambda>v.
     case (case v of JInt n \<Rightarrow> Some n | _ \<Rightarrow> py_literal_int env v) of
       Some n \<Rightarrow> if n \<in> set vs then Some n else None
     | None \<Rightarrow> None)"

definition spelled :: "string list \<Rightarrow> (ustr \<times> ustr) list" where
  "spelled names = map (\<lambda>s. (u s, u s)) names"

text \<open>A field with a default.\<close>

definition default_field :: "'a \<Rightarrow> (ustr \<Rightarrow> members \<Rightarrow> 'a option) \<Rightarrow> ustr \<Rightarrow> members \<Rightarrow> 'a option" where
  "default_field d f k ms = (if k \<in> set (map fst ms) then f k ms else Some d)"

text \<open>A field whose value may be \<open>null\<close>, and that defaults to it.\<close>

definition nullable_field ::
  "(ustr \<Rightarrow> members \<Rightarrow> 'a option) \<Rightarrow> ustr \<Rightarrow> members \<Rightarrow> 'a option option" where
  "nullable_field f k ms = (case map_of ms k of
     None \<Rightarrow> Some None | Some JNull \<Rightarrow> Some None | Some _ \<Rightarrow> map_option Some (f k ms))"

section \<open>What validation guarantees\<close>

lemma guarded_Some [simp]: "guarded b = Some x \<longleftrightarrow> b"
  by (simp add: guarded_def)

lemma field_Some: "field f k ms = Some x \<longleftrightarrow> (\<exists>v. map_of ms k = Some v \<and> f v = Some x)"
  by (simp add: field_def bind_eq_Some_conv)

lemma json_text_Some: "json_text P v = Some s \<longleftrightarrow> v = JStr s \<and> P s"
  by (cases v) (auto simp: json_text_def)

lemma json_int_Some: "json_int lo hi v = Some n \<longleftrightarrow> v = JInt n \<and> lo \<le> n \<and> n \<le> hi"
  by (cases v) (auto simp: json_int_def)

lemma json_choice_Some: "json_choice cs v = Some x \<longleftrightarrow> (\<exists>s. v = JStr s \<and> map_of cs s = Some x)"
  by (cases v) (auto simp: json_choice_def)

lemma text_field_Some: "text_field P k ms = Some s \<longleftrightarrow> map_of ms k = Some (JStr s) \<and> P s"
  by (auto simp: text_field_def field_Some json_text_Some)

lemma int_field_Some: "int_field lo hi k ms = Some n \<longleftrightarrow> map_of ms k = Some (JInt n) \<and> lo \<le> n \<and> n \<le> hi"
  by (auto simp: int_field_def field_Some json_int_Some)

lemma choice_field_Some:
  "choice_field cs k ms = Some x \<longleftrightarrow> (\<exists>s. map_of ms k = Some (JStr s) \<and> map_of cs s = Some x)"
  by (auto simp: choice_field_def field_Some json_choice_Some)

lemma literal_field_Some: "literal_field env vs k ms = Some n \<Longrightarrow> n \<in> set vs"
proof -
  assume "literal_field env vs k ms = Some n"
  then obtain v where "(case (case v of JInt n \<Rightarrow> Some n | _ \<Rightarrow> py_literal_int env v) of
      Some n \<Rightarrow> if n \<in> set vs then Some n else None | None \<Rightarrow> None) = Some n"
    by (auto simp: literal_field_def field_Some)
  then show ?thesis by (cases "case v of JInt n \<Rightarrow> Some n | _ \<Rightarrow> py_literal_int env v")
    (simp_all split: if_splits)
qed

lemma literal_field_int: "map_of ms k = Some (JInt n) \<Longrightarrow> n \<in> set vs \<Longrightarrow> literal_field env vs k ms = Some n"
  by (simp add: literal_field_def field_def)

lemma those_Some: "those vs = Some xs \<longleftrightarrow> vs = map Some xs"
  by (induction vs arbitrary: xs) (auto split: option.splits)

lemma json_list_Some:
  "json_list f lo hi v = Some xs \<longleftrightarrow>
     (\<exists>vs. v = JArr vs \<and> lo \<le> length vs \<and> length vs \<le> hi \<and> map f vs = map Some xs)"
  by (cases v) (auto simp: json_list_def those_Some)

lemma map_eq_map_Some: "map f vs = map Some xs \<Longrightarrow> x \<in> set xs \<Longrightarrow> \<exists>v \<in> set vs. f v = Some x"
  by (metis (no_types, lifting) imageE imageI list.set_map)

lemma json_list_member:
  "json_list f lo hi v = Some xs \<Longrightarrow> x \<in> set xs \<Longrightarrow> \<exists>v. f v = Some x"
  by (auto simp: json_list_Some dest: map_eq_map_Some)

lemma json_list_length: "json_list f lo hi v = Some xs \<Longrightarrow> lo \<le> length xs \<and> length xs \<le> hi"
  unfolding json_list_Some by (metis length_map)

lemma json_members_Some: "json_members f v = Some x \<longleftrightarrow> (\<exists>ms. v = JObj ms \<and> f ms = Some x)"
  by (cases v) (auto simp: json_members_def)

lemma choice_member: "map_of cs s = Some x \<Longrightarrow> x \<in> set (map snd cs)"
  by (force dest: map_of_SomeD)

lemma spelled_member: "map_of (spelled names) s = Some x \<longleftrightarrow> x = s \<and> s \<in> u ` set names"
  by (induction names) (auto simp: spelled_def)

lemmas field_facts = field_Some text_field_Some int_field_Some choice_field_Some json_text_Some json_members_Some
  json_list_Some bind_eq_Some_conv

text \<open>Evaluating a validator on concrete members.\<close>

lemmas field_eval = has_fields_def guarded_def text_field_def int_field_def choice_field_def field_def
  literal_field_def json_text_def json_int_def json_choice_def json_list_def json_members_def
  default_field_def nullable_field_def spelled_def u_def chars_within_def bytes_within_def
  is_scalar_def is_surrogate_def utf8_width_def

end
