(* ===== verification/Requests.thy ===== *)
theory Requests
  imports Field_Checks
begin

text \<open>
  The requests worldserver sends (the request models of \<open>protocol.py\<close>): one record per model, its
  validator from the members of a JSON object, and the parser that reads it from a frame's payload.
\<close>

section \<open>Vocabularies\<close>

datatype spending_style = SpendNone | SpendMinimal | SpendProgression | SpendCompletionist

definition spending_styles :: "(ustr \<times> spending_style) list" where
  "spending_styles = [(u ''none'', SpendNone), (u ''minimal'', SpendMinimal),
     (u ''progression'', SpendProgression), (u ''completionist'', SpendCompletionist)]"

datatype chat_channel = Whisper | Party | World | Career | Social

definition chat_channels :: "(ustr \<times> chat_channel) list" where
  "chat_channels = [(u ''whisper'', Whisper), (u ''party'', Party), (u ''world'', World),
     (u ''career'', Career), (u ''social'', Social)]"

definition voices :: "(ustr \<times> ustr) list" where
  "voices = spelled [''reserved'', ''pragmatic'', ''earnest'', ''wry'', ''boisterous'']"

text \<open>Privacy, least to most private, and how private a memory each social channel may draw on.\<close>

datatype memory_scope = ScopePublic | ScopeParty | ScopeWhisper

definition social_memory_scopes :: "(ustr \<times> memory_scope) list" where
  "social_memory_scopes = [(u ''public'', ScopePublic), (u ''party'', ScopeParty),
     (u ''whisper'', ScopeWhisper)]"

primrec scope_index :: "memory_scope \<Rightarrow> nat" where
  "scope_index ScopePublic = 0"
| "scope_index ScopeParty = 1"
| "scope_index ScopeWhisper = 2"

definition social_channel_memory_scope :: "nat list" where
  "social_channel_memory_scope = [0, 0, 1, 2]"

datatype admission_lane = ImmediateHumanLane | BackgroundLane

definition admission_lanes :: "(ustr \<times> admission_lane) list" where
  "admission_lanes = [(u ''immediate_human'', ImmediateHumanLane), (u ''background'', BackgroundLane)]"

datatype roleplay_prompt_mode = Ordinary | DeclineRoleplay | AcknowledgeRoleplay | AuthorizedRoleplay

definition roleplay_prompt_modes :: "(ustr \<times> roleplay_prompt_mode) list" where
  "roleplay_prompt_modes = [(u ''ordinary'', Ordinary), (u ''decline_roleplay'', DeclineRoleplay),
     (u ''acknowledge_roleplay'', AcknowledgeRoleplay),
     (u ''authorized_roleplay'', AuthorizedRoleplay)]"

datatype profile_load_state = ProfilePending | ProfileLoaded | AbsentUsingBase | RejectedUsingBase
  | UnavailableUsingBase

definition profile_load_states :: "(ustr \<times> profile_load_state) list" where
  "profile_load_states = [(u ''pending'', ProfilePending), (u ''loaded'', ProfileLoaded),
     (u ''absent_using_base'', AbsentUsingBase), (u ''rejected_using_base'', RejectedUsingBase),
     (u ''unavailable_using_base'', UnavailableUsingBase)]"

datatype memory_input_state = MemoryPending | MemoryLoaded | MemoryAbsent | MemoryUnavailable

definition memory_input_states :: "(ustr \<times> memory_input_state) list" where
  "memory_input_states = [(u ''pending'', MemoryPending), (u ''loaded'', MemoryLoaded),
     (u ''absent'', MemoryAbsent), (u ''unavailable'', MemoryUnavailable)]"

definition evidence_subjects :: "(ustr \<times> ustr) list" where
  "evidence_subjects = spelled [''candidate_bot'', ''participant'', ''source'']"

definition evidence_facts :: "(ustr \<times> ustr) list" where
  "evidence_facts = spelled [''name'', ''race'', ''character_class'', ''level'', ''faction'', ''zone'',
     ''area'', ''group_relation'', ''guild_relation'', ''combat_state'', ''target'', ''visibility'',
     ''proximity'', ''progression'', ''quest'', ''item'', ''creature'', ''objective'', ''achievement'']"

definition evidence_provenances :: "(ustr \<times> ustr) list" where
  "evidence_provenances = spelled [''current_world'', ''human_observation'', ''authoritative_source'']"

section \<open>Career content\<close>

record career_candidate =
  cand_token :: ustr
  cand_summary :: ustr
  cand_maximum_style :: spending_style
  cand_market_eligible :: int
  cand_engagement :: int

record career_content =
  content_candidates :: "career_candidate list"

definition lower_alnum :: "nat \<Rightarrow> bool" where
  "lower_alnum c \<longleftrightarrow> 97 \<le> c \<and> c \<le> 122 \<or> 48 \<le> c \<and> c \<le> 57"

definition is_career_token :: "ustr \<Rightarrow> bool" where
  "is_career_token s \<longleftrightarrow> take 7 s = u ''career-'' \<and> drop 7 s \<noteq> [] \<and> list_all lower_alnum (drop 7 s)"

definition career_candidate_of :: "interpreter \<Rightarrow> members \<Rightarrow> career_candidate option" where
  "career_candidate_of env ms = do {
     guarded (has_fields [u ''token'', u ''summary'', u ''maximum_spending_style'',
       u ''market_eligible'', u ''engagement''] [] ms);
     t \<leftarrow> text_field (\<lambda>s. is_career_token s \<and> length s \<le> 64) (u ''token'') ms;
     s \<leftarrow> text_field (\<lambda>s. chars_within 1 160 s \<and> bytes_within max_career_summary_bytes s)
       (u ''summary'') ms;
     style \<leftarrow> choice_field spending_styles (u ''maximum_spending_style'') ms;
     market \<leftarrow> literal_field env [0, 1] (u ''market_eligible'') ms;
     engagement \<leftarrow> int_field 0 100 (u ''engagement'') ms;
     Some \<lparr>cand_token = t, cand_summary = s, cand_maximum_style = style,
       cand_market_eligible = market, cand_engagement = engagement\<rparr> }"

definition career_content_of :: "interpreter \<Rightarrow> members \<Rightarrow> career_content option" where
  "career_content_of env ms = do {
     guarded (has_fields [u ''personality_version'', u ''career_version'', u ''candidates''] [] ms);
     literal_field env [4] (u ''personality_version'') ms;
     literal_field env [1] (u ''career_version'') ms;
     cands \<leftarrow> field (json_list (json_members (career_candidate_of env)) 1 256) (u ''candidates'') ms;
     guarded (distinct (map cand_token cands));
     Some \<lparr>content_candidates = cands\<rparr> }"

text \<open>
  A \<open>RecursionError\<close> of \<open>json.loads\<close> is no \<open>ValueError\<close> and passes through; every other failure is
  one, and becomes a violation of the schema.
\<close>

definition parse_career_content :: "interpreter \<Rightarrow> ustr \<Rightarrow> protocol_error + career_content" where
  "parse_career_content env message = (case json_loads (py_nesting env) message of
     Inl JsonTooDeep \<Rightarrow> Inl RecursionRaised
   | Inr (JObj ms) \<Rightarrow>
       (case career_content_of env ms of None \<Rightarrow> Inl ProtocolError | Some c \<Rightarrow> Inr c)
   | _ \<Rightarrow> Inl ProtocolError)"

section \<open>Chat\<close>

record chat_request =
  chat_token :: ustr
  chat_request_id :: int
  chat_channel :: chat_channel
  chat_bot_guid :: int
  chat_speaker_guid :: int
  chat_bot_name :: ustr
  chat_speaker_name :: ustr
  chat_crafting :: int
  chat_gathering :: int
  chat_exploration :: int
  chat_sociability :: int
  chat_voice :: ustr
  chat_event_kind :: int
  chat_subject_id :: int
  chat_occurrence :: int
  chat_message :: ustr

definition chat_fields_of :: "interpreter \<Rightarrow> members \<Rightarrow> chat_request option" where
  "chat_fields_of env ms = do {
     guarded (has_fields (map u [''schema_version'', ''token'', ''request_id'', ''channel'', ''bot_guid'',
       ''speaker_guid'', ''bot_name'', ''speaker_name'', ''profile_version'', ''crafting_affinity'',
       ''gathering_affinity'', ''exploration_affinity'', ''sociability'', ''voice'', ''event_kind'',
       ''subject_id'', ''occurrence'', ''message'']) [] ms);
     literal_field env [schema_version] (u ''schema_version'') ms;
     tok \<leftarrow> text_field valid_token (u ''token'') ms;
     req \<leftarrow> int_field 1 uint64_max (u ''request_id'') ms;
     ch \<leftarrow> choice_field chat_channels (u ''channel'') ms;
     bot \<leftarrow> int_field 1 uint64_max (u ''bot_guid'') ms;
     speaker \<leftarrow> int_field 0 uint64_max (u ''speaker_guid'') ms;
     bn \<leftarrow> text_field (\<lambda>s. chars_within 1 48 s \<and> bytes_within max_actor_name_bytes s) (u ''bot_name'') ms;
     sn \<leftarrow> text_field (\<lambda>s. chars_within 0 48 s \<and> bytes_within max_actor_name_bytes s)
       (u ''speaker_name'') ms;
     literal_field env [2] (u ''profile_version'') ms;
     crafting \<leftarrow> int_field 0 100 (u ''crafting_affinity'') ms;
     gathering \<leftarrow> int_field 0 100 (u ''gathering_affinity'') ms;
     exploration \<leftarrow> int_field 0 100 (u ''exploration_affinity'') ms;
     soc \<leftarrow> int_field 0 100 (u ''sociability'') ms;
     voice \<leftarrow> choice_field voices (u ''voice'') ms;
     event \<leftarrow> literal_field env [0, 1, 2, 3, 4, 5] (u ''event_kind'') ms;
     subject \<leftarrow> int_field 0 uint64_max (u ''subject_id'') ms;
     occ \<leftarrow> int_field 0 uint64_max (u ''occurrence'') ms;
     msg \<leftarrow> text_field (\<lambda>s. s \<noteq> [] \<and> bytes_within max_career_message_bytes s) (u ''message'') ms;
     Some \<lparr>chat_token = tok, chat_request_id = req, chat_channel = ch, chat_bot_guid = bot,
       chat_speaker_guid = speaker, chat_bot_name = bn, chat_speaker_name = sn,
       chat_crafting = crafting, chat_gathering = gathering, chat_exploration = exploration,
       chat_sociability = soc, chat_voice = voice, chat_event_kind = event,
       chat_subject_id = subject, chat_occurrence = occ, chat_message = msg\<rparr> }"

text \<open>The check that runs once the fields are all valid, \<open>_validate_ambient_fields\<close>.\<close>

definition check_chat_fields :: "interpreter \<Rightarrow> chat_request \<Rightarrow> protocol_error + chat_request" where
  "check_chat_fields env r =
     (if chat_channel r = Career \<or> chat_event_kind r = career_event_kind then
        (if chat_channel r \<noteq> Career \<or> chat_event_kind r \<noteq> career_event_kind \<or>
            chat_speaker_guid r \<noteq> 0 \<or> chat_speaker_name r \<noteq> [] \<or> chat_subject_id r \<noteq> 0 \<or>
            chat_occurrence r \<noteq> 0
         then Inl ProtocolError
         else and_then (parse_career_content env (chat_message r)) (\<lambda>_. Inr r))
      else if chat_channel r = World \<or> chat_event_kind r = ambient_event_kind then
        (if chat_channel r \<noteq> World \<or> chat_event_kind r \<noteq> ambient_event_kind \<or>
            chat_speaker_guid r \<noteq> 0 \<or> chat_speaker_name r \<noteq> [] \<or> chat_subject_id r \<noteq> 0 \<or>
            chat_message r \<noteq> ambient_event_marker
         then Inl ProtocolError else Inr r)
      else if chat_speaker_guid r = 0 \<or> chat_speaker_name r = [] then Inl ProtocolError
      else if \<not> bytes_within max_request_message_bytes (chat_message r) then Inl ProtocolError
      else Inr r)"

definition chat_request_of :: "interpreter \<Rightarrow> members \<Rightarrow> protocol_error + chat_request" where
  "chat_request_of env ms = (case chat_fields_of env ms of
     None \<Rightarrow> Inl ProtocolError | Some r \<Rightarrow> check_chat_fields env r)"

definition is_ambient :: "chat_request \<Rightarrow> bool" where "is_ambient r \<longleftrightarrow> chat_channel r = World"
definition is_career :: "chat_request \<Rightarrow> bool" where "is_career r \<longleftrightarrow> chat_channel r = Career"

text \<open>
  The last step of every parser: the tokens are compared as UTF-8 bytes, which the token of a
  validated request always has.
\<close>

definition check_token :: "ustr \<Rightarrow> ustr \<Rightarrow> 'a \<Rightarrow> protocol_error + 'a" where
  "check_token expected token r = (case utf8_encode expected of
     None \<Rightarrow> Inl UnicodeRaised
   | Some e \<Rightarrow> if utf8_encode token = Some e then Inr r else Inl TokenMismatchError)"

definition parse_request :: "interpreter \<Rightarrow> bytes \<Rightarrow> ustr \<Rightarrow> protocol_error + chat_request" where
  "parse_request env payload expected =
     and_then (load_object env payload) (\<lambda>ms.
       and_then (chat_request_of env ms) (\<lambda>r. check_token expected (chat_token r) r))"

section \<open>Social\<close>

record social_evidence =
  ev_id :: ustr
  ev_subject :: ustr
  ev_fact :: ustr
  ev_value :: ustr
  ev_provenance :: ustr
  ev_scope :: memory_scope
  ev_observed_at :: int

text \<open>A letter and a positive number, without leading zeros.\<close>

definition is_numbered :: "nat \<Rightarrow> ustr \<Rightarrow> bool" where
  "is_numbered letter s \<longleftrightarrow> (case s of
     c # d # r \<Rightarrow> c = letter \<and> 49 \<le> d \<and> d \<le> 57 \<and> list_all is_udigit r | _ \<Rightarrow> False)"

definition social_evidence_of :: "members \<Rightarrow> social_evidence option" where
  "social_evidence_of ms = do {
     guarded (has_fields (map u [''id'', ''subject'', ''fact'', ''value'', ''provenance'', ''scope'',
       ''observed_at'']) [] ms);
     i \<leftarrow> text_field (is_numbered 103) (u ''id'') ms;
     subj \<leftarrow> choice_field evidence_subjects (u ''subject'') ms;
     fact \<leftarrow> choice_field evidence_facts (u ''fact'') ms;
     v \<leftarrow> text_field (\<lambda>s. s \<noteq> [] \<and> bytes_within max_social_evidence_value_bytes s) (u ''value'') ms;
     prov \<leftarrow> choice_field evidence_provenances (u ''provenance'') ms;
     scope \<leftarrow> choice_field social_memory_scopes (u ''scope'') ms;
     seen \<leftarrow> int_field 1 uint64_max (u ''observed_at'') ms;
     Some \<lparr>ev_id = i, ev_subject = subj, ev_fact = fact, ev_value = v, ev_provenance = prov,
       ev_scope = scope, ev_observed_at = seen\<rparr> }"

record social_request =
  soc_token :: ustr
  soc_request_token :: int
  soc_bot_guid :: int
  soc_bot_name :: ustr
  soc_bot_human :: int
  soc_bot_level :: int
  soc_subject_guid :: int
  soc_subject_name :: ustr
  soc_subject_human :: int
  soc_lane :: admission_lane
  soc_channel :: int
  soc_thread_id :: ustr
  soc_context :: ustr
  soc_evidence :: "social_evidence list"
  soc_event_ids :: "ustr list"
  soc_profile_state :: profile_load_state
  soc_memory_state :: memory_input_state
  soc_expansion :: int
  soc_expects_answer :: int
  soc_addressed :: int
  soc_race_id :: int
  soc_class_id :: int
  soc_zone :: ustr

definition actor_name_allowed :: "interpreter \<Rightarrow> ustr \<Rightarrow> bool" where
  "actor_name_allowed env s \<longleftrightarrow>
     bytes_within max_actor_name_bytes s \<and> (s = [] \<or> actor_name_is_usable env s)"

definition is_event_id :: "ustr \<Rightarrow> bool" where
  "is_event_id s \<longleftrightarrow> take 4 s = u ''evt_'' \<and> length s = 36 \<and> list_all hex_digit (drop 4 s)"

definition social_fields_of :: "interpreter \<Rightarrow> members \<Rightarrow> social_request option" where
  "social_fields_of env ms = do {
     guarded (has_fields (map u [''schema_version'', ''token'', ''kind'', ''social_request_token'',
       ''bot_guid'', ''bot_name'', ''bot_human'', ''bot_level'', ''subject_guid'', ''subject_name'',
       ''subject_human'', ''admission_lane'', ''speak_on_channel'', ''thread_id'', ''context'',
       ''evidence'', ''transcript_event_ids'', ''profile_load_state'', ''memory_input_state'',
       ''active_content_expansion'', ''expects_answer'', ''addressed_to_bot'', ''bot_race_id'',
       ''bot_class_id'', ''bot_zone'']) [] ms);
     literal_field env [social_schema_version] (u ''schema_version'') ms;
     tok \<leftarrow> text_field valid_token (u ''token'') ms;
     choice_field (spelled [''social'']) (u ''kind'') ms;
     req \<leftarrow> int_field 1 uint64_max (u ''social_request_token'') ms;
     bot \<leftarrow> int_field 1 uint64_max (u ''bot_guid'') ms;
     bn \<leftarrow> text_field (\<lambda>s. chars_within 1 max_actor_name_bytes s \<and> actor_name_allowed env s)
       (u ''bot_name'') ms;
     bh \<leftarrow> literal_field env [0, 1] (u ''bot_human'') ms;
     level \<leftarrow> int_field 1 80 (u ''bot_level'') ms;
     subj \<leftarrow> int_field 0 uint64_max (u ''subject_guid'') ms;
     sn \<leftarrow> text_field (\<lambda>s. chars_within 0 max_actor_name_bytes s \<and> actor_name_allowed env s)
       (u ''subject_name'') ms;
     sh \<leftarrow> literal_field env [0, 1] (u ''subject_human'') ms;
     lane \<leftarrow> choice_field admission_lanes (u ''admission_lane'') ms;
     ch \<leftarrow> int_field 0 255 (u ''speak_on_channel'') ms;
     guarded (ch < social_channel_count);
     thread \<leftarrow> text_field (\<lambda>s. chars_within 1 max_thread_id_bytes s \<and> bytes_within max_thread_id_bytes s)
       (u ''thread_id'') ms;
     ctx \<leftarrow> text_field (bytes_within max_social_context_bytes) (u ''context'') ms;
     ev \<leftarrow> field (json_list (json_members social_evidence_of) 1 max_social_evidence_entries)
       (u ''evidence'') ms;
     events \<leftarrow> field (json_list (json_text is_event_id) 0 max_social_context_entries)
       (u ''transcript_event_ids'') ms;
     ps \<leftarrow> choice_field profile_load_states (u ''profile_load_state'') ms;
     mst \<leftarrow> choice_field memory_input_states (u ''memory_input_state'') ms;
     expansion \<leftarrow> int_field 0 max_social_active_expansion (u ''active_content_expansion'') ms;
     expects \<leftarrow> literal_field env [0, 1] (u ''expects_answer'') ms;
     addressed \<leftarrow> literal_field env [0, 1] (u ''addressed_to_bot'') ms;
     race \<leftarrow> int_field 0 255 (u ''bot_race_id'') ms;
     cls \<leftarrow> int_field 0 255 (u ''bot_class_id'') ms;
     zone \<leftarrow> text_field (\<lambda>s. chars_within 0 max_social_bot_zone_bytes s \<and>
       bytes_within max_social_bot_zone_bytes s \<and> list_all (\<lambda>c. 32 \<le> c \<and> c \<noteq> 127) s) (u ''bot_zone'') ms;
     Some \<lparr>soc_token = tok, soc_request_token = req, soc_bot_guid = bot, soc_bot_name = bn,
       soc_bot_human = bh, soc_bot_level = level, soc_subject_guid = subj, soc_subject_name = sn,
       soc_subject_human = sh, soc_lane = lane, soc_channel = ch, soc_thread_id = thread,
       soc_context = ctx, soc_evidence = ev, soc_event_ids = events, soc_profile_state = ps,
       soc_memory_state = mst, soc_expansion = expansion, soc_expects_answer = expects,
       soc_addressed = addressed, soc_race_id = race, soc_class_id = cls, soc_zone = zone\<rparr> }"

text \<open>The two checks over the whole request.\<close>

definition subject_present_or_absent :: "social_request \<Rightarrow> bool" where
  "subject_present_or_absent r \<longleftrightarrow>
     soc_subject_guid r = 0 \<and> soc_subject_name r = [] \<and> soc_subject_human r = 0 \<or>
     soc_subject_guid r \<noteq> 0 \<and> soc_subject_name r \<noteq> []"

definition grounding_is_coherent :: "social_request \<Rightarrow> bool" where
  "grounding_is_coherent r \<longleftrightarrow>
     distinct (map ev_id (soc_evidence r)) \<and> distinct (soc_event_ids r) \<and>
     sum_list (map (\<lambda>e. byte_length (ev_id e) + byte_length (ev_value e)) (soc_evidence r))
       \<le> max_social_evidence_envelope_bytes \<and>
     list_all (\<lambda>e. scope_index (ev_scope e) \<le> social_channel_memory_scope ! nat (soc_channel r))
       (soc_evidence r)"

definition social_request_of :: "interpreter \<Rightarrow> members \<Rightarrow> social_request option" where
  "social_request_of env ms = do {
     r \<leftarrow> social_fields_of env ms;
     guarded (subject_present_or_absent r);
     guarded (grounding_is_coherent r);
     Some r }"

text \<open>The common shape of the parsers of the requests that declare a kind.\<close>

definition parsed :: "'a option \<Rightarrow> protocol_error + 'a" where
  "parsed r = (case r of None \<Rightarrow> Inl ProtocolError | Some r \<Rightarrow> Inr r)"

definition parse_social_request :: "interpreter \<Rightarrow> bytes \<Rightarrow> ustr \<Rightarrow> protocol_error + social_request" where
  "parse_social_request env payload expected =
     and_then (load_object env payload) (\<lambda>ms.
       and_then (parsed (social_request_of env ms)) (\<lambda>r. check_token expected (soc_token r) r))"

end
