(* ===== verification/Social_Context.thy ===== *)
theory Social_Context
  imports Requests
begin

text \<open>
  The structured context a social request may carry (\<open>SocialMemory\<close>, \<open>SocialContext\<close> and
  \<open>parse_social_context\<close> of \<open>protocol.py\<close>), and which of its memories an output channel may draw on.
\<close>

section \<open>The context\<close>

record social_memory =
  mem_id :: ustr
  mem_text :: ustr
  mem_scope :: memory_scope

definition social_memory_of :: "members \<Rightarrow> social_memory option" where
  "social_memory_of ms = do {
     guarded (has_fields [u ''id'', u ''text'', u ''scope''] [] ms);
     i \<leftarrow> text_field (is_numbered 109) (u ''id'') ms;
     t \<leftarrow> text_field (chars_within 1 max_social_context_entry_bytes) (u ''text'') ms;
     s \<leftarrow> choice_field social_memory_scopes (u ''scope'') ms;
     Some \<lparr>mem_id = i, mem_text = t, mem_scope = s\<rparr> }"

datatype identity_request = AskAge | AskHomeCountry | AskAgeAndHomeCountry

definition identity_requests :: "(ustr \<times> identity_request) list" where
  "identity_requests = [(u ''age'', AskAge), (u ''home_country'', AskHomeCountry),
     (u ''age_and_home_country'', AskAgeAndHomeCountry)]"

definition fictional_identity_countries :: "string list" where
  "fictional_identity_countries = [''United States'', ''Canada'', ''Mexico'', ''Australia'',
     ''New Zealand'', ''Singapore'', ''Malaysia'', ''Thailand'', ''Indonesia'', ''Philippines'',
     ''Brazil'', ''Argentina'', ''Chile'', ''Colombia'', ''Peru'', ''Uruguay'', ''Ecuador'',
     ''Costa Rica'', ''Panama'', ''Guatemala'', ''United Kingdom'', ''Germany'', ''France'',
     ''Netherlands'', ''Belgium'', ''Ireland'', ''Denmark'', ''Sweden'', ''Norway'', ''Finland'',
     ''Iceland'', ''Spain'', ''Italy'', ''Portugal'', ''Greece'', ''Poland'', ''Austria'',
     ''Switzerland'', ''Czechia'', ''Hungary'', ''Romania'', ''Slovakia'', ''Ukraine'']"

record social_context =
  ctx_prompt_mode :: roleplay_prompt_mode
  ctx_expansion :: int
  ctx_persona :: ustr
  ctx_identity_request :: "identity_request option"
  ctx_age :: "int option"
  ctx_country :: "ustr option"
  ctx_relationship :: ustr
  ctx_starter :: ustr
  ctx_nearby :: "ustr list"
  ctx_thread :: "ustr list"
  ctx_memories :: "social_memory list"

definition context_entry :: "ustr \<Rightarrow> members \<Rightarrow> ustr option" where
  "context_entry = default_field [] (text_field (chars_within 0 max_social_context_entry_bytes))"

definition context_entries :: "ustr \<Rightarrow> members \<Rightarrow> ustr list option" where
  "context_entries = default_field [] (field (json_list
     (json_text (chars_within 0 max_social_context_entry_bytes)) 0 max_social_context_entries))"

definition context_fields_of :: "members \<Rightarrow> social_context option" where
  "context_fields_of ms = do {
     guarded (has_fields [u ''prompt_mode'', u ''active_expansion''] (map u [''persona'',
       ''fictional_identity_request'', ''fictional_age'', ''fictional_home_country'',
       ''relationship'', ''starter'', ''nearby'', ''thread'', ''memories'']) ms);
     mode \<leftarrow> choice_field roleplay_prompt_modes (u ''prompt_mode'') ms;
     expansion \<leftarrow> int_field 0 max_social_active_expansion (u ''active_expansion'') ms;
     persona \<leftarrow> context_entry (u ''persona'') ms;
     req \<leftarrow> nullable_field (choice_field identity_requests) (u ''fictional_identity_request'') ms;
     age \<leftarrow> nullable_field (int_field 18 65) (u ''fictional_age'') ms;
     country \<leftarrow> nullable_field (text_field (chars_within 1 32)) (u ''fictional_home_country'') ms;
     rel \<leftarrow> context_entry (u ''relationship'') ms;
     starter \<leftarrow> context_entry (u ''starter'') ms;
     nearby \<leftarrow> context_entries (u ''nearby'') ms;
     thread \<leftarrow> context_entries (u ''thread'') ms;
     mems \<leftarrow> default_field [] (field (json_list (json_members social_memory_of) 0
       max_social_context_entries)) (u ''memories'') ms;
     Some \<lparr>ctx_prompt_mode = mode, ctx_expansion = expansion, ctx_persona = persona,
       ctx_identity_request = req, ctx_age = age, ctx_country = country, ctx_relationship = rel,
       ctx_starter = starter, ctx_nearby = nearby, ctx_thread = thread, ctx_memories = mems\<rparr> }"

definition roleplay_carries_no_identity :: "social_context \<Rightarrow> bool" where
  "roleplay_carries_no_identity c \<longleftrightarrow> ctx_prompt_mode c \<noteq> AuthorizedRoleplay \<or>
     ctx_identity_request c = None \<and> ctx_age c = None \<and> ctx_country c = None"

definition memory_ids_are_unique :: "social_context \<Rightarrow> bool" where
  "memory_ids_are_unique c \<longleftrightarrow> distinct (map mem_id (ctx_memories c))"

definition fictional_identity_is_coherent :: "social_context \<Rightarrow> bool" where
  "fictional_identity_is_coherent c \<longleftrightarrow> (case ctx_identity_request c of
     None \<Rightarrow> ctx_age c = None \<and> ctx_country c = None
   | Some req \<Rightarrow>
       (ctx_age c = None \<or> req = AskAge \<or> req = AskAgeAndHomeCountry) \<and>
       (case ctx_country c of
          None \<Rightarrow> True
        | Some country \<Rightarrow> (req = AskHomeCountry \<or> req = AskAgeAndHomeCountry) \<and>
            country \<in> set (map u fictional_identity_countries)))"

definition social_context_of :: "members \<Rightarrow> social_context option" where
  "social_context_of ms = do {
     c \<leftarrow> context_fields_of ms;
     guarded (roleplay_carries_no_identity c);
     guarded (memory_ids_are_unique c);
     guarded (fictional_identity_is_coherent c);
     Some c }"

text \<open>The memories a channel may draw on; an unknown channel may draw on none.\<close>

definition memories_within :: "int \<Rightarrow> social_context \<Rightarrow> social_memory list" where
  "memories_within channel c =
     (if \<not> (0 \<le> channel \<and> channel < int (length social_channel_memory_scope)) then []
      else filter (\<lambda>m. scope_index (mem_scope m) \<le> social_channel_memory_scope ! nat channel)
        (ctx_memories c))"

text \<open>
  Reading a context: \<open>None\<close> when the text is not of that shape. Only \<open>RecursionError\<close> gets through.
\<close>

definition parse_social_context :: "interpreter \<Rightarrow> ustr \<Rightarrow> protocol_error + social_context option" where
  "parse_social_context env text =
     (if text = [] then Inr None
      else case json_loads (py_nesting env) text of
        Inl JsonTooDeep \<Rightarrow> Inl RecursionRaised
      | Inr (JObj ms) \<Rightarrow> Inr (social_context_of ms)
      | _ \<Rightarrow> Inr None)"

section \<open>Privacy\<close>

text \<open>What an evidence entry or a memory may be spoken over: the audience it was learned in.\<close>

fun audience :: "int \<Rightarrow> memory_scope" where
  "audience ch = (if ch = 2 then ScopeParty else if ch = 3 then ScopeWhisper else ScopePublic)"

lemma channel_scope_audience:
  "0 \<le> ch \<Longrightarrow> ch < 4 \<Longrightarrow> social_channel_memory_scope ! nat ch = scope_index (audience ch)"
proof -
  assume "0 \<le> ch" "ch < 4"
  then have "ch = 0 \<or> ch = 1 \<or> ch = 2 \<or> ch = 3" by linarith
  then show ?thesis by (elim disjE) (simp_all add: social_channel_memory_scope_def)
qed

lemma social_request_of_Some:
  assumes "social_request_of env ms = Some r"
  shows "social_fields_of env ms = Some r" "subject_present_or_absent r" "grounding_is_coherent r"
  using assms by (auto simp: social_request_of_def bind_eq_Some_conv)

lemma social_fields_facts:
  assumes "social_fields_of env ms = Some r"
  shows "0 \<le> soc_channel r \<and> soc_channel r < 4 \<and> valid_token (soc_token r) \<and> soc_bot_name r \<noteq> [] \<and>
    actor_name_allowed env (soc_bot_name r) \<and> actor_name_allowed env (soc_subject_name r)"
  using assms unfolding social_fields_of_def bind_eq_Some_conv
  by (elim exE conjE, thin_tac "guarded (has_fields _ _ _) = _")
    (simp only: option.inject text_field_Some int_field_Some guarded_Some, elim conjE, hypsubst,
      simp add: social_channel_count_def, force simp: chars_within_def)

lemma check_token_Inr: "check_token expected token r = Inr r' \<Longrightarrow> r' = r \<and> token = expected"
proof -
  assume c: "check_token expected token r = Inr r'"
  then obtain e where "utf8_encode expected = Some e" "utf8_encode token = Some e" "r' = r"
    by (auto simp: check_token_def split: option.splits if_splits)
  moreover from this have "Some token = Some expected"
    using utf8_decode_encode by metis
  ultimately show ?thesis by simp
qed

lemma context_memories_unique:
  "social_context_of ms = Some c \<Longrightarrow> distinct (map mem_id (ctx_memories c))"
  by (auto simp: social_context_of_def memory_ids_are_unique_def bind_eq_Some_conv)

lemma distinct_map_filtered: "distinct (map f xs) \<Longrightarrow> distinct (map f (filter P xs))"
  by (induction xs) auto

text \<open>
  C27. Nothing private reaches a wider audience: every evidence entry
  of a request that validates, and every memory its context lets its channel draw on, was learned in
  an audience no wider than the one the channel speaks to (anyone nearby on the zone and say channels,
  the party on the party channel, one person in a whisper). The memories offered are exactly those of
  the context with that property, no two of them share the id a reply would cite, and a channel
  outside the four is offered none.
\<close>

theorem privacy_holds_on_every_channel:
  assumes "social_request_of env ms = Some r" and "social_context_of ms' = Some c"
  shows "list_all (\<lambda>e. scope_index (ev_scope e) \<le> scope_index (audience (soc_channel r)))
      (soc_evidence r) \<and>
    memories_within (soc_channel r) c =
      filter (\<lambda>m. scope_index (mem_scope m) \<le> scope_index (audience (soc_channel r))) (ctx_memories c) \<and>
    distinct (map mem_id (memories_within (soc_channel r) c)) \<and>
    (ch < 0 \<or> 4 \<le> ch \<longrightarrow> memories_within ch c = [])"
proof -
  note r = social_request_of_Some [OF assms(1)]
  then have ch: "0 \<le> soc_channel r" "soc_channel r < 4" using social_fields_facts by blast+
  note aud = channel_scope_audience [OF ch]
  have within: "memories_within (soc_channel r) c =
      filter (\<lambda>m. scope_index (mem_scope m) \<le> scope_index (audience (soc_channel r))) (ctx_memories c)"
    using ch aud by (simp add: memories_within_def social_channel_memory_scope_def del: audience.simps)
  moreover have "list_all (\<lambda>e. scope_index (ev_scope e) \<le> scope_index (audience (soc_channel r)))
      (soc_evidence r)"
    using r(3) aud by (simp add: grounding_is_coherent_def del: audience.simps)
  moreover have "ch < 0 \<or> 4 \<le> ch \<longrightarrow> memories_within ch c = []"
    by (auto simp: memories_within_def social_channel_memory_scope_def)
  ultimately show ?thesis
    using distinct_map_filtered [OF context_memories_unique [OF assms(2)]]
    by (simp del: audience.simps)
qed

text \<open>A concrete request over the party channel, and a context with one memory of each scope.\<close>

definition example_env :: interpreter where
  "example_env = \<lparr>py_letter = (\<lambda>c. 65 \<le> c \<and> c \<le> 90 \<or> 97 \<le> c \<and> c \<le> 122), py_mark = (\<lambda>_. False),
     py_digit = is_udigit, py_nesting = 900, py_literal_int = (\<lambda>_. None)\<rparr>"

definition example_token :: ustr where
  "example_token = u ''0123456789abcdef0123456789abcdef''"

definition example_evidence :: members where
  "example_evidence = [(u ''id'', JStr (u ''g1'')), (u ''subject'', JStr (u ''source'')),
     (u ''fact'', JStr (u ''zone'')), (u ''value'', JStr (u ''Durotar'')),
     (u ''provenance'', JStr (u ''current_world'')), (u ''scope'', JStr (u ''party'')),
     (u ''observed_at'', JInt 5)]"

definition example_social_members :: members where
  "example_social_members = [(u ''schema_version'', JInt 9), (u ''token'', JStr example_token),
     (u ''kind'', JStr (u ''social'')), (u ''social_request_token'', JInt 31), (u ''bot_guid'', JInt 7),
     (u ''bot_name'', JStr (u ''Thrall'')), (u ''bot_human'', JInt 0), (u ''bot_level'', JInt 60),
     (u ''subject_guid'', JInt 0), (u ''subject_name'', JStr []), (u ''subject_human'', JInt 0),
     (u ''admission_lane'', JStr (u ''background'')), (u ''speak_on_channel'', JInt 2),
     (u ''thread_id'', JStr (u ''t1'')), (u ''context'', JStr []),
     (u ''evidence'', JArr [JObj example_evidence]), (u ''transcript_event_ids'', JArr []),
     (u ''profile_load_state'', JStr (u ''loaded'')), (u ''memory_input_state'', JStr (u ''absent'')),
     (u ''active_content_expansion'', JInt 0), (u ''expects_answer'', JInt 0),
     (u ''addressed_to_bot'', JInt 0), (u ''bot_race_id'', JInt 2), (u ''bot_class_id'', JInt 7),
     (u ''bot_zone'', JStr (u ''Durotar''))]"

definition example_memory :: "nat \<Rightarrow> string \<Rightarrow> json" where
  "example_memory d scope = JObj [(u ''id'', JStr [109, d]), (u ''text'', JStr (u ''x'')),
     (u ''scope'', JStr (u scope))]"

definition example_context_members :: members where
  "example_context_members = [(u ''prompt_mode'', JStr (u ''ordinary'')),
     (u ''active_expansion'', JInt 0),
     (u ''memories'', JArr [example_memory 49 ''public'', example_memory 50 ''party'',
       example_memory 51 ''whisper''])]"

lemma example_social_request:
  "\<exists>r. social_request_of example_env example_social_members = Some r \<and> soc_channel r = 2"
  by (simp add: example_social_members_def social_request_of_def social_fields_of_def field_eval
      wire_bounds example_env_def example_token_def valid_token_def social_schema_version_def
      uint64_max_def actor_name_allowed_def actor_name_is_usable_def admission_lanes_def
      social_channel_count_def social_evidence_of_def example_evidence_def evidence_subjects_def
      evidence_facts_def evidence_provenances_def is_numbered_def social_memory_scopes_def
      profile_load_states_def memory_input_states_def max_social_active_expansion_def
      subject_present_or_absent_def grounding_is_coherent_def social_channel_memory_scope_def)

lemma example_social_context:
  "\<exists>c. social_context_of example_context_members = Some c \<and> ctx_memories c =
     [\<lparr>mem_id = [109, 49], mem_text = [120], mem_scope = ScopePublic\<rparr>,
      \<lparr>mem_id = [109, 50], mem_text = [120], mem_scope = ScopeParty\<rparr>,
      \<lparr>mem_id = [109, 51], mem_text = [120], mem_scope = ScopeWhisper\<rparr>]"
  by (simp add: example_context_members_def social_context_of_def context_fields_of_def field_eval
      roleplay_prompt_modes_def max_social_active_expansion_def context_entry_def context_entries_def
      example_memory_def social_memory_of_def is_numbered_def social_memory_scopes_def wire_bounds
      roleplay_carries_no_identity_def memory_ids_are_unique_def fictional_identity_is_coherent_def)

theorem privacy_holds_on_every_channel_witness:
  "\<exists>r c. social_request_of example_env example_social_members = Some r \<and>
     social_context_of example_context_members = Some c \<and>
     map mem_id (memories_within (soc_channel r) c) = [[109, 49], [109, 50]]"
proof -
  obtain r where r: "social_request_of example_env example_social_members = Some r" "soc_channel r = 2"
    using example_social_request by blast
  obtain c where c: "social_context_of example_context_members = Some c" "ctx_memories c =
     [\<lparr>mem_id = [109, 49], mem_text = [120], mem_scope = ScopePublic\<rparr>,
      \<lparr>mem_id = [109, 50], mem_text = [120], mem_scope = ScopeParty\<rparr>,
      \<lparr>mem_id = [109, 51], mem_text = [120], mem_scope = ScopeWhisper\<rparr>]"
    using example_social_context by blast
  from privacy_holds_on_every_channel [OF r(1) c(1)]
  have "memories_within (soc_channel r) c =
      filter (\<lambda>m. scope_index (mem_scope m) \<le> scope_index (audience (soc_channel r))) (ctx_memories c)"
    by blast
  then have "map mem_id (memories_within (soc_channel r) c) = [[109, 49], [109, 50]]"
    by (simp add: r(2) c(2))
  with r(1) c(1) show ?thesis by (intro exI conjI)
qed

end
