(* ===== verification/Background_Requests.thy ===== *)
theory Background_Requests
  imports Social_Context
begin

text \<open>
  The requests nobody waits for: a roleplay assessment, a biography, and the memories of a finished
  conversation (\<open>protocol.py\<close>); and the completion an assessment is answered with.
\<close>

section \<open>Roleplay assessment\<close>

datatype assessment_kind = AssessOrdinary | RoleplayInvitation | RoleplayContinuation
  | AssessPractical | OptOut | Uncertain

definition assessment_kinds :: "(ustr \<times> assessment_kind) list" where
  "assessment_kinds = [(u ''ordinary'', AssessOrdinary), (u ''roleplay_invitation'', RoleplayInvitation),
     (u ''roleplay_continuation'', RoleplayContinuation), (u ''practical'', AssessPractical),
     (u ''opt_out'', OptOut), (u ''uncertain'', Uncertain)]"

datatype content_capability = ClassicContent | Outland | BloodElf | Draenei | DeathKnight
  | BurningCrusadeProfession | WrathProfession | OtherBurningCrusade | OtherWrath | UnknownContent

definition content_capabilities :: "(ustr \<times> content_capability) list" where
  "content_capabilities = [(u ''classic_content'', ClassicContent), (u ''outland'', Outland),
     (u ''blood_elf'', BloodElf), (u ''draenei'', Draenei), (u ''death_knight'', DeathKnight),
     (u ''burning_crusade_profession'', BurningCrusadeProfession),
     (u ''wrath_profession'', WrathProfession), (u ''other_burning_crusade'', OtherBurningCrusade),
     (u ''other_wrath'', OtherWrath), (u ''unknown'', UnknownContent)]"

record assessment_request =
  asm_token :: ustr
  asm_request_token :: int
  asm_channel :: int
  asm_thread_id :: ustr
  asm_current_line :: ustr
  asm_thread_lines :: "ustr list"

definition entry_within :: "ustr \<Rightarrow> bool" where
  "entry_within s \<longleftrightarrow> chars_within 1 max_social_context_entry_bytes s \<and>
     bytes_within max_social_context_entry_bytes s"

definition assessment_request_of :: "interpreter \<Rightarrow> members \<Rightarrow> assessment_request option" where
  "assessment_request_of env ms = do {
     guarded (has_fields (map u [''schema_version'', ''token'', ''kind'',
       ''roleplay_assessment_request_token'', ''channel'', ''thread_id'', ''current_line''])
       [u ''thread_lines''] ms);
     literal_field env [schema_version] (u ''schema_version'') ms;
     tok \<leftarrow> text_field valid_token (u ''token'') ms;
     choice_field (spelled [''roleplay_assessment'']) (u ''kind'') ms;
     req \<leftarrow> int_field 1 uint64_max (u ''roleplay_assessment_request_token'') ms;
     ch \<leftarrow> int_field 0 255 (u ''channel'') ms;
     guarded (ch < social_channel_count);
     thread \<leftarrow> text_field (\<lambda>s. chars_within 1 max_thread_id_bytes s \<and> bytes_within max_thread_id_bytes s)
       (u ''thread_id'') ms;
     line \<leftarrow> text_field entry_within (u ''current_line'') ms;
     lines \<leftarrow> default_field [] (field (json_list (json_text entry_within) 0
       max_social_context_entries)) (u ''thread_lines'') ms;
     Some \<lparr>asm_token = tok, asm_request_token = req, asm_channel = ch, asm_thread_id = thread,
       asm_current_line = line, asm_thread_lines = lines\<rparr> }"

definition parse_roleplay_assessment_request ::
  "interpreter \<Rightarrow> bytes \<Rightarrow> ustr \<Rightarrow> protocol_error + assessment_request" where
  "parse_roleplay_assessment_request env payload expected =
     and_then (load_object env payload) (\<lambda>ms.
       and_then (parsed (assessment_request_of env ms)) (\<lambda>r. check_token expected (asm_token r) r))"

record assessment_completion =
  asc_kind :: assessment_kind
  asc_capabilities :: "content_capability list"

definition assessment_shape_ok :: "assessment_completion \<Rightarrow> bool" where
  "assessment_shape_ok c =
     (let caps = asc_capabilities c in
      if asc_kind c \<in> {AssessOrdinary, AssessPractical, OptOut} then caps = []
      else if asc_kind c = Uncertain then caps = [UnknownContent]
      else caps \<noteq> [] \<and> distinct caps \<and> UnknownContent \<notin> set caps \<and>
        \<not> (ClassicContent \<in> set caps \<and> 1 < length caps))"

definition assessment_completion_of :: "members \<Rightarrow> assessment_completion option" where
  "assessment_completion_of ms = do {
     guarded (has_fields [u ''assessment_kind'', u ''capabilities''] [] ms);
     k \<leftarrow> choice_field assessment_kinds (u ''assessment_kind'') ms;
     caps \<leftarrow> field (json_list (json_choice content_capabilities) 0 (length content_capabilities))
       (u ''capabilities'') ms;
     guarded (assessment_shape_ok \<lparr>asc_kind = k, asc_capabilities = caps\<rparr>);
     Some \<lparr>asc_kind = k, asc_capabilities = caps\<rparr> }"

section \<open>Biography\<close>

definition biography_field_names :: "ustr list" where
  "biography_field_names = map u [''origin'', ''motivation'', ''formative_experience'', ''interests'',
     ''aversions'', ''preferred_topics'', ''mannerisms'', ''values'']"

record biography_request =
  bio_token :: ustr
  bio_request_token :: int
  bio_bot_guid :: int
  bio_character_name :: ustr
  bio_race_id :: int
  bio_class_id :: int
  bio_gender_id :: int
  bio_bot_level :: int
  bio_expansion :: int

definition biography_request_of :: "interpreter \<Rightarrow> members \<Rightarrow> biography_request option" where
  "biography_request_of env ms = do {
     guarded (has_fields (map u [''schema_version'', ''token'', ''kind'', ''biography_request_token'',
       ''bot_guid'', ''character_name'', ''race_id'', ''class_id'', ''gender_id'', ''bot_level'',
       ''active_expansion'']) [] ms);
     literal_field env [schema_version] (u ''schema_version'') ms;
     tok \<leftarrow> text_field valid_token (u ''token'') ms;
     choice_field (spelled [''biography'']) (u ''kind'') ms;
     req \<leftarrow> int_field 1 uint64_max (u ''biography_request_token'') ms;
     bot \<leftarrow> int_field 1 uint64_max (u ''bot_guid'') ms;
     n \<leftarrow> text_field (\<lambda>s. chars_within 1 max_actor_name_bytes s \<and> actor_name_is_usable env s \<and>
       bytes_within max_actor_name_bytes s) (u ''character_name'') ms;
     race \<leftarrow> int_field 0 255 (u ''race_id'') ms;
     cls \<leftarrow> int_field 0 255 (u ''class_id'') ms;
     gender \<leftarrow> int_field 0 255 (u ''gender_id'') ms;
     level \<leftarrow> int_field 1 80 (u ''bot_level'') ms;
     expansion \<leftarrow> int_field 0 max_social_active_expansion (u ''active_expansion'') ms;
     Some \<lparr>bio_token = tok, bio_request_token = req, bio_bot_guid = bot, bio_character_name = n,
       bio_race_id = race, bio_class_id = cls, bio_gender_id = gender, bio_bot_level = level,
       bio_expansion = expansion\<rparr> }"

definition parse_biography_request ::
  "interpreter \<Rightarrow> bytes \<Rightarrow> ustr \<Rightarrow> protocol_error + biography_request" where
  "parse_biography_request env payload expected =
     and_then (load_object env payload) (\<lambda>ms.
       and_then (parsed (biography_request_of env ms)) (\<lambda>r. check_token expected (bio_token r) r))"

section \<open>Memory\<close>

record memory_subject =
  msub_guid :: int
  msub_name :: ustr

text \<open>The name rule of every participant that reaches the trusted half of a prompt.\<close>

definition usable_name_field :: "interpreter \<Rightarrow> ustr \<Rightarrow> members \<Rightarrow> ustr option" where
  "usable_name_field env = text_field (\<lambda>s. chars_within 1 max_actor_name_bytes s \<and>
     bytes_within max_actor_name_bytes s \<and> actor_name_is_usable env s)"

definition memory_subject_of :: "interpreter \<Rightarrow> members \<Rightarrow> memory_subject option" where
  "memory_subject_of env ms = do {
     guarded (has_fields [u ''guid'', u ''name''] [] ms);
     g \<leftarrow> int_field 1 uint64_max (u ''guid'') ms;
     n \<leftarrow> usable_name_field env (u ''name'') ms;
     Some \<lparr>msub_guid = g, msub_name = n\<rparr> }"

record memory_line =
  ml_speaker_guid :: int
  ml_speaker_name :: ustr
  ml_text :: ustr
  ml_source_event_id :: ustr
  ml_source_kind :: ustr

definition memory_line_of :: "members \<Rightarrow> memory_line option" where
  "memory_line_of ms = do {
     guarded (has_fields (map u [''speaker_guid'', ''speaker_name'', ''text'', ''source_event_id'',
       ''source_kind'']) [] ms);
     g \<leftarrow> int_field 1 uint64_max (u ''speaker_guid'') ms;
     n \<leftarrow> text_field (\<lambda>s. chars_within 1 max_actor_name_bytes s \<and> bytes_within max_actor_name_bytes s)
       (u ''speaker_name'') ms;
     t \<leftarrow> text_field entry_within (u ''text'') ms;
     e \<leftarrow> text_field (\<lambda>s. chars_within 1 max_thread_id_bytes s \<and> event_public_id_is_valid s)
       (u ''source_event_id'') ms;
     k \<leftarrow> choice_field (spelled [''human_observation'', ''authoritative_source'']) (u ''source_kind'') ms;
     Some \<lparr>ml_speaker_guid = g, ml_speaker_name = n, ml_text = t, ml_source_event_id = e,
       ml_source_kind = k\<rparr> }"

record memory_request =
  mreq_token :: ustr
  mreq_request_token :: int
  mreq_bot_guid :: int
  mreq_bot_name :: ustr
  mreq_thread_id :: ustr
  mreq_scope :: memory_scope
  mreq_subjects :: "memory_subject list"
  mreq_thread :: "memory_line list"

definition memory_request_of :: "interpreter \<Rightarrow> members \<Rightarrow> memory_request option" where
  "memory_request_of env ms = do {
     guarded (has_fields (map u [''schema_version'', ''token'', ''kind'', ''memory_request_token'',
       ''bot_guid'', ''bot_name'', ''thread_id'', ''scope'', ''subjects'', ''thread'']) [] ms);
     literal_field env [schema_version] (u ''schema_version'') ms;
     tok \<leftarrow> text_field valid_token (u ''token'') ms;
     choice_field (spelled [''memory'']) (u ''kind'') ms;
     req \<leftarrow> int_field 1 uint64_max (u ''memory_request_token'') ms;
     bot \<leftarrow> int_field 1 uint64_max (u ''bot_guid'') ms;
     n \<leftarrow> usable_name_field env (u ''bot_name'') ms;
     thread \<leftarrow> text_field (\<lambda>s. chars_within 1 max_thread_id_bytes s \<and> bytes_within max_thread_id_bytes s)
       (u ''thread_id'') ms;
     scope \<leftarrow> choice_field social_memory_scopes (u ''scope'') ms;
     subjects \<leftarrow> field (json_list (json_members (memory_subject_of env)) 1 max_social_context_entries)
       (u ''subjects'') ms;
     lines \<leftarrow> field (json_list (json_members memory_line_of) 1 max_social_context_entries)
       (u ''thread'') ms;
     guarded (sum_list (map (\<lambda>l. byte_length (ml_text l)) lines) \<le> max_social_context_bytes);
     guarded (distinct (map msub_guid subjects));
     guarded (distinct (map ml_source_event_id lines));
     Some \<lparr>mreq_token = tok, mreq_request_token = req, mreq_bot_guid = bot, mreq_bot_name = n,
       mreq_thread_id = thread, mreq_scope = scope, mreq_subjects = subjects, mreq_thread = lines\<rparr> }"

definition subject_guids :: "memory_request \<Rightarrow> int list" where
  "subject_guids r = map msub_guid (mreq_subjects r)"

definition parse_memory_request ::
  "interpreter \<Rightarrow> bytes \<Rightarrow> ustr \<Rightarrow> protocol_error + memory_request" where
  "parse_memory_request env payload expected =
     and_then (load_object env payload) (\<lambda>ms.
       and_then (parsed (memory_request_of env ms)) (\<lambda>r. check_token expected (mreq_token r) r))"

end
