(* ===== verification/Responses.thy ===== *)
theory Responses
  imports Background_Requests
begin

text \<open>
  The answers the sidecar sends back (the encoders of \<open>protocol.py\<close>). Each is one flat JSON object;
  a payload is the list of its keys and values in the order the code inserts them.
\<close>

section \<open>Shared steps\<close>

text \<open>\<open>json.dumps(...).encode("utf-8")\<close>.\<close>

definition json_bytes :: "payload \<Rightarrow> protocol_error + bytes" where
  "json_bytes p = (case utf8_encode (json_dumps p) of None \<Rightarrow> Inl UnicodeRaised | Some b \<Rightarrow> Inr b)"

text \<open>\<open>_byte_length(s) > n\<close> as a condition: encoding may raise first.\<close>

definition check_bytes :: "nat \<Rightarrow> ustr \<Rightarrow> protocol_error + unit" where
  "check_bytes n s = (if \<not> list_all is_scalar s then Inl UnicodeRaised
     else assuring (byte_length s \<le> n) ProtocolError)"

definition validate_response_message :: "ustr \<Rightarrow> protocol_error + unit" where
  "validate_response_message s =
     and_then (assuring (s \<noteq> []) ProtocolError) (\<lambda>_.
       and_then (check_bytes max_response_message_bytes s) (\<lambda>_.
         assuring (single_line s) ProtocolError))"

definition check_id :: "int \<Rightarrow> protocol_error + unit" where
  "check_id n = assuring (1 \<le> n \<and> n \<le> uint64_max) ProtocolError"

definition indexed :: "string \<Rightarrow> ustr list \<Rightarrow> payload" where
  "indexed prefix vs = map (\<lambda>(i, v). (u prefix @ u (show_nat i), PStr v)) (enumerate 0 vs)"

section \<open>Chat\<close>

definition response_payload :: "int \<Rightarrow> ustr \<Rightarrow> ustr \<Rightarrow> payload" where
  "response_payload request_id message token =
     [(u ''schema_version'', PInt schema_version), (u ''token'', PStr token),
      (u ''request_id'', PInt request_id), (u ''message'', PStr message)]"

definition encode_response :: "int \<Rightarrow> ustr \<Rightarrow> ustr \<Rightarrow> protocol_error + bytes" where
  "encode_response request_id message token =
     and_then (check_id request_id) (\<lambda>_.
       and_then (encoder_token token) (\<lambda>token.
         and_then (validate_response_message message) (\<lambda>_.
           json_bytes (response_payload request_id message token))))"

section \<open>Roleplay assessment\<close>

definition spelling_of :: "(ustr \<times> 'a) list \<Rightarrow> 'a \<Rightarrow> ustr" where
  "spelling_of choices x = (case find (\<lambda>(_, y). y = x) choices of Some (s, _) \<Rightarrow> s | None \<Rightarrow> [])"

definition assessment_payload :: "int \<Rightarrow> assessment_completion \<Rightarrow> ustr \<Rightarrow> payload" where
  "assessment_payload request_token c token =
     [(u ''schema_version'', PInt schema_version), (u ''token'', PStr token),
      (u ''kind'', PStr (u ''roleplay_assessment'')),
      (u ''roleplay_assessment_request_token'', PInt request_token),
      (u ''assessment_kind'', PStr (spelling_of assessment_kinds (asc_kind c))),
      (u ''capability_count'', PInt (int (length (asc_capabilities c))))] @
     indexed ''capability_'' (map (spelling_of content_capabilities) (asc_capabilities c))"

definition encode_roleplay_assessment_response ::
  "int \<Rightarrow> assessment_completion \<Rightarrow> ustr \<Rightarrow> protocol_error + bytes" where
  "encode_roleplay_assessment_response request_token c token =
     and_then (check_id request_token) (\<lambda>_.
       and_then (encoder_token token) (\<lambda>token.
         json_bytes (assessment_payload request_token c token)))"

section \<open>Social\<close>

definition social_emote_ids :: "int list" where
  "social_emote_ids = [5, 17, 21, 23, 48, 49, 60, 67, 78, 83, 85, 163, 97, 101, 120]"

definition social_emote_channels :: "int list" where "social_emote_channels = [1, 2]"

record social_call_metadata =
  md_model :: ustr
  md_latency_ms :: int
  md_input_tokens :: int
  md_output_tokens :: int
  md_cache_creation_tokens :: int
  md_cache_read_tokens :: int
  md_cost_usd :: ustr

text \<open>The amount pattern: up to six digits without leading zeros, a point, and six digits.\<close>

definition is_cost_usd :: "ustr \<Rightarrow> bool" where
  "is_cost_usd s =
     (let whole = takeWhile is_udigit s; rest = dropWhile is_udigit s
      in (whole = [48] \<or> whole \<noteq> [] \<and> hd whole \<noteq> 48 \<and> length whole \<le> 6) \<and>
         length rest = 7 \<and> hd rest = 46 \<and> list_all is_udigit (tl rest))"

definition valid_metadata :: "social_call_metadata \<Rightarrow> bool" where
  "valid_metadata m \<longleftrightarrow>
     chars_within 1 max_social_model_bytes (md_model m) \<and>
     bytes_within max_social_model_bytes (md_model m) \<and>
     0 \<le> md_latency_ms m \<and> 0 \<le> md_input_tokens m \<and> 0 \<le> md_output_tokens m \<and>
     0 \<le> md_cache_creation_tokens m \<and> 0 \<le> md_cache_read_tokens m \<and> is_cost_usd (md_cost_usd m)"

record social_answer =
  sa_request_token :: int
  sa_bot_guid :: int
  sa_channel :: int
  sa_message :: ustr
  sa_regenerate :: bool
  sa_emote_id :: int
  sa_metadata :: "social_call_metadata option"
  sa_contribution :: "ustr option"
  sa_claim_subject :: "ustr option"
  sa_evidence_ids :: "ustr list"
  sa_memory_ids :: "ustr list"

text \<open>The first checks: what a regeneration, a gesture and a line may carry.\<close>

definition check_answer_form :: "social_answer \<Rightarrow> protocol_error + social_answer" where
  "check_answer_form a =
     (if sa_regenerate a then
        (if sa_metadata a \<noteq> None then Inl ProtocolError
         else if sa_contribution a \<noteq> None \<or> sa_claim_subject a \<noteq> None \<or> sa_evidence_ids a \<noteq> []
         then Inl ProtocolError
         else Inr (a\<lparr>sa_message := [], sa_emote_id := 0\<rparr>))
      else if sa_emote_id a \<noteq> 0 then
        (if sa_emote_id a \<notin> set social_emote_ids then Inl ProtocolError
         else if sa_message a \<noteq> [] then Inl ProtocolError
         else if sa_channel a \<notin> set social_emote_channels then Inl ProtocolError
         else Inr a)
      else if sa_message a \<noteq> [] then and_then (validate_response_message (sa_message a)) (\<lambda>_. Inr a)
      else Inr a)"

definition contributions :: "ustr list" where
  "contributions = map u [''answer'', ''specific_reaction'', ''fact_free_banter'', ''gesture'', ''none'']"

definition claim_subjects :: "ustr list" where
  "claim_subjects = map u [''candidate_bot'', ''participant'', ''none'']"

definition evidence_citation_ok :: "interpreter \<Rightarrow> ustr \<Rightarrow> bool" where
  "evidence_citation_ok env s \<longleftrightarrow> 2 \<le> length s \<and> hd s = 103 \<and> list_all (py_digit env) (tl s)"

definition memory_citation_ok :: "interpreter \<Rightarrow> ustr \<Rightarrow> bool" where
  "memory_citation_ok env s \<longleftrightarrow> 2 \<le> length s \<and> hd s = 109 \<and> s ! 1 \<noteq> 48 \<and> list_all (py_digit env) (tl s)"

definition proposal_coherent :: "social_answer \<Rightarrow> bool" where
  "proposal_coherent a =
     (let uncited = sa_claim_subject a = Some (u ''none'') \<and> sa_evidence_ids a = [] \<and> sa_memory_ids a = []
      in if sa_emote_id a \<noteq> 0 then sa_contribution a = Some (u ''gesture'') \<and> uncited
         else if sa_message a \<noteq> [] then
           sa_contribution a \<in> {Some (u ''answer''), Some (u ''specific_reaction''),
             Some (u ''fact_free_banter'')}
         else sa_contribution a = Some (u ''none'') \<and> uncited)"

definition check_proposal :: "interpreter \<Rightarrow> social_answer \<Rightarrow> protocol_error + unit" where
  "check_proposal env a =
     (if sa_metadata a = None then Inl ProtocolError
      else if sa_contribution a \<notin> Some ` set contributions then Inl ProtocolError
      else if sa_claim_subject a \<notin> Some ` set claim_subjects then Inl ProtocolError
      else if max_social_evidence_entries < length (sa_evidence_ids a) \<or> \<not> distinct (sa_evidence_ids a)
      then Inl ProtocolError
      else if \<not> list_all (evidence_citation_ok env) (sa_evidence_ids a) then Inl ProtocolError
      else if max_social_context_entries < length (sa_memory_ids a) \<or> \<not> distinct (sa_memory_ids a)
      then Inl ProtocolError
      else if \<not> list_all (memory_citation_ok env) (sa_memory_ids a) then Inl ProtocolError
      else assuring (proposal_coherent a) ProtocolError)"

definition metadata_payload :: "social_call_metadata \<Rightarrow> payload" where
  "metadata_payload m =
     [(u ''model'', PStr (md_model m)), (u ''provider_latency_ms'', PInt (md_latency_ms m)),
      (u ''input_tokens'', PInt (md_input_tokens m)), (u ''output_tokens'', PInt (md_output_tokens m)),
      (u ''cache_creation_input_tokens'', PInt (md_cache_creation_tokens m)),
      (u ''cache_read_input_tokens'', PInt (md_cache_read_tokens m)),
      (u ''cost_usd'', PStr (md_cost_usd m))]"

text \<open>A contribution or a claim subject that is \<open>None\<close> is only ever encoded without metadata.\<close>

definition social_payload :: "social_answer \<Rightarrow> ustr \<Rightarrow> payload" where
  "social_payload a token =
     [(u ''schema_version'', PInt social_schema_version), (u ''token'', PStr token),
      (u ''kind'', PStr (u ''social'')), (u ''social_request_token'', PInt (sa_request_token a)),
      (u ''bot_guid'', PInt (sa_bot_guid a)), (u ''speak_on_channel'', PInt (sa_channel a)),
      (u ''message'', PStr (sa_message a)), (u ''emote_id'', PInt (sa_emote_id a)),
      (u ''regenerate'', PInt (if sa_regenerate a then 1 else 0))] @
     (case sa_metadata a of
        None \<Rightarrow> []
      | Some m \<Rightarrow> metadata_payload m @
          [(u ''contribution'', PStr (the (sa_contribution a))),
           (u ''claim_subject'', PStr (the (sa_claim_subject a))),
           (u ''citation_count'', PInt (int (length (sa_evidence_ids a))))] @
          indexed ''citation_'' (sa_evidence_ids a) @
          [(u ''memory_citation_count'', PInt (int (length (sa_memory_ids a))))] @
          indexed ''memory_citation_'' (sa_memory_ids a))"

definition encode_social_response ::
  "interpreter \<Rightarrow> social_answer \<Rightarrow> ustr \<Rightarrow> protocol_error + bytes" where
  "encode_social_response env a token =
     and_then (check_id (sa_request_token a)) (\<lambda>_.
       and_then (check_id (sa_bot_guid a)) (\<lambda>_.
         and_then (assuring (0 \<le> sa_channel a \<and> sa_channel a \<le> 255) ProtocolError) (\<lambda>_.
           and_then (encoder_token token) (\<lambda>token.
             and_then (check_answer_form a) (\<lambda>a.
               and_then (if sa_regenerate a then Inr () else check_proposal env a) (\<lambda>_.
                 json_bytes (social_payload a token)))))))"

section \<open>Biography\<close>

text \<open>A field of the generated biography, by its name; the checks run in the order of its fields.\<close>

definition check_biography_field :: "json \<Rightarrow> protocol_error + unit" where
  "check_biography_field v = (case v of
     JStr s \<Rightarrow>
       if py_strip s = [] then Inl ProtocolError
       else and_then (check_bytes max_biography_field_bytes s) (\<lambda>_. assuring (single_line s) ProtocolError)
   | _ \<Rightarrow> Inl ProtocolError)"

primrec check_all :: "('a \<Rightarrow> protocol_error + unit) \<Rightarrow> 'a list \<Rightarrow> protocol_error + unit" where
  "check_all f [] = Inr ()"
| "check_all f (x # xs) = and_then (f x) (\<lambda>_. check_all f xs)"

text \<open>The value of a field or a candidate that has been checked to be a string, or an integer.\<close>

definition text_of :: "json \<Rightarrow> ustr" where
  "text_of v = (case v of JStr s \<Rightarrow> s | _ \<Rightarrow> [])"

definition int_of_json :: "json \<Rightarrow> int" where
  "int_of_json v = (case v of JInt n \<Rightarrow> n | _ \<Rightarrow> 0)"

definition biography_payload :: "int \<Rightarrow> int \<Rightarrow> members \<Rightarrow> ustr \<Rightarrow> payload" where
  "biography_payload request_token bot_guid biography token =
     [(u ''schema_version'', PInt schema_version), (u ''token'', PStr token),
      (u ''kind'', PStr (u ''biography'')), (u ''biography_request_token'', PInt request_token),
      (u ''bot_guid'', PInt bot_guid)] @
     map (\<lambda>(k, v). (k, PStr (text_of v))) biography"

definition encode_biography_response ::
  "int \<Rightarrow> int \<Rightarrow> members \<Rightarrow> ustr \<Rightarrow> protocol_error + bytes" where
  "encode_biography_response request_token bot_guid biography token =
     and_then (check_id request_token) (\<lambda>_.
       and_then (check_id bot_guid) (\<lambda>_.
         and_then (encoder_token token) (\<lambda>token.
           if set (map fst biography) \<noteq> set biography_field_names then Inl ProtocolError
           else and_then (check_all (\<lambda>(_, v). check_biography_field v) biography) (\<lambda>_.
             json_bytes (biography_payload request_token bot_guid biography token)))))"

section \<open>Memory\<close>

text \<open>One candidate, a dictionary whose values may be anything.\<close>

definition check_memory_candidate :: "members \<Rightarrow> protocol_error + unit" where
  "check_memory_candidate c = (case map_of c (u ''paraphrase'') of
     Some (JStr p) \<Rightarrow>
       if py_strip p = [] then Inl ProtocolError
       else and_then (check_bytes max_social_context_entry_bytes p) (\<lambda>_.
         case map_of c (u ''about_guid'') of
           Some (JInt g) \<Rightarrow>
             and_then (check_id g) (\<lambda>_.
               and_then (assuring (\<exists>s \<in> fst ` set social_memory_scopes.
                   map_of c (u ''scope'') = Some (JStr s)) ProtocolError) (\<lambda>_.
                 case map_of c (u ''source_event_id'') of
                   Some (JStr e) \<Rightarrow> assuring (event_public_id_is_valid e) ProtocolError
                 | _ \<Rightarrow> Inl ProtocolError))
         | _ \<Rightarrow> Inl ProtocolError)
   | _ \<Rightarrow> Inl ProtocolError)"

definition candidate_value :: "members \<Rightarrow> string \<Rightarrow> json" where
  "candidate_value c k = the (map_of c (u k))"

definition candidate_payload :: "nat \<Rightarrow> members \<Rightarrow> payload" where
  "candidate_payload i c =
     (let prefix = u ''memory_'' @ u (show_nat i) in
      [(prefix @ u ''_paraphrase'', PStr (text_of (candidate_value c ''paraphrase''))),
       (prefix @ u ''_about_guid'', PInt (int_of_json (candidate_value c ''about_guid''))),
       (prefix @ u ''_scope'', PStr (text_of (candidate_value c ''scope''))),
       (prefix @ u ''_source_event_id'', PStr (text_of (candidate_value c ''source_event_id'')))])"

definition memory_payload :: "int \<Rightarrow> int \<Rightarrow> ustr \<Rightarrow> members list \<Rightarrow> ustr \<Rightarrow> payload" where
  "memory_payload request_token bot_guid thread_id candidates token =
     [(u ''schema_version'', PInt schema_version), (u ''token'', PStr token),
      (u ''kind'', PStr (u ''memory'')), (u ''memory_request_token'', PInt request_token),
      (u ''bot_guid'', PInt bot_guid), (u ''thread_id'', PStr thread_id),
      (u ''memory_count'', PInt (int (length candidates)))] @
     concat (map (\<lambda>(i, c). candidate_payload i c) (enumerate 0 candidates))"

definition encode_memory_response ::
  "int \<Rightarrow> int \<Rightarrow> ustr \<Rightarrow> members list \<Rightarrow> ustr \<Rightarrow> protocol_error + bytes" where
  "encode_memory_response request_token bot_guid thread_id candidates token =
     and_then (check_id request_token) (\<lambda>_.
       and_then (check_id bot_guid) (\<lambda>_.
         and_then (if thread_id = [] then Inl ProtocolError
                   else check_bytes max_thread_id_bytes thread_id) (\<lambda>_.
           and_then (assuring (length candidates \<le> max_extracted_memories) ProtocolError) (\<lambda>_.
             and_then (encoder_token token) (\<lambda>token.
               and_then (check_all check_memory_candidate candidates) (\<lambda>_.
                 json_bytes (memory_payload request_token bot_guid thread_id candidates token)))))))"

end
