(* ===== verification/Response_Facts.thy ===== *)
theory Response_Facts
  imports Responses
begin

text \<open>
  Lemmas about the texts of the encoders: how names, numbers and indexed keys are rendered and read back,
  and how many bytes each takes. \<open>Answers\<close> and \<open>Bridge\<close> rest on them.
\<close>

section \<open>Text made of literals and digits\<close>

lemma u_inject: "u s = u t \<longleftrightarrow> s = t"
  by (simp add: u_def inj_map_eq_map [OF inj_onI] inj_def)

lemma u_append: "u (s @ t) = u s @ u t"
  by (simp add: u_def)

lemma show_nat_inject: "show_nat m = show_nat n \<longleftrightarrow> m = n"
  by (metis nat_of_digits_show_nat)

lemma show_nat_starts: "u (show_nat i) @ r = c # cs \<Longrightarrow> is_udigit c"
proof -
  assume e: "u (show_nat i) @ r = c # cs"
  obtain d ds where d: "u (show_nat i) = d # ds" using u_show_nat(3) [of i] by (cases "u (show_nat i)") auto
  with u_show_nat(1) [of i] e show ?thesis by simp
qed

lemma scalar_u: "list_all (\<lambda>c. of_char c < (128 :: nat)) s \<Longrightarrow> list_all is_scalar (u s)"
  by (auto simp: u_def list_all_iff is_scalar_def is_surrogate_def)

lemma scalar_digits: "list_all is_udigit s \<Longrightarrow> list_all is_scalar s"
  by (auto simp: list_all_iff is_udigit_def is_scalar_def is_surrogate_def)

section \<open>The size of a payload\<close>

primrec value_cost :: "payload_value \<Rightarrow> nat" where
  "value_cost (PInt n) = Suc (ndigits (nat \<bar>n\<bar>))"
| "value_cost (PStr s) = 6 * byte_length s + 2"

definition entry_cost :: "ustr \<times> payload_value \<Rightarrow> nat" where
  "entry_cost e = 6 * byte_length (fst e) + 4 + value_cost (snd e)"

definition payload_cost :: "payload \<Rightarrow> nat" where
  "payload_cost p = sum_list (map entry_cost p)"

lemma byte_length_digits: "list_all is_udigit s \<Longrightarrow> byte_length s = length s"
  by (induction s) (simp_all add: is_udigit_def utf8_width_def)

lemma byte_length_escape: "byte_length (escape_char c) \<le> 6 * utf8_width c"
proof -
  have hex: "hex_code d < 128" if "d < 16" for d using that by (simp add: hex_code_def)
  show ?thesis
    using hex [of "c div 16"] hex [of "c mod 16"] by (simp add: escape_char_def utf8_width_def)
qed

lemma byte_length_quote: "byte_length (quote_string s) \<le> 6 * byte_length s + 2"
proof -
  have "byte_length (concat (map escape_char s)) \<le> 6 * byte_length s"
  proof (induction s)
    case (Cons c s)
    with byte_length_escape [of c] show ?case by simp
  qed simp
  then show ?thesis by (simp add: quote_string_def utf8_width_def)
qed

lemma byte_length_value: "byte_length (dump_value v) \<le> value_cost v"
proof (cases v)
  case (PInt n)
  have "byte_length (u (show_nat (nat \<bar>n\<bar>))) = ndigits (nat \<bar>n\<bar>)"
    using byte_length_digits [OF u_show_nat(1)] by (simp add: u_def length_show_nat)
  then show ?thesis by (simp add: PInt show_uint_def utf8_width_def)
next
  case (PStr s)
  then show ?thesis using byte_length_quote [of s] by simp
qed

lemma byte_length_members: "byte_length (dump_members p) \<le> payload_cost p"
proof (induction p rule: dump_members.induct)
  case (2 k v)
  show ?case using byte_length_quote [of k] byte_length_value [of v]
    by (simp add: payload_cost_def entry_cost_def utf8_width_def)
next
  case (3 k v kv ms)
  then show ?case using byte_length_quote [of k] byte_length_value [of v]
    by (simp add: payload_cost_def entry_cost_def utf8_width_def)
qed (simp add: payload_cost_def)

lemma json_bytes_length: "json_bytes p = Inr b \<Longrightarrow> length b \<le> payload_cost p + 2"
  using byte_length_members [of p]
  by (auto simp: json_bytes_def json_dumps_def utf8_width_def dest!: length_utf8_encode split: option.splits)

lemma ndigits_uint64:
  assumes "0 \<le> n" "n \<le> uint64_max"
  shows "ndigits (nat \<bar>n\<bar>) \<le> 20"
proof -
  have "nat \<bar>n\<bar> < 10 ^ 20" using assms by (simp add: uint64_max_def nat_less_iff)
  then show ?thesis by (simp add: ndigits_le_iff)
qed

section \<open>Encoded strings can be encoded\<close>

lemma escape_scalar: "list_all is_scalar (escape_char c) \<Longrightarrow> is_scalar c"
  by (auto simp: escape_char_def is_scalar_def is_surrogate_def split: if_splits)

lemma quote_scalar: "list_all is_scalar (quote_string s) \<Longrightarrow> list_all is_scalar s"
proof -
  assume "list_all is_scalar (quote_string s)"
  then have "\<forall>c \<in> set s. list_all is_scalar (escape_char c)"
    by (auto simp: quote_string_def list_all_iff)
  then show ?thesis by (auto simp: list_all_iff intro: escape_scalar [unfolded list_all_iff])
qed

fun number_short :: "payload_value \<Rightarrow> bool" where
  "number_short (PInt n) \<longleftrightarrow> ndigits (nat \<bar>n\<bar>) \<le> max_int_digits"
| "number_short (PStr s) \<longleftrightarrow> True"

lemma dump_value_scalar:
  "list_all is_scalar (dump_value v) \<Longrightarrow> number_short v \<Longrightarrow> writable v"
  by (cases v) (auto simp: length_show_nat dest: quote_scalar)

lemma members_scalar:
  "list_all is_scalar (dump_members p) \<Longrightarrow> list_all (\<lambda>(_, v). number_short v) p \<Longrightarrow>
    list_all (\<lambda>(k, v). list_all is_scalar k \<and> writable v) p"
  by (induction p rule: dump_members.induct) (auto dest: quote_scalar dump_value_scalar)

text \<open>What is sent reads back, by the sidecar's own reader, to exactly the payload.\<close>

lemma json_bytes_read_back:
  assumes "json_bytes p = Inr b" "distinct (map fst p)" "list_all (\<lambda>(_, v). number_short v) p"
    and "0 < py_nesting env"
  shows "load_object env b = Inr (map (\<lambda>(k, v). (k, json_of v)) p)"
proof -
  have e: "utf8_encode (json_dumps p) = Some b"
    using assms(1) by (auto simp: json_bytes_def split: option.splits)
  then have "list_all is_scalar (dump_members p)"
    by (auto simp: utf8_encode_def json_dumps_def split: if_splits)
  note w = members_scalar [OF this assms(3)]
  have "json_loads (py_nesting env) (json_dumps p) = Inr (json_of_payload p)"
    by (rule json_loads_dumps [OF assms(2) w assms(4)])
  with utf8_decode_encode [OF e] show ?thesis
    by (simp add: load_object_def json_of_payload_def)
qed

section \<open>Indexed keys\<close>

lemma map_fst_indexed: "map fst (indexed p vs) = map (\<lambda>i. u p @ u (show_nat i)) [0..<length vs]"
  by (rule nth_equalityI) (simp_all add: indexed_def split_def nth_enumerate_eq)

lemma distinct_indexed: "distinct (map fst (indexed p vs))"
  unfolding map_fst_indexed by (simp add: distinct_map inj_on_def u_inject show_nat_inject)

lemma indexed_key: "k \<in> set (map fst (indexed p vs)) \<Longrightarrow> \<exists>i. k = u p @ u (show_nat i)"
  unfolding map_fst_indexed by auto

lemma indexed_numbers: "list_all (\<lambda>(_, v). number_short v) (indexed p vs)"
  by (auto simp: indexed_def list_all_iff)

lemmas key_eval = u_Cons u_Nil

lemma index_not_letter [simp]:
  "\<not> is_udigit c \<Longrightarrow> u (show_nat i) @ r \<noteq> c # cs" "\<not> is_udigit c \<Longrightarrow> c # cs \<noteq> u (show_nat i) @ r"
  "\<not> is_udigit c \<Longrightarrow> u (show_nat i) \<noteq> c # cs" "\<not> is_udigit c \<Longrightarrow> c # cs \<noteq> u (show_nat i)"
  using show_nat_starts [of i r c cs] show_nat_starts [of i "[]" c cs] by (auto dest: sym)

section \<open>The keys of each payload\<close>

lemma response_keys: "distinct (map fst (response_payload i m t))"
  by (simp add: response_payload_def key_eval)

lemma assessment_keys: "distinct (map fst (assessment_payload i c t))"
  by (auto simp: assessment_payload_def distinct_indexed key_eval is_udigit_def
      dest!: indexed_key [simplified])

lemma social_keys: "distinct (map fst (social_payload a t))"
  by (cases "sa_metadata a")
    (auto simp: social_payload_def metadata_payload_def distinct_indexed key_eval is_udigit_def
      dest!: indexed_key [simplified])

lemma biography_keys:
  assumes "distinct (map fst bio)" "set (map fst bio) = set biography_field_names"
  shows "distinct (map fst (biography_payload i g bio t))"
proof -
  have "fst \<circ> (\<lambda>(k, v). (k, PStr (text_of v))) = (fst :: ustr \<times> json \<Rightarrow> ustr)" by auto
  moreover have "set (map fst [(u ''schema_version'', PInt schema_version), (u ''token'', PStr t),
      (u ''kind'', PStr (u ''biography'')), (u ''biography_request_token'', PInt i),
      (u ''bot_guid'', PInt g)]) \<inter> set biography_field_names = {}"
    by (simp add: biography_field_names_def key_eval)
  ultimately show ?thesis using assms
    by (simp add: biography_payload_def key_eval)
qed

lemma candidate_keys:
  "map fst (candidate_payload i c) = map (\<lambda>s. u ''memory_'' @ u (show_nat i) @ u s)
     [''_paraphrase'', ''_about_guid'', ''_scope'', ''_source_event_id'']"
  by (simp add: candidate_payload_def Let_def)

lemma digits_before_underscore:
  assumes "u (show_nat i) @ 95 # r = u (show_nat j) @ 95 # r'"
  shows "i = j \<and> r = r'"
proof -
  have tw: "takeWhile is_udigit (u (show_nat k) @ 95 # x) = u (show_nat k)" for k x
    using u_show_nat(1) [of k] by (simp add: takeWhile_append list_all_iff is_udigit_def)
  from arg_cong [OF assms, of "takeWhile is_udigit"] have "u (show_nat i) = u (show_nat j)"
    by (simp only: tw)
  then show ?thesis using assms by (simp add: u_inject show_nat_inject)
qed

lemma candidate_key_index:
  "k \<in> set (map fst (candidate_payload i c)) \<Longrightarrow> \<exists>r. k = u ''memory_'' @ u (show_nat i) @ 95 # r"
  unfolding candidate_keys by (auto simp: key_eval)

lemma candidate_keys_disjoint:
  assumes "k \<in> set (map fst (candidate_payload i c))" "k \<in> set (map fst (candidate_payload j d))"
  shows "i = j"
proof -
  obtain r r' where "u ''memory_'' @ u (show_nat i) @ 95 # r = u ''memory_'' @ u (show_nat j) @ 95 # r'"
    using candidate_key_index [OF assms(1)] candidate_key_index [OF assms(2)] by metis
  then have "u (show_nat i) @ 95 # r = u (show_nat j) @ 95 # r'" by (simp only: same_append_eq)
  then show ?thesis by (rule digits_before_underscore [THEN conjunct1])
qed

lemma distinct_candidate_keys: "distinct (map fst (candidate_payload i c))"
  unfolding candidate_keys by (simp add: key_eval)

lemma candidates_keys: "distinct (map fst (concat (map (\<lambda>(i, c). candidate_payload i c) (enumerate n cs))))"
proof (induction cs arbitrary: n)
  case (Cons c cs)
  let ?rest = "concat (map (\<lambda>(i, c). candidate_payload i c) (enumerate (Suc n) cs))"
  have "k \<notin> set (map fst ?rest)" if k: "k \<in> set (map fst (candidate_payload n c))" for k
  proof
    assume "k \<in> set (map fst ?rest)"
    then obtain i d where "(i, d) \<in> set (enumerate (Suc n) cs)" "k \<in> set (map fst (candidate_payload i d))"
      by auto
    moreover from this(1) have "n < i" by (simp add: in_set_enumerate_eq)
    ultimately show False using candidate_keys_disjoint [OF k] by blast
  qed
  then have "set (map fst (candidate_payload n c)) \<inter> set (map fst ?rest) = {}" by blast
  with Cons.IH [of "Suc n"] distinct_candidate_keys [of n c] show ?case
    by (simp only: enumerate_simps list.map prod.case concat.simps map_append distinct_append simp_thms)
qed simp

end
