(* ===== verification/Answers.thy ===== *)
theory Answers
  imports Response_Facts
begin

text \<open>
  The promises of the encoders: every answer fits in a frame, reads back to the fields it was built
  from, and a social answer is exactly one thing.
\<close>

section \<open>What a successful encoder has checked\<close>

lemma memory_keys: "distinct (map fst (memory_payload i g th cs t))"
proof -
  define rest where "rest = concat (map (\<lambda>(i, c). candidate_payload i c) (enumerate 0 cs))"
  have "distinct (map fst rest)" unfolding rest_def by (rule candidates_keys)
  moreover have "u s \<notin> fst ` set rest"
    if s: "s \<in> set [''schema_version'', ''token'', ''kind'', ''memory_request_token'',
      ''bot_guid'', ''thread_id'', ''memory_count'']" for s
  proof
    assume "u s \<in> fst ` set rest"
    then obtain e where e: "e \<in> set rest" "u s = fst e" by blast
    obtain i c where "e \<in> set (candidate_payload i c)" using e(1) by (auto simp: rest_def split_def)
    then obtain x where "fst e = u ''memory_'' @ u (show_nat i) @ 95 # x"
      using candidate_key_index [of "fst e" i c] by auto
    with e(2) have eq: "u s = u ''memory_'' @ u (show_nat i) @ 95 # x" by simp
    show False
      using s unfolding list.set insert_iff empty_iff
      by (elim disjE) (use eq in \<open>simp_all add: key_eval is_udigit_def\<close>)
  qed
  ultimately show ?thesis
    by (simp add: memory_payload_def u_inject flip: rest_def)
qed

lemma check_id_Inr: "check_id n = Inr x \<longleftrightarrow> 1 \<le> n \<and> n \<le> uint64_max"
  by (simp add: check_id_def)

lemma encoder_token_Inr: "encoder_token t = Inr t' \<longleftrightarrow> t' = t \<and> valid_token t"
  by (auto simp: encoder_token_def)

lemma check_bytes_Inr: "check_bytes n s = Inr x \<longleftrightarrow> bytes_within n s"
  by (auto simp: check_bytes_def bytes_within_def)

lemma response_message_Inr:
  "validate_response_message s = Inr x \<longleftrightarrow>
     s \<noteq> [] \<and> bytes_within max_response_message_bytes s \<and> single_line s"
  by (auto simp: validate_response_message_def and_then_Inr_iff check_bytes_Inr)

lemma check_all_Inr: "check_all f xs = Inr x \<longleftrightarrow> (\<forall>y \<in> set xs. f y = Inr ())"
  by (induction xs) (auto simp: and_then_Inr_iff)

lemmas encoder_facts = and_then_Inr_iff check_id_Inr encoder_token_Inr check_bytes_Inr
  response_message_Inr check_all_Inr

lemma encode_response_Inr:
  "encode_response i m t = Inr b \<longleftrightarrow> 1 \<le> i \<and> i \<le> uint64_max \<and> valid_token t \<and> m \<noteq> [] \<and>
     bytes_within max_response_message_bytes m \<and> single_line m \<and>
     json_bytes (response_payload i m t) = Inr b"
  by (auto simp: encode_response_def encoder_facts)

lemma encode_assessment_Inr:
  "encode_roleplay_assessment_response i c t = Inr b \<longleftrightarrow> 1 \<le> i \<and> i \<le> uint64_max \<and> valid_token t \<and>
     json_bytes (assessment_payload i c t) = Inr b"
  by (auto simp: encode_roleplay_assessment_response_def encoder_facts)

lemma biography_field_Inr:
  "check_biography_field v = Inr x \<Longrightarrow>
     \<exists>s. v = JStr s \<and> bytes_within max_biography_field_bytes s \<and> single_line s"
  by (cases v) (auto simp: check_biography_field_def encoder_facts split: if_splits)

lemma encode_biography_Inr:
  assumes "encode_biography_response i g bio t = Inr b"
  shows "1 \<le> i" "i \<le> uint64_max" "1 \<le> g" "g \<le> uint64_max" "valid_token t"
    "set (map fst bio) = set biography_field_names"
    "\<forall>(k, v) \<in> set bio. \<exists>s. v = JStr s \<and> bytes_within max_biography_field_bytes s \<and> single_line s"
    "json_bytes (biography_payload i g bio t) = Inr b"
  using assms biography_field_Inr
  by (fastforce simp: encode_biography_response_def encoder_facts split: if_splits)+

lemma memory_candidate_Inr:
  assumes "check_memory_candidate c = Inr x"
  obtains p g s e where "map_of c (u ''paraphrase'') = Some (JStr p)" "py_strip p \<noteq> []"
    "bytes_within max_social_context_entry_bytes p"
    "map_of c (u ''about_guid'') = Some (JInt g)" "1 \<le> g" "g \<le> uint64_max"
    "map_of c (u ''scope'') = Some (JStr s)" "s \<in> fst ` set social_memory_scopes"
    "map_of c (u ''source_event_id'') = Some (JStr e)" "event_public_id_is_valid e"
proof -
  obtain p where p: "map_of c (u ''paraphrase'') = Some (JStr p)" "py_strip p \<noteq> []"
    using assms by (auto simp: check_memory_candidate_def split: option.splits json.splits if_splits)
  obtain g where g: "map_of c (u ''about_guid'') = Some (JInt g)"
    using assms p by (auto simp: check_memory_candidate_def and_then_Inr_iff split: option.splits json.splits)
  obtain e where e: "map_of c (u ''source_event_id'') = Some (JStr e)"
    using assms p g by (auto simp: check_memory_candidate_def and_then_Inr_iff split: option.splits json.splits)
  show thesis
    using assms p g e that [of p g _ e] by (auto simp: check_memory_candidate_def encoder_facts)
qed

lemma encode_memory_Inr:
  assumes "encode_memory_response i g th cs t = Inr b"
  shows "1 \<le> i" "i \<le> uint64_max" "1 \<le> g" "g \<le> uint64_max" "valid_token t" "th \<noteq> []"
    "bytes_within max_thread_id_bytes th" "length cs \<le> max_extracted_memories"
    "\<forall>c \<in> set cs. check_memory_candidate c = Inr ()"
    "json_bytes (memory_payload i g th cs t) = Inr b"
  using assms by (auto simp: encode_memory_response_def encoder_facts split: if_splits)

section \<open>Sizes\<close>

lemma payload_cost_simps [simp]:
  "payload_cost [] = 0"
  "payload_cost (e # p) = entry_cost e + payload_cost p"
  "payload_cost (p @ q) = payload_cost p + payload_cost q"
  by (simp_all add: payload_cost_def)

lemma token_bytes: "valid_token t \<Longrightarrow> byte_length t \<le> 256"
  by (simp add: valid_token_def bytes_within_def max_bridge_token_bytes_def)

lemma payload_cost_indexed:
  assumes "length vs \<le> n" "n < 1000"
  shows "payload_cost (indexed p vs) \<le>
    length vs * (6 * byte_length (u p) + 24) + 6 * sum_list (map byte_length vs)"
proof -
  have digits: "byte_length (u (show_nat i)) \<le> 3" if "i < 1000" for i
    using byte_length_digits [OF u_show_nat(1)] ndigits_le_iff [of 3 i] that
    by (simp add: u_def length_show_nat)
  have "payload_cost (map (\<lambda>(i, v). (u p @ u (show_nat i), PStr v)) (enumerate k vs)) \<le>
      length vs * (6 * byte_length (u p) + 24) + 6 * sum_list (map byte_length vs)"
    if "k + length vs \<le> 1000" for k
    using that
  proof (induction vs arbitrary: k)
    case (Cons v vs)
    from Cons.IH [of "Suc k"] digits [of k] Cons.prems show ?case by (simp add: entry_cost_def)
  qed simp
  from this [of 0] assms show ?thesis by (simp add: indexed_def)
qed

lemma sum_list_bound: "(\<And>x. x \<in> set xs \<Longrightarrow> f x \<le> n) \<Longrightarrow> sum_list (map f xs) \<le> length xs * n"
  for f :: "'a \<Rightarrow> nat"
  by (induction xs) (fastforce intro: add_mono)+

lemma ndigits_small: "n \<le> 1000 \<Longrightarrow> ndigits n \<le> 20"
  by (simp add: ndigits_le_iff)

lemma response_cost:
  assumes "encode_response i m t = Inr b"
  shows "length b \<le> 65536"
proof -
  have "ndigits (nat \<bar>i\<bar>) \<le> 20" "byte_length m \<le> 240" "byte_length t \<le> 256" "ndigits 6 \<le> 20"
    using assms ndigits_uint64 [of i] token_bytes [of t] ndigits_small [of 6]
    by (auto simp: encode_response_Inr bytes_within_def max_response_message_bytes_def)
  moreover have "length b \<le> payload_cost (response_payload i m t) + 2"
    using assms unfolding encode_response_Inr by (blast intro: json_bytes_length)
  ultimately show ?thesis
    by (simp add: response_payload_def entry_cost_def key_eval utf8_width_def schema_version_def)
qed

lemma assessment_cost:
  assumes "encode_roleplay_assessment_response i c t = Inr b" "length (asc_capabilities c) \<le> 10"
  shows "length b \<le> 65536"
proof -
  let ?caps = "map (spelling_of content_capabilities) (asc_capabilities c)"
  have cap: "byte_length (spelling_of content_capabilities x) \<le> 26" for x
    by (cases x) (simp_all add: spelling_of_def content_capabilities_def key_eval utf8_width_def)
  have kind: "byte_length (spelling_of assessment_kinds x) \<le> 26" for x
    by (cases x) (simp_all add: spelling_of_def assessment_kinds_def key_eval utf8_width_def)
  have "sum_list (map byte_length ?caps) \<le> length ?caps * 26"
    using cap by (intro sum_list_bound) auto
  with assms(2) have "sum_list (map byte_length ?caps) \<le> 260" by simp
  moreover have "payload_cost (indexed ''capability_'' ?caps) \<le>
      length ?caps * (6 * byte_length (u ''capability_'') + 24) + 6 * sum_list (map byte_length ?caps)"
    using assms(2) by (intro payload_cost_indexed [where n = 10]) auto
  moreover have "length ?caps * (6 * byte_length (u ''capability_'') + 24) \<le> 10 * 90"
    using assms(2) by (simp add: key_eval utf8_width_def)
  moreover have "ndigits (nat \<bar>i\<bar>) \<le> 20" "byte_length t \<le> 256" "ndigits 6 \<le> 20"
    "ndigits (length (asc_capabilities c)) \<le> 20"
    using assms ndigits_uint64 [of i] token_bytes [of t] ndigits_small
    by (auto simp: encode_assessment_Inr)
  moreover have "length b \<le> payload_cost (assessment_payload i c t) + 2"
    using assms unfolding encode_assessment_Inr by (blast intro: json_bytes_length)
  ultimately show ?thesis using kind [of "asc_kind c"]
    by (simp add: assessment_payload_def entry_cost_def key_eval utf8_width_def schema_version_def)
qed

lemma biography_cost:
  assumes "encode_biography_response i g bio t = Inr b" "distinct (map fst bio)"
  shows "length b \<le> 65536"
proof -
  note facts = encode_biography_Inr [OF assms(1)]
  have "length bio = card (set (map fst bio))" using distinct_card [OF assms(2)] by simp
  also have "\<dots> \<le> 8" unfolding facts(6) biography_field_names_def
    by (rule order_trans [OF card_length]) simp
  finally have len: "length bio \<le> 8" .
  have "entry_cost (k, PStr (text_of v)) \<le> 1600" if kv: "(k, v) \<in> set bio" for k v
  proof -
    have "k \<in> set (map fst bio)" using kv by force
    then have "k \<in> set biography_field_names" by (simp only: facts(6))
    then have "byte_length k \<le> 20"
      unfolding biography_field_names_def list.set list.map insert_iff empty_iff
      by (elim disjE) (simp_all add: key_eval utf8_width_def)
    moreover have "byte_length (text_of v) \<le> 240"
      using facts(7) kv by (auto simp: bytes_within_def text_of_def max_biography_field_bytes_def)
    ultimately show ?thesis by (simp add: entry_cost_def)
  qed
  then have "sum_list (map (\<lambda>(k, v). entry_cost (k, PStr (text_of v))) bio) \<le> length bio * 1600"
    by (intro sum_list_bound) auto
  moreover have "payload_cost (map (\<lambda>(k, v). (k, PStr (text_of v))) bio) =
      sum_list (map (\<lambda>(k, v). entry_cost (k, PStr (text_of v))) bio)"
    by (simp add: payload_cost_def o_def split_def)
  ultimately have "payload_cost (map (\<lambda>(k, v). (k, PStr (text_of v))) bio) \<le> 12800"
    using len by linarith
  moreover have "length b \<le> payload_cost (biography_payload i g bio t) + 2"
    using facts(8) by (rule json_bytes_length)
  moreover have "ndigits (nat \<bar>i\<bar>) \<le> 20" "ndigits (nat \<bar>g\<bar>) \<le> 20" "byte_length t \<le> 256" "ndigits 6 \<le> 20"
    using facts ndigits_uint64 token_bytes ndigits_small by simp_all
  ultimately show ?thesis
    by (simp add: biography_payload_def entry_cost_def key_eval utf8_width_def schema_version_def)
qed

lemma event_id_form: "event_public_id_is_valid s \<longleftrightarrow> is_event_id s"
proof -
  have "length (u ''evt_'') = 4" by (simp add: key_eval)
  then show ?thesis
    by (auto simp: event_public_id_is_valid_def is_event_id_def remove_prefix_def Let_def)
qed

lemma hex_text: "list_all hex_digit s \<Longrightarrow> byte_length s = length s \<and> list_all is_scalar s"
proof (induction s)
  case (Cons c s)
  then have "utf8_width c = 1 \<and> is_scalar c"
    by (auto simp: hex_digit_def key_eval utf8_width_def is_scalar_def is_surrogate_def)
  with Cons show ?case by simp
qed simp

lemma event_id_bytes:
  assumes "is_event_id e"
  shows "byte_length e = 36 \<and> list_all is_scalar e"
proof -
  define r where "r = drop 4 e"
  have r: "length r = 32" "list_all hex_digit r" using assms by (simp_all add: is_event_id_def r_def)
  have e: "e = u ''evt_'' @ r"
    using assms append_take_drop_id [of 4 e] by (simp add: is_event_id_def r_def)
  show ?thesis using hex_text [OF r(2)] r(1)
    by (simp add: e key_eval utf8_width_def is_scalar_def is_surrogate_def)
qed

lemma candidate_cost:
  assumes "check_memory_candidate c = Inr x" "k < 1000"
  shows "payload_cost (candidate_payload k c) \<le> 5000"
proof -
  from assms(1) obtain p g s e where f: "map_of c (u ''paraphrase'') = Some (JStr p)"
    "bytes_within max_social_context_entry_bytes p"
    "map_of c (u ''about_guid'') = Some (JInt g)" "1 \<le> g" "g \<le> uint64_max"
    "map_of c (u ''scope'') = Some (JStr s)" "s \<in> fst ` set social_memory_scopes"
    "map_of c (u ''source_event_id'') = Some (JStr e)" "event_public_id_is_valid e"
    by (rule memory_candidate_Inr)
  have "byte_length s \<le> 7"
    using f(7) by (auto simp: social_memory_scopes_def key_eval utf8_width_def)
  moreover have "byte_length e = 36" using f(9) event_id_form event_id_bytes by simp
  moreover have "ndigits (nat \<bar>g\<bar>) \<le> 20" "byte_length p \<le> 512"
    using f ndigits_uint64 by (auto simp: bytes_within_def max_social_context_entry_bytes_def)
  moreover have "byte_length (u (show_nat k)) \<le> 3"
    using byte_length_digits [OF u_show_nat(1)] ndigits_le_iff [of 3 k] assms(2)
    by (simp add: u_def length_show_nat)
  moreover have "candidate_value c ''paraphrase'' = JStr p" "candidate_value c ''about_guid'' = JInt g"
    "candidate_value c ''scope'' = JStr s" "candidate_value c ''source_event_id'' = JStr e"
    using f by (simp_all add: candidate_value_def)
  ultimately show ?thesis
    by (simp add: candidate_payload_def Let_def entry_cost_def text_of_def int_of_json_def key_eval
        utf8_width_def)
qed

lemma memory_cost:
  assumes "encode_memory_response i g th cs t = Inr b"
  shows "length b \<le> 65536"
proof -
  note facts = encode_memory_Inr [OF assms]
  let ?parts = "map (\<lambda>(i, c). candidate_payload i c) (enumerate 0 cs)"
  have "payload_cost (concat xs) = sum_list (map payload_cost xs)" for xs
    by (induction xs) simp_all
  moreover have "sum_list (map payload_cost ?parts) \<le> length ?parts * 5000"
  proof (rule sum_list_bound)
    fix x assume "x \<in> set ?parts"
    then obtain k c where x: "x = candidate_payload k c" "k < length cs" "c \<in> set cs"
      by (auto simp: in_set_enumerate_eq)
    with facts(8,9) show "payload_cost x \<le> 5000"
      by (auto intro: candidate_cost simp: max_extracted_memories_def)
  qed
  ultimately have "payload_cost (concat ?parts) \<le> 20000"
    using facts(8) by (simp add: max_extracted_memories_def)
  moreover have "ndigits (nat \<bar>i\<bar>) \<le> 20" "ndigits (nat \<bar>g\<bar>) \<le> 20" "byte_length t \<le> 256"
    "ndigits 6 \<le> 20" "byte_length th \<le> 64" "ndigits (length cs) \<le> 20"
    using facts ndigits_uint64 token_bytes ndigits_small
    by (auto simp: bytes_within_def wire_bounds)
  moreover have "length b \<le> payload_cost (memory_payload i g th cs t) + 2"
    using facts(10) by (rule json_bytes_length)
  ultimately show ?thesis
    by (simp add: memory_payload_def entry_cost_def key_eval utf8_width_def schema_version_def
        del: concat.simps)
qed

section \<open>The forms of a social answer\<close>

definition normal_answer :: "social_answer \<Rightarrow> social_answer" where
  "normal_answer a = (if sa_regenerate a then a\<lparr>sa_message := [], sa_emote_id := 0\<rparr> else a)"

lemma answer_form_Inr:
  assumes "check_answer_form a = Inr a'"
  shows "a' = normal_answer a"
    "sa_regenerate a \<Longrightarrow> sa_metadata a = None \<and> sa_evidence_ids a = []"
    "\<not> sa_regenerate a \<Longrightarrow> sa_emote_id a \<noteq> 0 \<Longrightarrow> sa_emote_id a \<in> set social_emote_ids \<and>
       sa_message a = [] \<and> sa_channel a \<in> set social_emote_channels"
    "\<not> sa_regenerate a \<Longrightarrow> sa_message a \<noteq> [] \<Longrightarrow> sa_emote_id a = 0 \<and>
       bytes_within max_response_message_bytes (sa_message a) \<and> single_line (sa_message a)"
  using assms
  by (auto simp: check_answer_form_def normal_answer_def encoder_facts split: if_splits)

lemma proposal_Inr:
  assumes "check_proposal env a = Inr x"
  shows "sa_metadata a \<noteq> None" "\<exists>s \<in> set contributions. sa_contribution a = Some s"
    "\<exists>s \<in> set claim_subjects. sa_claim_subject a = Some s"
    "length (sa_evidence_ids a) \<le> max_social_evidence_entries" "distinct (sa_evidence_ids a)"
    "length (sa_memory_ids a) \<le> max_social_context_entries" "distinct (sa_memory_ids a)"
    "proposal_coherent a"
  using assms by (auto simp: check_proposal_def split: if_splits)

lemma encode_social_Inr:
  assumes "encode_social_response env a t = Inr b"
  shows "1 \<le> sa_request_token a" "sa_request_token a \<le> uint64_max" "1 \<le> sa_bot_guid a"
    "sa_bot_guid a \<le> uint64_max" "0 \<le> sa_channel a" "sa_channel a \<le> 255" "valid_token t"
    "check_answer_form a = Inr (normal_answer a)"
    "\<not> sa_regenerate a \<Longrightarrow> check_proposal env a = Inr ()"
    "json_bytes (social_payload (normal_answer a) t) = Inr b"
proof -
  obtain a' where a': "check_answer_form a = Inr a'"
    "(if sa_regenerate a' then Inr () else check_proposal env a') = Inr ()"
    "json_bytes (social_payload a' t) = Inr b"
    and rest: "1 \<le> sa_request_token a" "sa_request_token a \<le> uint64_max" "1 \<le> sa_bot_guid a"
      "sa_bot_guid a \<le> uint64_max" "0 \<le> sa_channel a" "sa_channel a \<le> 255" "valid_token t"
    using assms by (auto simp: encode_social_response_def encoder_facts)
  have n: "a' = normal_answer a" by (rule answer_form_Inr(1) [OF a'(1)])
  show "1 \<le> sa_request_token a" "sa_request_token a \<le> uint64_max" "1 \<le> sa_bot_guid a"
    "sa_bot_guid a \<le> uint64_max" "0 \<le> sa_channel a" "sa_channel a \<le> 255" "valid_token t"
    by (rule rest)+
  show "check_answer_form a = Inr (normal_answer a)" using a'(1) n by simp
  show "json_bytes (social_payload (normal_answer a) t) = Inr b" using a'(3) n by simp
  show "check_proposal env a = Inr ()" if "\<not> sa_regenerate a"
    using a'(2) that n by (simp add: normal_answer_def)
qed

text \<open>
  C28. What a social response says is one thing, and says it completely.
  When the encoder accepts an answer, the payload it sends is exactly one of four: a regeneration, with
  neither text, gesture, citations nor call metadata; a gesture of the closed list, on a channel where
  it can be seen, without text or citations; one line of at most 240 bytes without control characters,
  contributed as an answer, a reaction or banter; or a deliberate silence, with nothing cited. All but
  the first carry the metadata of the call, and cite no evidence or memory twice.
\<close>

theorem social_answer_is_one_thing:
  assumes "encode_social_response env a t = Inr b"
  defines "a' \<equiv> normal_answer a"
  shows "json_bytes (social_payload a' t) = Inr b \<and>
    (sa_regenerate a' \<longrightarrow> sa_message a' = [] \<and> sa_emote_id a' = 0 \<and> sa_metadata a' = None \<and>
       sa_evidence_ids a' = []) \<and>
    (\<not> sa_regenerate a' \<longrightarrow> sa_metadata a' \<noteq> None \<and> distinct (sa_evidence_ids a') \<and>
       distinct (sa_memory_ids a') \<and>
       (if sa_emote_id a' \<noteq> 0 then
          sa_emote_id a' \<in> set social_emote_ids \<and> sa_channel a' \<in> {1, 2} \<and> sa_message a' = [] \<and>
          sa_contribution a' = Some (u ''gesture'') \<and> sa_evidence_ids a' = [] \<and> sa_memory_ids a' = []
        else if sa_message a' \<noteq> [] then
          byte_length (sa_message a') \<le> 240 \<and> list_all (\<lambda>c. 32 \<le> c) (sa_message a') \<and>
          sa_contribution a' \<in> {Some (u ''answer''), Some (u ''specific_reaction''),
            Some (u ''fact_free_banter'')}
        else sa_contribution a' = Some (u ''none'') \<and> sa_evidence_ids a' = [] \<and>
          sa_memory_ids a' = []))"
proof -
  note facts = encode_social_Inr [OF assms(1)]
  note form = answer_form_Inr [OF facts(8)]
  have regen: "sa_regenerate a' = sa_regenerate a" by (simp add: a'_def normal_answer_def)
  show ?thesis
  proof (cases "sa_regenerate a")
    case True
    with form(2) facts(10) show ?thesis by (simp add: a'_def normal_answer_def)
  next
    case False
    note pf = proposal_Inr [OF facts(9) [OF False]]
    have same: "a' = a" using False by (simp add: a'_def normal_answer_def)
    show ?thesis
      using False pf(1,5,7,8) form(3,4) facts(10)
      by (auto simp: same normal_answer_def proposal_coherent_def Let_def bytes_within_def single_line_def
          social_emote_channels_def max_response_message_bytes_def)
  qed
qed

definition example_metadata :: social_call_metadata where
  "example_metadata = \<lparr>md_model = u ''m'', md_latency_ms = 3, md_input_tokens = 5,
     md_output_tokens = 7, md_cache_creation_tokens = 0, md_cache_read_tokens = 0,
     md_cost_usd = u ''0.000100''\<rparr>"

definition example_answer :: social_answer where
  "example_answer = \<lparr>sa_request_token = 31, sa_bot_guid = 7, sa_channel = 1, sa_message = [],
     sa_regenerate = False, sa_emote_id = 101, sa_metadata = Some example_metadata,
     sa_contribution = Some (u ''gesture''), sa_claim_subject = Some (u ''none''),
     sa_evidence_ids = [], sa_memory_ids = []\<rparr>"

lemma json_bytes_scalar:
  "list_all (\<lambda>(k, v). list_all is_scalar k \<and> (case v of PInt n \<Rightarrow> True | PStr s \<Rightarrow> list_all is_scalar s)) p
    \<Longrightarrow> \<exists>b. json_bytes p = Inr b"
proof -
  have small: "c < 128 \<Longrightarrow> is_scalar c" for c by (simp add: is_scalar_def is_surrogate_def)
  have hex: "d < 16 \<Longrightarrow> is_scalar (hex_code d)" for d by (rule small) (simp add: hex_code_def)
  have esc: "is_scalar c \<Longrightarrow> list_all is_scalar (escape_char c)" for c
    using hex [of "c div 16"] hex [of "c mod 16"] by (simp add: escape_char_def small)
  have "list_all is_scalar s \<Longrightarrow> list_all is_scalar (concat (map escape_char s))" for s
    by (induction s) (simp_all add: esc)
  then have quote: "list_all is_scalar s \<Longrightarrow> list_all is_scalar (quote_string s)" for s
    by (simp add: quote_string_def small)
  have num: "list_all is_scalar (show_uint n)" for n
    using scalar_digits [OF u_show_nat(1)]
    by (simp add: show_uint_def small)
  note ascii = small [of 58] small [of 44] small [of 123] small [of 125]
  assume "list_all (\<lambda>(k, v). list_all is_scalar k \<and>
      (case v of PInt n \<Rightarrow> True | PStr s \<Rightarrow> list_all is_scalar s)) p"
  then have "list_all is_scalar (dump_members p)"
  proof (induction p rule: dump_members.induct)
    case (2 k v)
    then show ?case using quote num ascii by (cases v) auto
  next
    case (3 k v kv ms)
    then show ?case using quote num ascii by (cases v) auto
  qed simp
  then have "list_all is_scalar (json_dumps p)" using ascii by (simp add: json_dumps_def)
  then show ?thesis by (simp add: json_bytes_def utf8_encode_def)
qed

lemma example_answer_encodes: "\<exists>b. encode_social_response env example_answer example_token = Inr b"
proof -
  have tok: "valid_token example_token"
    by (simp add: valid_token_def bytes_within_def example_token_def key_eval is_scalar_def
        is_surrogate_def utf8_width_def wire_bounds)
  have "\<exists>b. json_bytes (social_payload example_answer example_token) = Inr b"
    by (rule json_bytes_scalar)
      (simp add: social_payload_def example_answer_def example_metadata_def metadata_payload_def
        indexed_def example_token_def key_eval is_scalar_def is_surrogate_def)
  moreover have "check_answer_form example_answer = Inr example_answer"
    by (simp add: check_answer_form_def example_answer_def social_emote_ids_def social_emote_channels_def)
  moreover have "check_proposal env example_answer = Inr ()"
    by (simp add: check_proposal_def example_answer_def contributions_def claim_subjects_def
        proposal_coherent_def Let_def)
  ultimately show ?thesis using tok
    by (simp add: encode_social_response_def encoder_token_def check_id_def)
      (simp add: example_answer_def uint64_max_def)
qed

theorem social_answer_is_one_thing_witness:
  "\<exists>b. encode_social_response example_env example_answer example_token = Inr b \<and>
     json_bytes (social_payload example_answer example_token) = Inr b \<and>
     (101 :: int) \<in> set social_emote_ids"
proof -
  obtain b where b: "encode_social_response example_env example_answer example_token = Inr b"
    using example_answer_encodes by blast
  have n: "normal_answer example_answer = example_answer" "\<not> sa_regenerate example_answer"
    "sa_emote_id example_answer = 101"
    by (simp_all add: normal_answer_def example_answer_def)
  from social_answer_is_one_thing [OF b] b show ?thesis unfolding n by (simp add: n)
qed

section \<open>Every answer\<close>

datatype answer =
    ChatAnswer int ustr
  | AssessmentAnswer int assessment_completion
  | SocialAnswer social_answer
  | BiographyAnswer int int members
  | MemoryAnswer int int ustr "members list"

fun encode_answer :: "interpreter \<Rightarrow> ustr \<Rightarrow> answer \<Rightarrow> protocol_error + bytes" where
  "encode_answer env t (ChatAnswer i m) = encode_response i m t"
| "encode_answer env t (AssessmentAnswer i c) = encode_roleplay_assessment_response i c t"
| "encode_answer env t (SocialAnswer a) = encode_social_response env a t"
| "encode_answer env t (BiographyAnswer i g bio) = encode_biography_response i g bio t"
| "encode_answer env t (MemoryAnswer i g th cs) = encode_memory_response i g th cs t"

fun answer_payload :: "ustr \<Rightarrow> answer \<Rightarrow> payload" where
  "answer_payload t (ChatAnswer i m) = response_payload i m t"
| "answer_payload t (AssessmentAnswer i c) = assessment_payload i c t"
| "answer_payload t (SocialAnswer a) = social_payload (normal_answer a) t"
| "answer_payload t (BiographyAnswer i g bio) = biography_payload i g bio t"
| "answer_payload t (MemoryAnswer i g th cs) = memory_payload i g th cs t"

text \<open>
  What the types of the arguments guarantee: a validated completion, validated metadata (with counters
  of at most twenty digits), a dictionary without duplicate keys, and citations of ids that came in
  with one request, whose evidence and context bound their size.
\<close>

definition modest :: "int \<Rightarrow> bool" where "modest n \<longleftrightarrow> 0 \<le> n \<and> n < 10 ^ 20"

definition modest_metadata :: "social_call_metadata \<Rightarrow> bool" where
  "modest_metadata m \<longleftrightarrow> valid_metadata m \<and> modest (md_latency_ms m) \<and> modest (md_input_tokens m) \<and>
     modest (md_output_tokens m) \<and> modest (md_cache_creation_tokens m) \<and>
     modest (md_cache_read_tokens m)"

fun answer_ok :: "answer \<Rightarrow> bool" where
  "answer_ok (ChatAnswer i m) \<longleftrightarrow> True"
| "answer_ok (AssessmentAnswer i c) \<longleftrightarrow> assessment_shape_ok c"
| "answer_ok (SocialAnswer a) \<longleftrightarrow>
     (case sa_metadata a of None \<Rightarrow> True | Some m \<Rightarrow> modest_metadata m) \<and>
     sum_list (map byte_length (sa_evidence_ids a)) \<le> max_social_evidence_envelope_bytes \<and>
     sum_list (map byte_length (sa_memory_ids a)) \<le> max_social_context_bytes"
| "answer_ok (BiographyAnswer i g bio) \<longleftrightarrow> distinct (map fst bio)"
| "answer_ok (MemoryAnswer i g th cs) \<longleftrightarrow> True"

lemma assessment_length: "assessment_shape_ok c \<Longrightarrow> length (asc_capabilities c) \<le> 10"
proof -
  assume ok: "assessment_shape_ok c"
  have "card (set (asc_capabilities c)) \<le> card (set (map snd content_capabilities))"
    by (rule card_mono) (auto simp: content_capabilities_def intro: content_capability.exhaust)
  also have "\<dots> \<le> length (map snd content_capabilities)" by (rule card_length)
  finally have "card (set (asc_capabilities c)) \<le> 10" by (simp add: content_capabilities_def)
  moreover have "distinct (asc_capabilities c)"
    using ok by (auto simp: assessment_shape_ok_def Let_def split: if_splits)
  ultimately show ?thesis by (simp add: distinct_card)
qed

lemma modest_digits: "modest n \<Longrightarrow> 0 \<le> n \<and> ndigits (nat n) \<le> 20"
  by (simp add: modest_def ndigits_le_iff nat_less_iff)

lemma cost_usd_bytes:
  assumes "is_cost_usd s"
  shows "byte_length s \<le> 13"
proof -
  define w r where "w = takeWhile is_udigit s" and "r = dropWhile is_udigit s"
  have s: "s = w @ r" by (simp add: w_def r_def)
  have c: "w = [48] \<or> w \<noteq> [] \<and> hd w \<noteq> 48 \<and> length w \<le> 6" "length r = 7" "hd r = 46"
    "list_all is_udigit (tl r)"
    using assms by (auto simp: is_cost_usd_def Let_def w_def r_def)
  have "list_all is_udigit w" by (auto simp: w_def list_all_iff dest: set_takeWhileD)
  then have "byte_length w \<le> 6" using c(1) by (auto simp: byte_length_digits)
  moreover obtain r' where "r = 46 # r'" using c by (cases r) auto
  then have "byte_length r = 7" using c by (simp add: byte_length_digits utf8_width_def)
  ultimately show ?thesis by (simp add: s)
qed

lemma contribution_bytes: "s \<in> set contributions \<Longrightarrow> byte_length s \<le> 17"
  unfolding contributions_def list.set list.map insert_iff empty_iff
  by (elim disjE) (simp_all add: key_eval utf8_width_def)

lemma claim_subject_bytes: "s \<in> set claim_subjects \<Longrightarrow> byte_length s \<le> 17"
  unfolding claim_subjects_def list.set list.map insert_iff empty_iff
  by (elim disjE) (simp_all add: key_eval utf8_width_def)

lemma metadata_cost: "modest_metadata m \<Longrightarrow> payload_cost (metadata_payload m) \<le> 2000"
proof -
  assume m: "modest_metadata m"
  then have "byte_length (md_cost_usd m) \<le> 13" "byte_length (md_model m) \<le> 64"
    by (simp_all add: modest_metadata_def valid_metadata_def cost_usd_bytes bytes_within_def
        max_social_model_bytes_def)
  moreover from m have "modest (md_latency_ms m)" "modest (md_input_tokens m)"
    "modest (md_output_tokens m)" "modest (md_cache_creation_tokens m)" "modest (md_cache_read_tokens m)"
    by (simp_all add: modest_metadata_def)
  note this [THEN modest_digits]
  ultimately show ?thesis by (simp add: metadata_payload_def entry_cost_def key_eval utf8_width_def)
qed

lemma social_cost:
  assumes "encode_social_response env a t = Inr b" "answer_ok (SocialAnswer a)"
  shows "length b \<le> 65536"
proof -
  note facts = encode_social_Inr [OF assms(1)]
  note form = answer_form_Inr [OF facts(8)]
  let ?a = "normal_answer a"
  have base: "length b \<le> payload_cost (social_payload ?a t) + 2"
    using facts(10) by (rule json_bytes_length)
  have n: "byte_length t \<le> 256" "ndigits (nat \<bar>sa_request_token a\<bar>) \<le> 20"
    "ndigits (nat \<bar>sa_bot_guid a\<bar>) \<le> 20" "ndigits 9 \<le> 20" "ndigits 1 \<le> 20" "ndigits 0 \<le> 20"
    "ndigits (nat (sa_channel a)) \<le> 20" "0 \<le> sa_channel a"
    using facts ndigits_uint64 token_bytes ndigits_small by simp_all
  show ?thesis
  proof (cases "sa_regenerate a")
    case True
    with form(2) base n show ?thesis
      by (simp add: social_payload_def normal_answer_def entry_cost_def key_eval utf8_width_def
          social_schema_version_def)
  next
    case False
    note pf = proposal_Inr [OF facts(9) [OF False]]
    obtain m where m: "sa_metadata a = Some m" "modest_metadata m" using pf(1) assms(2) by auto
    obtain c cl where c: "sa_contribution a = Some c" "byte_length c \<le> 17"
      "sa_claim_subject a = Some cl" "byte_length cl \<le> 17"
      using pf(2,3) contribution_bytes claim_subject_bytes by blast
    have "\<forall>i \<in> set social_emote_ids. 0 \<le> i \<and> i \<le> 1000" by (simp add: social_emote_ids_def)
    then have emote: "0 \<le> sa_emote_id a" "ndigits (nat (sa_emote_id a)) \<le> 20"
      using form(3) [OF False] ndigits_small by (cases "sa_emote_id a = 0"; fastforce)+
    have msg: "byte_length (sa_message a) \<le> 240"
      using form(4) [OF False] by (cases "sa_message a = []")
        (auto simp: bytes_within_def max_response_message_bytes_def)
    have ev: "payload_cost (indexed ''citation_'' (sa_evidence_ids a)) \<le> 24 * 78 + 6 * 2048"
      using payload_cost_indexed [of "sa_evidence_ids a" 24 "''citation_''"] pf(4) assms(2)
      by (simp add: wire_bounds key_eval utf8_width_def)
    have mem: "payload_cost (indexed ''memory_citation_'' (sa_memory_ids a)) \<le> 12 * 120 + 6 * 4096"
      using payload_cost_indexed [of "sa_memory_ids a" 12 "''memory_citation_''"] pf(6) assms(2)
      by (simp add: wire_bounds key_eval utf8_width_def)
    have counts: "ndigits (length (sa_evidence_ids a)) \<le> 20" "ndigits (length (sa_memory_ids a)) \<le> 20"
      using pf(4,6) ndigits_small by (simp_all add: wire_bounds)
    show ?thesis
      using base n False c emote msg ev mem counts metadata_cost [OF m(2)]
      by (simp add: social_payload_def normal_answer_def m(1) entry_cost_def key_eval utf8_width_def
          social_schema_version_def)
  qed
qed

text \<open>
  C30. An answer the encoder accepts can always be sent: whatever the kind of
  answer, its payload is at most 64 KiB even if every character had to be escaped, so framing never
  refuses it, and the far side reads exactly that payload back from the stream.
\<close>

theorem answers_fit_one_frame:
  assumes "encode_answer env t ans = Inr b" "answer_ok ans"
  shows "\<exists>f. encode_frame b = Inr f \<and> read_frame (f @ rest) = Inr (b, rest)"
proof -
  have "length b \<le> 65536"
    using assms
  proof (cases ans)
    case (AssessmentAnswer i c)
    with assms show ?thesis using assessment_cost assessment_length by simp
  qed (auto intro: response_cost biography_cost memory_cost social_cost)
  then obtain f where "encode_frame b = Inr f"
    by (simp add: encode_frame_def max_frame_payload_bytes_def)
  then show ?thesis using read_encoded_frame by blast
qed

theorem answers_fit_one_frame_witness:
  "\<exists>b f. encode_answer example_env example_token (SocialAnswer example_answer) = Inr b \<and>
     read_frame (f @ [7]) = Inr (b, [7])"
proof -
  obtain b where "encode_answer example_env example_token (SocialAnswer example_answer) = Inr b"
    using example_answer_encodes by auto
  moreover have "modest_metadata example_metadata"
    by (simp add: modest_metadata_def modest_def valid_metadata_def example_metadata_def field_eval
        key_eval wire_bounds is_cost_usd_def is_udigit_def Let_def)
  then have "answer_ok (SocialAnswer example_answer)" by (simp add: example_answer_def)
  ultimately show ?thesis using answers_fit_one_frame by blast
qed

end
