(* ===== verification/Bridge.thy ===== *)
theory Bridge
  imports Answers
begin

text \<open>
  The bridge as a whole: an answer read back gives the fields it was built from, a parser lets nothing
  through without the shared token, and a name the parsers check is made of letters and marks only before
  it enters the trusted half of a prompt.
\<close>

section \<open>Reading an answer back\<close>

lemma short_numbers: "ndigits (nat \<bar>n\<bar>) \<le> 20 \<Longrightarrow> number_short (PInt n)"
  by (simp add: max_int_digits_def)

lemma short_id: "0 \<le> n \<Longrightarrow> n \<le> uint64_max \<Longrightarrow> number_short (PInt n)"
  by (rule short_numbers, rule ndigits_uint64)

lemma short_small: "0 \<le> n \<Longrightarrow> n \<le> 1000 \<Longrightarrow> number_short (PInt n)"
  by (rule short_numbers) (simp add: ndigits_small)

lemma short_modest: "modest n \<Longrightarrow> number_short (PInt n)"
  by (rule short_numbers) (use modest_digits in force)

lemma short_metadata: "modest_metadata m \<Longrightarrow> list_all (\<lambda>(_, v). number_short v) (metadata_payload m)"
  unfolding modest_metadata_def metadata_payload_def
  by (simp add: short_modest del: number_short.simps(1))

lemma social_numbers:
  assumes "encode_social_response env a t = Inr b" "answer_ok (SocialAnswer a)"
  shows "list_all (\<lambda>(_, v). number_short v) (social_payload (normal_answer a) t)"
proof -
  note facts = encode_social_Inr [OF assms(1)]
  note form = answer_form_Inr [OF facts(8)]
  have base: "number_short (PInt (sa_request_token a))" "number_short (PInt (sa_bot_guid a))"
    "number_short (PInt (sa_channel a))" "number_short (PInt social_schema_version)"
    "number_short (PInt 0)" "number_short (PInt 1)"
    using facts by (auto intro!: short_id simp: social_schema_version_def uint64_max_def
        simp del: number_short.simps)
  show ?thesis
  proof (cases "sa_regenerate a")
    case True
    with form(2) base show ?thesis
      by (simp add: social_payload_def normal_answer_def del: number_short.simps(1))
  next
    case False
    note pf = proposal_Inr [OF facts(9) [OF False]]
    obtain m where m: "sa_metadata a = Some m" "modest_metadata m" using pf(1) assms(2) by auto
    have "\<forall>i \<in> set social_emote_ids. 0 \<le> i \<and> i \<le> 1000" by (simp add: social_emote_ids_def)
    then have emote: "number_short (PInt (sa_emote_id a))"
      using form(3) [OF False] base(5) by (cases "sa_emote_id a = 0")
        (auto intro!: short_small simp del: number_short.simps)
    have "number_short (PInt (int (length (sa_evidence_ids a))))"
      "number_short (PInt (int (length (sa_memory_ids a))))"
      using pf(4,6) by (auto intro!: short_small simp: wire_bounds simp del: number_short.simps)
    with False base emote short_metadata [OF m(2)] indexed_numbers show ?thesis
      by (simp add: social_payload_def normal_answer_def m(1) del: number_short.simps(1))
  qed
qed

lemma list_all_enumerated:
  "(\<And>k c. c \<in> set cs \<Longrightarrow> list_all P (f k c)) \<Longrightarrow> list_all P (concat (map (\<lambda>(k, c). f k c) (enumerate n cs)))"
  by (induction cs arbitrary: n) simp_all

lemma answer_numbers:
  assumes "encode_answer env t ans = Inr b" "answer_ok ans"
  shows "list_all (\<lambda>(_, v). number_short v) (answer_payload t ans)"
proof (cases ans)
  case (ChatAnswer i m)
  with assms have "number_short (PInt i)" by (intro short_id) (auto simp: encode_response_Inr)
  moreover have "number_short (PInt schema_version)" by (rule short_small) (simp_all add: schema_version_def)
  ultimately show ?thesis by (simp add: ChatAnswer response_payload_def del: number_short.simps(1))
next
  case (AssessmentAnswer i c)
  with assms have "number_short (PInt i)" by (intro short_id) (auto simp: encode_assessment_Inr)
  moreover have "number_short (PInt schema_version)" by (rule short_small) (simp_all add: schema_version_def)
  moreover have "number_short (PInt (int (length (asc_capabilities c))))"
    using assessment_length [of c] assms AssessmentAnswer by (intro short_small) auto
  ultimately show ?thesis
    by (simp add: AssessmentAnswer assessment_payload_def indexed_numbers del: number_short.simps(1))
next
  case (SocialAnswer a)
  with assms show ?thesis using social_numbers [of env a t b] by simp
next
  case (BiographyAnswer i g bio)
  have "number_short (PInt i)" "number_short (PInt g)"
    using assms(1) BiographyAnswer encode_biography_Inr(1-4) [of i g bio t b] by (auto intro!: short_id simp del: number_short.simps)
  moreover have "number_short (PInt schema_version)" by (rule short_small) (simp_all add: schema_version_def)
  moreover have "list_all (\<lambda>(_, v). number_short v) (map (\<lambda>(k, v). (k, PStr (text_of v))) bio)"
    by (auto simp: list_all_iff)
  ultimately show ?thesis
    by (simp add: BiographyAnswer biography_payload_def del: number_short.simps(1))
next
  case (MemoryAnswer i g th cs)
  have e: "encode_memory_response i g th cs t = Inr b" using assms(1) MemoryAnswer by simp
  note facts = encode_memory_Inr [OF e]
  have "number_short (PInt i)" "number_short (PInt g)" "number_short (PInt schema_version)"
    "number_short (PInt (int (length cs)))"
    using facts by (auto intro!: short_id simp: wire_bounds schema_version_def uint64_max_def
        simp del: number_short.simps)
  moreover have "list_all (\<lambda>(_, v). number_short v) (candidate_payload k c)" if "c \<in> set cs" for k c
  proof -
    have "check_memory_candidate c = Inr ()" using facts(9) that by blast
    then obtain p n s e where n: "map_of c (u ''about_guid'') = Some (JInt n)" "1 \<le> n" "n \<le> uint64_max"
      by (rule memory_candidate_Inr)
    then have "candidate_value c ''about_guid'' = JInt n" by (simp add: candidate_value_def)
    then have "number_short (PInt (int_of_json (candidate_value c ''about_guid'')))"
      using short_id [of n] n(2,3) by (simp add: int_of_json_def del: number_short.simps)
    then show ?thesis by (simp add: candidate_payload_def Let_def del: number_short.simps(1))
  qed
  then have "list_all (\<lambda>(_, v). number_short v) (concat (map (\<lambda>(k, c). candidate_payload k c) (enumerate 0 cs)))"
    by (rule list_all_enumerated)
  ultimately show ?thesis
    by (simp add: MemoryAnswer memory_payload_def del: number_short.simps(1) concat.simps)
qed

lemma answer_keys:
  assumes "encode_answer env t ans = Inr b" "answer_ok ans"
  shows "distinct (map fst (answer_payload t ans))"
proof (cases ans)
  case (BiographyAnswer i g bio)
  with assms show ?thesis
    using biography_keys [of bio i g t] encode_biography_Inr(6) [of i g bio t b] by simp
qed (simp_all add: response_keys assessment_keys social_keys memory_keys)

lemma answer_bytes:
  "encode_answer env t ans = Inr b \<Longrightarrow> json_bytes (answer_payload t ans) = Inr b"
  by (cases ans) (auto simp: encode_response_Inr encode_assessment_Inr dest: encode_social_Inr(10)
      encode_biography_Inr(8) encode_memory_Inr(10))

text \<open>
  C29. No answer is garbled on its way out: the bytes of every accepted answer are
  one flat JSON object without a repeated key, and reading them back with the strict reader gives
  exactly the keys and values the answer was built from, in order, the token and the correlation
  numbers of the request included.
\<close>

theorem answers_read_back:
  assumes "encode_answer env t ans = Inr b" "answer_ok ans" "0 < py_nesting env"
  shows "load_object env b = Inr (map (\<lambda>(k, v). (k, json_of v)) (answer_payload t ans)) \<and>
    distinct (map fst (answer_payload t ans)) \<and>
    map_of (answer_payload t ans) (u ''token'') = Some (PStr t)"
proof -
  have "map_of (answer_payload t ans) (u ''token'') = Some (PStr t)"
    by (cases ans) (simp_all add: response_payload_def assessment_payload_def social_payload_def
        biography_payload_def memory_payload_def key_eval)
  then show ?thesis
    using json_bytes_read_back [OF answer_bytes [OF assms(1)] answer_keys [OF assms(1,2)]
        answer_numbers [OF assms(1,2)] assms(3)] answer_keys [OF assms(1,2)] by blast
qed

theorem answers_read_back_witness:
  "\<exists>b ms. encode_answer example_env example_token (ChatAnswer 9 [34, 92, 233]) = Inr b \<and>
     load_object example_env b = Inr ms \<and> map_of ms (u ''message'') = Some (JStr [34, 92, 233])"
proof -
  have "\<exists>b. json_bytes (response_payload 9 [34, 92, 233] example_token) = Inr b"
    by (rule json_bytes_scalar) (simp add: response_payload_def example_token_def key_eval
        is_scalar_def is_surrogate_def)
  moreover have "valid_token example_token" "bytes_within max_response_message_bytes [34, 92, 233]"
    by (simp_all add: valid_token_def bytes_within_def example_token_def key_eval is_scalar_def
        is_surrogate_def utf8_width_def wire_bounds)
  ultimately obtain b where b: "encode_answer example_env example_token (ChatAnswer 9 [34, 92, 233]) = Inr b"
    by (auto simp: encode_response_Inr uint64_max_def single_line_def)
  moreover have "load_object example_env b = Inr (map (\<lambda>(k, v). (k, json_of v))
      (answer_payload example_token (ChatAnswer 9 [34, 92, 233])))"
    using answers_read_back [OF b] by (simp add: example_env_def)
  ultimately show ?thesis by (simp add: response_payload_def key_eval)
qed

section \<open>Authentication\<close>

lemma chat_fields_token: "chat_fields_of env ms = Some r \<Longrightarrow> valid_token (chat_token r)"
  by (auto simp: chat_fields_of_def field_facts)

lemma chat_request_fields: "chat_request_of env ms = Inr r \<Longrightarrow> chat_fields_of env ms = Some r"
  by (auto simp: chat_request_of_def check_chat_fields_def and_then_Inr_iff
      split: option.splits if_splits)

lemma parsed_Inr: "parsed r = Inr x \<longleftrightarrow> r = Some x"
  by (simp add: parsed_def split: option.split)

lemma social_token: "social_request_of env ms = Some r \<Longrightarrow> valid_token (soc_token r)"
  by (drule social_request_of_Some(1)) (blast dest: social_fields_facts)

lemma assessment_token: "assessment_request_of env ms = Some r \<Longrightarrow> valid_token (asm_token r)"
  by (auto simp: assessment_request_of_def field_facts)

lemma biography_token: "biography_request_of env ms = Some r \<Longrightarrow> valid_token (bio_token r)"
  by (auto simp: biography_request_of_def field_facts)

lemma memory_token: "memory_request_of env ms = Some r \<Longrightarrow> valid_token (mreq_token r)"
  by (auto simp: memory_request_of_def field_facts)

lemma parse_request_Inr:
  "parse_request env p t = Inr r \<Longrightarrow> chat_token r = t \<and> valid_token t"
  by (auto simp: parse_request_def and_then_Inr_iff dest!: check_token_Inr
      dest: chat_request_fields chat_fields_token)

lemma parse_social_Inr:
  "parse_social_request env p t = Inr r \<Longrightarrow> soc_token r = t \<and> valid_token t"
  by (auto simp: parse_social_request_def and_then_Inr_iff parsed_Inr dest!: check_token_Inr
      dest: social_token)

lemma parse_assessment_Inr:
  "parse_roleplay_assessment_request env p t = Inr r \<Longrightarrow> asm_token r = t \<and> valid_token t"
  by (auto simp: parse_roleplay_assessment_request_def and_then_Inr_iff parsed_Inr
      dest!: check_token_Inr dest: assessment_token)

lemma parse_biography_Inr:
  "parse_biography_request env p t = Inr r \<Longrightarrow> bio_token r = t \<and> valid_token t"
  by (auto simp: parse_biography_request_def and_then_Inr_iff parsed_Inr
      dest!: check_token_Inr dest: biography_token)

lemma parse_memory_Inr:
  "parse_memory_request env p t = Inr r \<Longrightarrow> mreq_token r = t \<and> valid_token t"
  by (auto simp: parse_memory_request_def and_then_Inr_iff parsed_Inr
      dest!: check_token_Inr dest: memory_token)

lemma check_token_mismatch:
  assumes "valid_token token" "valid_token expected" "token \<noteq> expected"
  shows "check_token expected token r = Inl TokenMismatchError"
proof -
  obtain e e' where e: "utf8_encode expected = Some e" "utf8_encode token = Some e'"
    using assms(1,2) by (auto simp: valid_token_def bytes_within_def utf8_encode_def)
  have "e \<noteq> e'" using assms(3) utf8_decode_encode [OF e(1)] utf8_decode_encode [OF e(2)] by auto
  then show ?thesis by (simp add: check_token_def e)
qed

lemma chat_request_token: "chat_request_of env ms = Inr r \<Longrightarrow> valid_token (chat_token r)"
  by (rule chat_fields_token [OF chat_request_fields])

lemma parser_mismatch:
  assumes "load_object env p = Inr ms" "valid_token t"
  shows "chat_request_of env ms = Inr r1 \<Longrightarrow> chat_token r1 \<noteq> t \<Longrightarrow>
      parse_request env p t = Inl TokenMismatchError"
    and "social_request_of env ms = Some r2 \<Longrightarrow> soc_token r2 \<noteq> t \<Longrightarrow>
      parse_social_request env p t = Inl TokenMismatchError"
    and "assessment_request_of env ms = Some r3 \<Longrightarrow> asm_token r3 \<noteq> t \<Longrightarrow>
      parse_roleplay_assessment_request env p t = Inl TokenMismatchError"
    and "biography_request_of env ms = Some r4 \<Longrightarrow> bio_token r4 \<noteq> t \<Longrightarrow>
      parse_biography_request env p t = Inl TokenMismatchError"
    and "memory_request_of env ms = Some r5 \<Longrightarrow> mreq_token r5 \<noteq> t \<Longrightarrow>
      parse_memory_request env p t = Inl TokenMismatchError"
  using assms
  by (simp_all add: parse_request_def parse_social_request_def parse_roleplay_assessment_request_def
      parse_biography_request_def parse_memory_request_def parsed_def check_token_mismatch
      chat_request_token social_token assessment_token biography_token memory_token)

text \<open>
  C26. Nothing is accepted from a peer that does not know the token: every
  request that any of the five parsers returns carries exactly the expected bridge token; and a
  payload that is a valid request in every other way, but carries another token, is answered with the
  token mismatch and nothing else.
\<close>

theorem parsers_authenticate:
  "(\<forall>r. parse_request env p t = Inr r \<longrightarrow> chat_token r = t \<and> valid_token t) \<and>
   (\<forall>r. parse_social_request env p t = Inr r \<longrightarrow> soc_token r = t \<and> valid_token t) \<and>
   (\<forall>r. parse_roleplay_assessment_request env p t = Inr r \<longrightarrow> asm_token r = t \<and> valid_token t) \<and>
   (\<forall>r. parse_biography_request env p t = Inr r \<longrightarrow> bio_token r = t \<and> valid_token t) \<and>
   (\<forall>r. parse_memory_request env p t = Inr r \<longrightarrow> mreq_token r = t \<and> valid_token t) \<and>
   (\<forall>ms r. load_object env p = Inr ms \<and> valid_token t \<and> chat_request_of env ms = Inr r \<and>
      chat_token r \<noteq> t \<longrightarrow> parse_request env p t = Inl TokenMismatchError) \<and>
   (\<forall>ms r. load_object env p = Inr ms \<and> valid_token t \<and> social_request_of env ms = Some r \<and>
      soc_token r \<noteq> t \<longrightarrow> parse_social_request env p t = Inl TokenMismatchError) \<and>
   (\<forall>ms r. load_object env p = Inr ms \<and> valid_token t \<and> assessment_request_of env ms = Some r \<and>
      asm_token r \<noteq> t \<longrightarrow> parse_roleplay_assessment_request env p t = Inl TokenMismatchError) \<and>
   (\<forall>ms r. load_object env p = Inr ms \<and> valid_token t \<and> biography_request_of env ms = Some r \<and>
      bio_token r \<noteq> t \<longrightarrow> parse_biography_request env p t = Inl TokenMismatchError) \<and>
   (\<forall>ms r. load_object env p = Inr ms \<and> valid_token t \<and> memory_request_of env ms = Some r \<and>
      mreq_token r \<noteq> t \<longrightarrow> parse_memory_request env p t = Inl TokenMismatchError)"
  by (intro conjI allI impI; (elim conjE)?;
      (rule parser_mismatch, assumption+ |
       drule parse_request_Inr parse_social_Inr parse_assessment_Inr parse_biography_Inr
         parse_memory_Inr, simp))

text \<open>A concrete assessment request, as worldserver frames it.\<close>

definition example_assessment :: payload where
  "example_assessment = [(u ''schema_version'', PInt 6), (u ''token'', PStr example_token),
     (u ''kind'', PStr (u ''roleplay_assessment'')),
     (u ''roleplay_assessment_request_token'', PInt 4), (u ''channel'', PInt 1),
     (u ''thread_id'', PStr (u ''t'')), (u ''current_line'', PStr (u ''hail''))]"

lemma example_assessment_request:
  "\<exists>r. assessment_request_of example_env (map (\<lambda>(k, v). (k, json_of v)) example_assessment) = Some r \<and>
     asm_token r = example_token"
  by (simp add: assessment_request_of_def example_assessment_def field_eval wire_bounds example_env_def
      example_token_def valid_token_def schema_version_def uint64_max_def social_channel_count_def
      entry_within_def)

lemma example_token_valid: "valid_token example_token"
  by (simp add: valid_token_def bytes_within_def example_token_def key_eval is_scalar_def
      is_surrogate_def utf8_width_def wire_bounds)

lemma example_assessment_object:
  "\<exists>b. load_object example_env b = Inr (map (\<lambda>(k, v). (k, json_of v)) example_assessment)"
proof -
  have "\<exists>b. json_bytes example_assessment = Inr b"
    by (rule json_bytes_scalar) (simp add: example_assessment_def example_token_def key_eval
        is_scalar_def is_surrogate_def)
  then obtain b where b: "json_bytes example_assessment = Inr b" by blast
  have "number_short (PInt 6)" "number_short (PInt 4)" "number_short (PInt 1)"
    by (simp_all add: short_small del: number_short.simps)
  then have "list_all (\<lambda>(_, v). number_short v) example_assessment"
    by (simp add: example_assessment_def del: number_short.simps(1))
  moreover have "distinct (map fst example_assessment)"
    by (simp add: example_assessment_def key_eval)
  moreover have "0 < py_nesting example_env" by (simp add: example_env_def)
  ultimately show ?thesis using json_bytes_read_back [OF b] by blast
qed

theorem parsers_authenticate_witness:
  "\<exists>b. parse_roleplay_assessment_request example_env b (example_token @ [33]) = Inl TokenMismatchError"
proof -
  obtain b where b: "load_object example_env b = Inr (map (\<lambda>(k, v). (k, json_of v)) example_assessment)"
    using example_assessment_object by blast
  obtain r where r: "assessment_request_of example_env (map (\<lambda>(k, v). (k, json_of v)) example_assessment) =
      Some r" "asm_token r = example_token"
    using example_assessment_request by blast
  have "valid_token (example_token @ [33])"
    by (simp add: valid_token_def bytes_within_def example_token_def key_eval is_scalar_def
        is_surrogate_def utf8_width_def wire_bounds)
  with b r parsers_authenticate [of example_env b "example_token @ [33]"] show ?thesis by auto
qed

section \<open>Names in the trusted half of a prompt\<close>

text \<open>
  The general categories of the ASCII characters: only the letters are in a category of letters, and
  none is a mark.
\<close>

definition ascii_letter :: "nat \<Rightarrow> bool" where
  "ascii_letter c \<longleftrightarrow> 65 \<le> c \<and> c \<le> 90 \<or> 97 \<le> c \<and> c \<le> 122"

definition ascii_categories :: "interpreter \<Rightarrow> bool" where
  "ascii_categories env \<longleftrightarrow> (\<forall>c < 128. py_letter env c \<or> py_mark env c \<longrightarrow> ascii_letter c)"

text \<open>
  A name that a social, biography or memory request lets into the trusted half of a prompt. The names
  of a chat request get there too and are only bounded in length, see \<open>Gate_Example\<close>.
\<close>

inductive checked_name :: "interpreter \<Rightarrow> ustr \<Rightarrow> bool" for env where
  social_bot: "social_request_of env ms = Some r \<Longrightarrow> checked_name env (soc_bot_name r)"
| social_subject: "social_request_of env ms = Some r \<Longrightarrow> soc_subject_name r \<noteq> [] \<Longrightarrow>
    checked_name env (soc_subject_name r)"
| biography_bot: "biography_request_of env ms = Some r \<Longrightarrow> checked_name env (bio_character_name r)"
| memory_bot: "memory_request_of env ms = Some r \<Longrightarrow> checked_name env (mreq_bot_name r)"
| memory_about: "memory_request_of env ms = Some r \<Longrightarrow> s \<in> set (mreq_subjects r) \<Longrightarrow>
    checked_name env (msub_name s)"

lemma memory_subject_name:
  "memory_subject_of env ms = Some s \<Longrightarrow> actor_name_is_usable env (msub_name s)"
  by (auto simp: memory_subject_of_def usable_name_field_def field_facts)

lemma checked_name_usable: "checked_name env n \<Longrightarrow> actor_name_is_usable env n"
proof (induction rule: checked_name.induct)
  case (social_bot ms r)
  note social_fields_facts [OF social_request_of_Some(1) [OF this]]
  then show ?case by (auto simp: actor_name_allowed_def)
next
  case (social_subject ms r)
  note social_fields_facts [OF social_request_of_Some(1) [OF this(1)]]
  with social_subject show ?case by (auto simp: actor_name_allowed_def)
next
  case (biography_bot ms r)
  then show ?case by (auto simp: biography_request_of_def field_facts)
next
  case (memory_bot ms r)
  then show ?case by (auto simp: memory_request_of_def usable_name_field_def field_facts)
next
  case (memory_about ms r s)
  then obtain v where "json_list (json_members (memory_subject_of env)) 1 max_social_context_entries v =
      Some (mreq_subjects r)" by (auto simp: memory_request_of_def field_Some bind_eq_Some_conv)
  from json_list_member [OF this memory_about(2)] show ?case
    by (auto simp: json_members_Some intro: memory_subject_name)
qed

text \<open>
  C31. A name cannot spell an instruction: every participant's name that a
  validated social, biography or memory request lets into the trusted half of a prompt is one word of
  at most twelve characters, a letter followed by letters and the marks that attach to them, in the
  interpreter's categories, and nothing else; of the ASCII characters it holds only letters, so no
  space, digit, quote, bracket, line break or other delimiter. Chat requests are not covered.
\<close>

theorem trusted_names_are_names:
  assumes "ascii_categories env" "checked_name env n"
  shows "n \<noteq> [] \<and> length n \<le> 12 \<and> py_letter env (hd n) \<and>
    (\<forall>c \<in> set n. py_letter env c \<or> py_mark env c) \<and>
    (\<forall>c \<in> set n. c < 128 \<longrightarrow> ascii_letter c)"
proof -
  have usable: "actor_name_is_usable env n" by (rule checked_name_usable [OF assms(2)])
  then have all: "\<forall>c \<in> set n. py_letter env c \<or> py_mark env c"
    by (cases n) (auto simp: actor_name_is_usable_def list_all_iff)
  then have "\<forall>c \<in> set n. c < 128 \<longrightarrow> ascii_letter c"
    using assms(1) unfolding ascii_categories_def by blast
  with all usable show ?thesis
    by (cases n) (auto simp: actor_name_is_usable_def max_player_name_characters_def)
qed

theorem trusted_names_are_names_witness:
  "\<exists>r. social_request_of example_env example_social_members = Some r \<and>
     checked_name example_env (soc_bot_name r) \<and> length (soc_bot_name r) \<le> 12 \<and>
     (\<forall>c \<in> set (soc_bot_name r). py_letter example_env c \<or> py_mark example_env c)"
proof -
  obtain r where r: "social_request_of example_env example_social_members = Some r"
    using example_social_request by blast
  have "ascii_categories example_env" by (simp add: ascii_categories_def example_env_def ascii_letter_def)
  moreover have name: "checked_name example_env (soc_bot_name r)" by (rule social_bot [OF r])
  ultimately show ?thesis using trusted_names_are_names r by blast
qed

end
