(* ===== verification/Provider.thy ===== *)
theory Provider
  imports Background_Requests
begin

text \<open>
  The provider-neutral contract of a generation (\<open>provider.py\<close>): what a provider says about itself,
  the token counts a completion is charged by, and the failures of a generation with what each of
  them says about the bill.
\<close>

section \<open>Usage\<close>

record generation_usage =
  us_input_tokens :: int
  us_output_tokens :: int
  us_cache_creation_tokens :: int
  us_cache_read_tokens :: int

definition is_priceable :: "generation_usage \<Rightarrow> bool" where
  "is_priceable us \<longleftrightarrow> 0 \<le> us_input_tokens us \<and> 0 \<le> us_output_tokens us \<and>
     0 \<le> us_cache_creation_tokens us \<and> 0 \<le> us_cache_read_tokens us"

section \<open>What a provider says of itself\<close>

record provider_metadata =
  pm_name :: ustr
  pm_model :: ustr
  pm_max_input_tokens :: int
  pm_output_limits :: "(string \<times> int) list"

text \<open>\<open>None\<close> is the \<open>ValueError\<close> of an operation without a limit.\<close>

definition max_output_tokens :: "provider_metadata \<Rightarrow> string \<Rightarrow> int option" where
  "max_output_tokens m operation = map_of (pm_output_limits m) operation"

section \<open>Failures\<close>

datatype billing_status = BillingKnown | BillingImpossible | BillingIndeterminate

text \<open>
  The exceptions below \<open>GenerationError\<close>. Only an unusable answer may carry the usage of the call
  that produced it; its message and category are read by the log alone.
\<close>

datatype generation_error =
    GenerationTimeout
  | GenerationAuth
  | GenerationRateLimit
  | GenerationProvider
  | GenerationInvalidOutput "generation_usage option"

fun error_usage :: "generation_error \<Rightarrow> generation_usage option" where
  "error_usage (GenerationInvalidOutput us) = us"
| "error_usage _ = None"

fun billing_of :: "generation_error \<Rightarrow> billing_status" where
  "billing_of GenerationAuth = BillingImpossible"
| "billing_of GenerationRateLimit = BillingImpossible"
| "billing_of (GenerationInvalidOutput us) = (case us of
     Some v \<Rightarrow> if is_priceable v then BillingKnown else BillingIndeterminate
   | None \<Rightarrow> BillingIndeterminate)"
| "billing_of _ = BillingIndeterminate"

fun retryable :: "generation_error \<Rightarrow> bool" where
  "retryable GenerationTimeout = True"
| "retryable GenerationRateLimit = True"
| "retryable GenerationProvider = True"
| "retryable _ = False"

text \<open>What a generation gives: a failure, or the answer with what it is charged by.\<close>

type_synonym 'a generated = "generation_error + 'a \<times> generation_usage"

section \<open>A social proposal\<close>

record social_generation =
  sg_message :: ustr
  sg_emote_id :: int
  sg_contribution :: ustr
  sg_claim_subject :: ustr
  sg_evidence_ids :: "ustr list"
  sg_memory_ids :: "ustr list"
  sg_usage :: generation_usage

end
