(* ===== verification/Config.thy ===== *)
theory Config
  imports Provider Store
begin

text \<open>
  Configuration (\<open>app.py\<close>): the database settings read from the worldserver's file, the sidecar's own
  settings and what they allow, the bridge token, the health report of \<open>doctor\<close>, and the checks \<open>serve\<close>
  makes before it starts. Configuration files are ASCII text here, so these values are \<open>string\<close>s.
\<close>

section \<open>Reading values\<close>

text \<open>
  \<open>int(text)\<close>: surrounding white space, a sign, and digits with single underscores between them; more
  than 4300 digits are refused.
\<close>

fun int_digits :: "bool \<Rightarrow> string \<Rightarrow> string option" where
  "int_digits after_digit [] = (if after_digit then Some [] else None)"
| "int_digits after_digit (c # s) =
     (if is_digit c then map_option (Cons c) (int_digits True s)
      else if c = CHR ''_'' \<and> after_digit then int_digits False s else None)"

definition py_int :: "string \<Rightarrow> int option" where
  "py_int s =
     (let (neg, body) = split_sign (Decimal_Text.py_strip s)
      in case int_digits False body of
           None \<Rightarrow> None
         | Some ds \<Rightarrow>
             if 4300 < length ds then None
             else Some (if neg then - int (nat_of_digits ds) else int (nat_of_digits ds)))"

text \<open>Surrounding double quotes are taken off; a lone quote is not.\<close>

definition unquote :: "string \<Rightarrow> string" where
  "unquote s = (if 2 \<le> length s \<and> hd s = CHR 0x22 \<and> last s = CHR 0x22 then butlast (tl s) else s)"

text \<open>\<open>str.split(";")\<close> and \<open>str.partition("=")\<close>.\<close>

fun split_on :: "char \<Rightarrow> string \<Rightarrow> string list" where
  "split_on sep [] = [[]]"
| "split_on sep (c # s) = (case split_on sep s of
     [] \<Rightarrow> [[c]]
   | x # xs \<Rightarrow> if c = sep then [] # x # xs else (c # x) # xs)"

section \<open>The database settings\<close>

record database_settings =
  db_host :: string
  db_port :: int
  db_user :: string
  db_password :: string
  db_name :: string

definition parse_info :: "string \<Rightarrow> database_settings option" where
  "parse_info raw =
     (case split_on (CHR '';'') (unquote (Decimal_Text.py_strip raw)) of
        [host, port_text, user, password, name] \<Rightarrow>
          if host = [] \<or> user = [] \<or> name = [] then None
          else (case py_int port_text of
            None \<Rightarrow> None
          | Some port \<Rightarrow>
              if 1 \<le> port \<and> port \<le> 65535 then
                Some \<lparr>db_host = host, db_port = port, db_user = user, db_password = password,
                  db_name = name\<rparr>
              else None)
      | _ \<Rightarrow> None)"

text \<open>The first line of the file that sets it; the failures are one, a \<open>ValueError\<close>.\<close>

definition setting_of_line :: "string \<Rightarrow> (string \<times> string) option" where
  "setting_of_line line =
     (let stripped = Decimal_Text.py_strip line
      in if take 1 stripped = ''#'' \<or> CHR ''='' \<notin> set stripped then None
         else Some (Decimal_Text.py_strip (takeWhile (\<lambda>c. c \<noteq> CHR ''='') stripped),
           tl (dropWhile (\<lambda>c. c \<noteq> CHR ''='') stripped)))"

primrec load_settings :: "string list \<Rightarrow> database_settings option" where
  "load_settings [] = None"
| "load_settings (line # lines) = (case setting_of_line line of
     Some (key, v) \<Rightarrow> if key = ''PlayerbotsDatabaseInfo'' then parse_info v else load_settings lines
   | None \<Rightarrow> load_settings lines)"

section \<open>The sidecar's settings\<close>

record sidecar_config =
  cfg_enable :: bool
  cfg_bridge_port :: int
  cfg_ambient_enable :: bool
  cfg_ambient_per_hour :: int
  cfg_daily_budget :: string
  cfg_reserve_ratio :: string
  cfg_input_price :: string
  cfg_output_price :: string
  cfg_deadline_ms :: int
  cfg_log_model_io :: bool
  cfg_queue_size :: int
  cfg_group_cooldown :: int

text \<open>
  The section of the file, as \<open>configparser\<close> reads it, is a map from option names to values. \<open>None\<close> is
  the \<open>ValueError\<close> of a number that is none.
\<close>

definition config_option :: "(string \<Rightarrow> string option) \<Rightarrow> string \<Rightarrow> string \<Rightarrow> string" where
  "config_option options name fallback =
     unquote (Decimal_Text.py_strip (case options (''PlayerbotsLLM.'' @ name) of
       None \<Rightarrow> fallback | Some v \<Rightarrow> v))"

definition load_config :: "(string \<Rightarrow> string option) \<Rightarrow> sidecar_config option" where
  "load_config options =
     (let option = config_option options in
      case (py_int (option ''BridgePort'' ''0''), py_int (option ''AmbientMaxMessagesPerHour'' ''6''),
          py_int (option ''ResponseDeadlineMs'' ''10000''), py_int (option ''QueueSize'' ''16''),
          py_int (option ''GroupCooldownSeconds'' ''120'')) of
        (Some port, Some rate, Some deadline, Some queue, Some cooldown) \<Rightarrow>
          Some \<lparr>cfg_enable = (option ''Enable'' ''0'' = ''1''), cfg_bridge_port = port,
            cfg_ambient_enable = (option ''AmbientWorldEnable'' ''0'' = ''1''),
            cfg_ambient_per_hour = rate, cfg_daily_budget = option ''DailyBudgetUsd'' ''0'',
            cfg_reserve_ratio = option ''HumanBudgetReserveRatio'' ''0.25'',
            cfg_input_price = option ''InputUsdPerMTok'' ''1.00'',
            cfg_output_price = option ''OutputUsdPerMTok'' ''5.00'', cfg_deadline_ms = deadline,
            cfg_log_model_io = (option ''LogModelIO'' ''0'' = ''1''), cfg_queue_size = queue,
            cfg_group_cooldown = cooldown\<rparr>
      | _ \<Rightarrow> None)"

text \<open>
  The ceiling, zero when it is unusable; the ratio, everything when it is. \<open>Inl\<close> is the decimal
  \<open>Overflow\<close>, which neither property catches.
\<close>

definition budget_nano :: "sidecar_config \<Rightarrow> budget_error + int" where
  "budget_nano cfg = (case validate_daily_ceiling (MText (cfg_daily_budget cfg)) of
     Inl BudgetConfigurationError \<Rightarrow> Inr 0
   | r \<Rightarrow> r)"

definition config_reserve_ratio :: "sidecar_config \<Rightarrow> budget_error + fdec" where
  "config_reserve_ratio cfg = (case validate_reserve_ratio (MText (cfg_reserve_ratio cfg)) of
     Inl BudgetConfigurationError \<Rightarrow> Inr (fdec_of_int 1)
   | r \<Rightarrow> r)"

text \<open>\<open>Decimal(text) > 0\<close>, where a failure to construct or to compare is a refusal.\<close>

definition positive_price :: "string \<Rightarrow> bool" where
  "positive_price s = (case dec_parse s of
     Some (Finite d) \<Rightarrow> 0 < coef d
   | Some (Infinite neg) \<Rightarrow> \<not> neg
   | _ \<Rightarrow> False)"

definition generation_allowed :: "sidecar_config \<Rightarrow> budget_error + bool" where
  "generation_allowed cfg = and_then (budget_nano cfg) (\<lambda>ceiling.
     Inr (0 < ceiling \<and> positive_price (cfg_input_price cfg) \<and> positive_price (cfg_output_price cfg)))"

definition ambient_allowed :: "sidecar_config \<Rightarrow> bool" where
  "ambient_allowed cfg \<longleftrightarrow> cfg_ambient_enable cfg \<and> 1 \<le> cfg_ambient_per_hour cfg \<and>
     cfg_ambient_per_hour cfg \<le> max_ambient_messages_per_hour"

definition price_texts :: "sidecar_config \<Rightarrow> money_in option \<times> money_in option" where
  "price_texts cfg = (Some (MText (cfg_input_price cfg)), Some (MText (cfg_output_price cfg)))"

text \<open>
  The token, from the value of its environment variable. The length is of its encoding, which a lone
  surrogate does not have.
\<close>

definition bridge_token_from_environment :: "ustr option \<Rightarrow> protocol_error + ustr option" where
  "bridge_token_from_environment v = (case v of
     None \<Rightarrow> Inr None
   | Some token \<Rightarrow> (case utf8_encode token of
       None \<Rightarrow> Inl UnicodeRaised
     | Some b \<Rightarrow> Inr (if length b < min_bridge_token_bytes \<or> max_bridge_token_bytes < length b then None
         else Some token)))"

section \<open>Health\<close>

record doctor_budget =
  rep_settled :: string
  rep_outstanding :: string
  rep_remaining :: string
  rep_human_reserve :: string
  rep_circuit_open :: bool

record doctor_result =
  rep_ok :: bool
  rep_enable :: bool
  rep_bridge_port :: int
  rep_daily_budget :: string
  rep_reserve_ratio :: string
  rep_deadline_ms :: int
  rep_token_present :: bool
  rep_provider_name :: ustr
  rep_provider_configured :: bool
  rep_budget :: "doctor_budget option"

definition doctor_budget_of :: "sidecar_config \<Rightarrow> budget_state \<Rightarrow> budget_error + doctor_budget" where
  "doctor_budget_of cfg st =
     and_then (budget_nano cfg) (\<lambda>ceiling.
     and_then (config_reserve_ratio cfg) (\<lambda>ratio.
     and_then (reserve_floor_nano ceiling ratio) (\<lambda>floor.
       Inr \<lparr>rep_settled = nano_to_usd_string (settled_nano st),
         rep_outstanding = nano_to_usd_string (outstanding_nano st),
         rep_remaining = nano_to_usd_string (max 0 (ceiling - committed_nano st)),
         rep_human_reserve = nano_to_usd_string floor,
         rep_circuit_open = circuit_open st\<rparr>)))"

definition doctor_report ::
  "sidecar_config \<Rightarrow> bool \<Rightarrow> provider_metadata \<Rightarrow> bool \<Rightarrow> budget_state option \<Rightarrow>
   budget_error + doctor_result" where
  "doctor_report cfg token_present meta configured st =
     and_then (if cfg_enable cfg \<and> 0 < cfg_bridge_port cfg then generation_allowed cfg else Inr False)
       (\<lambda>allowed.
       let ok = cfg_enable cfg \<and> 0 < cfg_bridge_port cfg \<and> allowed \<and> token_present;
           report = \<lparr>rep_ok = ok, rep_enable = cfg_enable cfg, rep_bridge_port = cfg_bridge_port cfg,
             rep_daily_budget = cfg_daily_budget cfg, rep_reserve_ratio = cfg_reserve_ratio cfg,
             rep_deadline_ms = cfg_deadline_ms cfg, rep_token_present = token_present,
             rep_provider_name = pm_name meta, rep_provider_configured = configured,
             rep_budget = None\<rparr>
       in case st of
            None \<Rightarrow> Inr report
          | Some st \<Rightarrow> and_then (doctor_budget_of cfg st) (\<lambda>b.
              Inr (report\<lparr>rep_budget := Some b, rep_ok := (ok \<and> \<not> circuit_open st)\<rparr>)))"

text \<open>What \<open>main\<close> does with the report: a database that cannot be reached is not healthy either.\<close>

definition doctor_exit_code ::
  "sidecar_config \<Rightarrow> bool \<Rightarrow> provider_metadata \<Rightarrow> bool \<Rightarrow> budget_state option \<Rightarrow> budget_error + int" where
  "doctor_exit_code cfg token_present meta configured st =
     and_then (doctor_report cfg token_present meta configured st) (\<lambda>report.
       Inr (if rep_ok report \<and> st \<noteq> None then 0 else 1))"

text \<open>The checks of \<open>serve\<close> before it opens the database: whether they let it start.\<close>

definition serve_may_start :: "sidecar_config \<Rightarrow> bool \<Rightarrow> bool \<Rightarrow> bool" where
  "serve_may_start cfg token_present configured \<longleftrightarrow>
     token_present \<and> configured \<and> cfg_enable cfg \<and> 0 < cfg_bridge_port cfg"

end
