(* ===== verification/Fences.thy ===== *)
theory Fences
  imports Provider Responses "HOL-Library.Sublist"
begin

text \<open>
  The fences around untrusted text (\<open>_neutralised\<close> and \<open>_fenced\<close> of \<open>generation.py\<close>), with the two
  pieces of Python they are made of: \<open>str.splitlines\<close> and the pattern of a fence line. The theory
  shows that no untrusted text can contain a line that reads as a fence.
\<close>

section \<open>Texts\<close>

text \<open>
  What \<open>re\<close> and \<open>str.casefold\<close> take from the Unicode tables: the word characters, the decimal digits,
  and the folding of a character, a text because it may be more than one character.
\<close>

record unicode_tables =
  uc_word :: "nat \<Rightarrow> bool"
  uc_digit :: "nat \<Rightarrow> bool"
  uc_fold :: "nat \<Rightarrow> ustr"

definition casefold :: "unicode_tables \<Rightarrow> ustr \<Rightarrow> ustr" where
  "casefold t s = concat (map (uc_fold t) s)"

primrec u_join :: "ustr \<Rightarrow> ustr list \<Rightarrow> ustr" where
  "u_join sep [] = []"
| "u_join sep (x # xs) = (if xs = [] then x else x @ sep @ u_join sep xs)"

definition py_rstrip :: "ustr \<Rightarrow> ustr" where
  "py_rstrip s = rev (dropWhile py_space (rev s))"

text \<open>The ends of lines of \<open>str.splitlines\<close>; a carriage return and a line feed together are one.\<close>

definition line_break :: "nat \<Rightarrow> bool" where
  "line_break c \<longleftrightarrow> 10 \<le> c \<and> c \<le> 13 \<or> 28 \<le> c \<and> c \<le> 30 \<or> c = 133 \<or> c = 8232 \<or> c = 8233"

function py_splitlines :: "ustr \<Rightarrow> ustr list" where
  "py_splitlines s = (if s = [] then [] else
     takeWhile (\<lambda>c. \<not> line_break c) s # (case dropWhile (\<lambda>c. \<not> line_break c) s of
        [] \<Rightarrow> []
      | c # r \<Rightarrow> py_splitlines (if c = 13 \<and> r \<noteq> [] \<and> hd r = 10 then tl r else r)))"
  by pat_completeness auto

termination
proof (relation "measure length")
  fix s :: ustr and c r
  assume "dropWhile (\<lambda>c. \<not> line_break c) s = c # r"
  then have "Suc (length r) \<le> length s"
    using length_dropWhile_le [of "\<lambda>c. \<not> line_break c" s] by simp
  then show "(if c = 13 \<and> r \<noteq> [] \<and> hd r = 10 then tl r else r, s) \<in> measure length"
    by auto
qed simp

declare py_splitlines.simps [simp del]

text \<open>
  \<open>json.dumps(..., separators=(",", ":"))\<close> of any value. With \<open>ensure_ascii\<close>, the default, a
  character outside printable ASCII is written as one escape, or as two for a pair of surrogates.
\<close>

definition hex4_escape :: "nat \<Rightarrow> ustr" where
  "hex4_escape c = [92, 117, hex_code (c div 4096 mod 16), hex_code (c div 256 mod 16),
     hex_code (c div 16 mod 16), hex_code (c mod 16)]"

definition escape_ascii :: "nat \<Rightarrow> ustr" where
  "escape_ascii c = (if c < 127 then escape_char c
     else if c < 65536 then hex4_escape c
     else hex4_escape (55296 + (c - 65536) div 1024) @ hex4_escape (56320 + (c - 65536) mod 1024))"

fun json_dump_text :: "(nat \<Rightarrow> ustr) \<Rightarrow> json \<Rightarrow> ustr" where
  "json_dump_text esc JNull = u ''null''"
| "json_dump_text esc (JBool b) = (if b then u ''true'' else u ''false'')"
| "json_dump_text esc (JInt n) = show_uint n"
| "json_dump_text esc (JFloat s) = s"
| "json_dump_text esc (JStr s) = 34 # concat (map esc s) @ [34]"
| "json_dump_text esc (JArr vs) = 91 # u_join [44] (map (json_dump_text esc) vs) @ [93]"
| "json_dump_text esc (JObj ms) =
     123 # u_join [44] (map (\<lambda>(k, v). 34 # concat (map esc k) @ [34, 58] @ json_dump_text esc v) ms) @ [125]"

section \<open>The pattern of a fence line\<close>

text \<open>
  \<open>^\s*=+\s*(UNTRUSTED|TRUSTED)\b.*$\<close>, ignoring case, at the start of a line: what it matches and what
  is left. Ignoring case, the pattern's S also matches the long s, code point 383. Each part of the
  pattern ends where the next one can begin, so there is one way to match.
\<close>

definition keyword_char :: "nat \<Rightarrow> nat \<Rightarrow> bool" where
  "keyword_char k c \<longleftrightarrow> c = k \<or> c = k + 32 \<or> k = 83 \<and> c = 383"

definition strip_keyword :: "ustr \<Rightarrow> ustr \<Rightarrow> ustr option" where
  "strip_keyword kw s =
     (if list_all2 keyword_char kw (take (length kw) s) then Some (drop (length kw) s) else None)"

definition fence_keyword :: "ustr \<Rightarrow> ustr option" where
  "fence_keyword s = (case strip_keyword (u ''UNTRUSTED'') s of
     Some r \<Rightarrow> Some r | None \<Rightarrow> strip_keyword (u ''TRUSTED'') s)"

definition fence_rest :: "unicode_tables \<Rightarrow> ustr \<Rightarrow> ustr option" where
  "fence_rest t s =
     (let s1 = dropWhile py_space s; s2 = dropWhile (\<lambda>c. c = 61) s1
      in if s2 = s1 then None
         else (case fence_keyword (dropWhile py_space s2) of
           None \<Rightarrow> None
         | Some r \<Rightarrow>
             if r \<noteq> [] \<and> uc_word t (hd r) then None else Some (dropWhile (\<lambda>c. c \<noteq> 10) r)))"

definition fence_match :: "unicode_tables \<Rightarrow> ustr \<Rightarrow> (ustr \<times> ustr) option" where
  "fence_match t s =
     map_option (\<lambda>rest. (take (length s - length rest) s, rest)) (fence_rest t s)"

section \<open>Neutralising\<close>

definition quoted_marker :: ustr where "quoted_marker = u ''[quoted marker] ''"

definition dashed :: "ustr \<Rightarrow> ustr" where
  "dashed m = map (\<lambda>c. if c = 61 then 45 else c) m"

text \<open>\<open>_FENCE_LINE.sub\<close>, from the start of a line on.\<close>

lemma fence_rest_suffix: "fence_rest t s = Some r \<Longrightarrow> suffix r s \<and> (r = [] \<or> hd r = 10)"
proof -
  assume "fence_rest t s = Some r"
  then obtain k where k: "fence_keyword (dropWhile py_space (dropWhile (\<lambda>c. c = 61)
      (dropWhile py_space s))) = Some k" "r = dropWhile (\<lambda>c. c \<noteq> 10) k"
    by (auto simp: fence_rest_def Let_def split: if_splits option.splits)
  have "suffix k (dropWhile py_space (dropWhile (\<lambda>c. c = 61) (dropWhile py_space s)))"
    using k(1) by (auto simp: fence_keyword_def strip_keyword_def suffix_drop split: if_splits option.splits)
  then have "suffix r s"
    unfolding k(2) by (meson suffix_dropWhile suffix_order.trans)
  moreover have "r = [] \<or> hd r = 10"
    unfolding k(2) using hd_dropWhile [of "\<lambda>c. c \<noteq> 10" k] by blast
  ultimately show ?thesis by blast
qed

function neutral_lines :: "unicode_tables \<Rightarrow> ustr \<Rightarrow> ustr" where
  "neutral_lines t s =
     (let (done, rest) = (case fence_match t s of
            Some (m, rest) \<Rightarrow> (quoted_marker @ dashed m, rest)
          | None \<Rightarrow> (takeWhile (\<lambda>c. c \<noteq> 10) s, dropWhile (\<lambda>c. c \<noteq> 10) s))
      in done @ (case rest of [] \<Rightarrow> [] | c # r \<Rightarrow> c # neutral_lines t r))"
  by pat_completeness auto

termination
proof (relation "measure (\<lambda>(t, s). length s)")
  fix t :: "unicode_tables" and s x xa y c r
  assume "x = (case fence_match t s of Some (m, rest) \<Rightarrow> (quoted_marker @ dashed m, rest)
      | None \<Rightarrow> (takeWhile (\<lambda>c. c \<noteq> 10) s, dropWhile (\<lambda>c. c \<noteq> 10) s))"
    and "(xa, y) = x" and "y = c # r"
  then have "suffix (c # r) s"
    using fence_rest_suffix [of t s] suffix_dropWhile [of "\<lambda>c. c \<noteq> 10" s]
    by (auto simp: fence_match_def split: option.splits)
  then have "length (c # r) \<le> length s" by (rule suffix_length_le)
  then show "((t, r), t, s) \<in> measure (\<lambda>(t, s). length s)" by simp
qed simp

declare neutral_lines.simps [simp del]

definition neutralised :: "unicode_tables \<Rightarrow> ustr \<Rightarrow> ustr" where
  "neutralised t body = neutral_lines t (u_join [10] (py_splitlines body))"

definition fence_begin :: "ustr \<Rightarrow> ustr" where
  "fence_begin heading = u ''=== UNTRUSTED '' @ heading @ u '' BEGINS ===''"

definition fence_end :: "ustr \<Rightarrow> ustr" where
  "fence_end heading = u ''=== UNTRUSTED '' @ heading @ u '' ENDS ===''"

definition fenced :: "unicode_tables \<Rightarrow> ustr \<Rightarrow> ustr \<Rightarrow> ustr list" where
  "fenced t heading body = [fence_begin heading, neutralised t body, fence_end heading, []]"

section \<open>What reads as a fence\<close>

text \<open>
  A line is a fence marker for a reader when the pattern matches it. Two facts about the Unicode
  tables are needed: neither a line feed nor a space is a word character.
\<close>

definition marker_line :: "unicode_tables \<Rightarrow> ustr \<Rightarrow> bool" where
  "marker_line t l \<longleftrightarrow> fence_rest t l \<noteq> None"

definition plain_spaces :: "unicode_tables \<Rightarrow> bool" where
  "plain_spaces t \<longleftrightarrow> \<not> uc_word t 10 \<and> \<not> uc_word t 32"

definition one_break :: "ustr \<Rightarrow> bool" where
  "one_break s \<longleftrightarrow> (\<forall>c \<in> set s. line_break c \<longrightarrow> c = 10)"

fun nl_lines :: "ustr \<Rightarrow> ustr list" where
  "nl_lines [] = [[]]"
| "nl_lines (c # s) = (if c = 10 then [] # nl_lines s else (c # hd (nl_lines s)) # tl (nl_lines s))"

lemma nl_lines_nonempty [simp]: "nl_lines s \<noteq> []"
  by (cases s) auto

lemma nl_lines_append [simp]: "nl_lines (a @ 10 # b) = nl_lines a @ nl_lines b"
  by (induction a) auto

lemma nl_lines_single: "10 \<notin> set s \<Longrightarrow> nl_lines s = [s]"
  by (induction s) auto

lemma nl_lines_chars: "l \<in> set (nl_lines s) \<Longrightarrow> set l \<subseteq> set s"
proof (induction s arbitrary: l)
  case (Cons c s)
  have "set (hd (nl_lines s)) \<subseteq> set s" by (rule Cons.IH) simp
  then have "set (c # hd (nl_lines s)) \<subseteq> set (c # s)" by auto
  with Cons show ?case by (auto split: if_splits dest: list.set_sel(2) [OF nl_lines_nonempty])
qed simp

lemma nl_lines_take:
  "nl_lines s = takeWhile (\<lambda>c. c \<noteq> 10) s # (case dropWhile (\<lambda>c. c \<noteq> 10) s of [] \<Rightarrow> [] | c # r \<Rightarrow> nl_lines r)"
  by (induction s) auto

lemma marker_needs_equals: "marker_line t l \<Longrightarrow> 61 \<in> set l"
proof -
  assume "marker_line t l"
  then have ne: "dropWhile (\<lambda>c. c = 61) (dropWhile py_space l) \<noteq> dropWhile py_space l"
    by (auto simp: marker_line_def fence_rest_def Let_def)
  then have "dropWhile py_space l \<noteq> []" "hd (dropWhile py_space l) = 61"
    by (cases "dropWhile py_space l"; auto split: if_splits)+
  then show ?thesis by (metis hd_in_set set_dropWhileD)
qed

lemma not_marker_empty [simp]: "\<not> marker_line t []"
  using marker_needs_equals by fastforce

lemma strip_keyword_append:
  assumes "strip_keyword kw s = Some r" shows "strip_keyword kw (s @ x) = Some (r @ x)"
proof -
  have m: "list_all2 keyword_char kw (take (length kw) s)" "r = drop (length kw) s"
    using assms by (auto simp: strip_keyword_def split: if_splits)
  then have "length kw \<le> length s" using list_all2_lengthD [OF m(1)] by simp
  with m show ?thesis by (simp add: strip_keyword_def)
qed

text \<open>A line that reads as a marker makes the pattern match where the line begins.\<close>

lemma keywords_exclusive:
  assumes "strip_keyword (u ''TRUSTED'') s = Some r" shows "strip_keyword (u ''UNTRUSTED'') (s @ x) = None"
proof -
  have "s \<noteq> []" "keyword_char 84 (hd s)"
    using assms by (cases s; auto simp: strip_keyword_def u_def split: if_splits)+
  then show ?thesis
    by (cases s) (auto simp: strip_keyword_def u_def keyword_char_def)
qed

lemma fence_keyword_extends:
  assumes "fence_keyword s = Some r" shows "fence_keyword (s @ x) = Some (r @ x)"
  using assms strip_keyword_append [of _ s r x] keywords_exclusive [of s r x]
  by (auto simp: fence_keyword_def split: option.splits)

lemma fence_keyword_nonempty: "fence_keyword s = Some r \<Longrightarrow> s \<noteq> []"
  by (cases s) (auto simp: fence_keyword_def strip_keyword_def u_def split: option.splits if_splits)

lemma dropWhile_append_kept: "dropWhile P a \<noteq> [] \<Longrightarrow> dropWhile P (a @ b) = dropWhile P a @ b"
  by (induction a) auto

lemma marker_extends:
  assumes "plain_spaces t" "marker_line t l" "x = [] \<or> hd x = 10"
  shows "fence_rest t (l @ x) \<noteq> None"
proof -
  let ?s1 = "dropWhile py_space l" and ?s2 = "dropWhile (\<lambda>c. c = 61) (dropWhile py_space l)"
  obtain r where r: "?s2 \<noteq> ?s1" "fence_keyword (dropWhile py_space ?s2) = Some r"
    "r = [] \<or> \<not> uc_word t (hd r)"
    using assms(2) by (auto simp: marker_line_def fence_rest_def Let_def split: if_splits option.splits)
  have ne: "dropWhile py_space ?s2 \<noteq> []" using fence_keyword_nonempty [OF r(2)] .
  then have n2: "?s2 \<noteq> []" by (metis dropWhile.simps(1))
  then have n1: "?s1 \<noteq> []" by (metis dropWhile.simps(1))
  have e: "dropWhile py_space (l @ x) = ?s1 @ x" "dropWhile (\<lambda>c. c = 61) (?s1 @ x) = ?s2 @ x"
    "dropWhile py_space (?s2 @ x) = dropWhile py_space ?s2 @ x"
    by (rule dropWhile_append_kept; fact)+
  have "r @ x = [] \<or> \<not> uc_word t (hd (r @ x))"
    using r(3) assms(1,3) by (cases "r = []") (auto simp: plain_spaces_def)
  then show ?thesis
    using r(1) fence_keyword_extends [OF r(2), of x] by (auto simp: fence_rest_def Let_def e)
qed

lemma neutral_lines_markers:
  assumes "plain_spaces t"
  shows "\<forall>l \<in> set (nl_lines (neutral_lines t s)). \<not> marker_line t l"
  using assms
proof (induction t s rule: neutral_lines.induct)
  case (1 t s)
  obtain d rest where dr: "(case fence_match t s of Some (m, rest) \<Rightarrow> (quoted_marker @ dashed m, rest)
      | None \<Rightarrow> (takeWhile (\<lambda>c. c \<noteq> 10) s, dropWhile (\<lambda>c. c \<noteq> 10) s)) = (d, rest)" by fastforce
  have eq: "neutral_lines t s = d @ (case rest of [] \<Rightarrow> [] | c # r \<Rightarrow> c # neutral_lines t r)"
    by (subst neutral_lines.simps) (simp add: dr)
  have rest: "rest = [] \<or> hd rest = 10"
    using dr fence_rest_suffix [of t s] hd_dropWhile [of "\<lambda>c. c \<noteq> 10" s]
    by (auto simp: fence_match_def split: option.splits)
  have first: "\<forall>l \<in> set (nl_lines d). \<not> marker_line t l"
  proof (cases "fence_match t s")
    case None
    then have d: "d = takeWhile (\<lambda>c. c \<noteq> 10) s" using dr by simp
    have "dropWhile (\<lambda>c. c \<noteq> 10) s = [] \<or> hd (dropWhile (\<lambda>c. c \<noteq> 10) s) = 10"
      using hd_dropWhile [of "\<lambda>c. c \<noteq> 10" s] by blast
    moreover have "fence_rest t s = None" using None by (simp add: fence_match_def)
    ultimately have "\<not> marker_line t d"
      using marker_extends [OF "1.prems", of d "dropWhile (\<lambda>c. c \<noteq> 10) s"]
      unfolding d takeWhile_dropWhile_id by blast
    moreover have "10 \<notin> set d" by (auto simp: d dest: set_takeWhileD)
    ultimately show ?thesis by (simp add: nl_lines_single)
  next
    case (Some p)
    then have "61 \<notin> set d" using dr
      by (cases p) (auto simp: dashed_def quoted_marker_def u_def split: if_splits)
    then show ?thesis using nl_lines_chars marker_needs_equals by blast
  qed
  show ?case
  proof (cases rest)
    case Nil
    with first eq show ?thesis by simp
  next
    case (Cons c r)
    with rest have c: "c = 10" by simp
    have "\<forall>l \<in> set (nl_lines (neutral_lines t r)). \<not> marker_line t l"
      using "1.IH" [OF refl dr [symmetric] Cons "1.prems"] .
    with first Cons c eq show ?thesis by auto
  qed
qed

lemma neutral_lines_chars: "set (neutral_lines t s) \<subseteq> set s \<union> {45} \<union> set quoted_marker"
proof (induction t s rule: neutral_lines.induct)
  case (1 t s)
  obtain d rest where dr: "(case fence_match t s of Some (m, rest) \<Rightarrow> (quoted_marker @ dashed m, rest)
      | None \<Rightarrow> (takeWhile (\<lambda>c. c \<noteq> 10) s, dropWhile (\<lambda>c. c \<noteq> 10) s)) = (d, rest)" by fastforce
  have eq: "neutral_lines t s = d @ (case rest of [] \<Rightarrow> [] | c # r \<Rightarrow> c # neutral_lines t r)"
    by (subst neutral_lines.simps) (simp add: dr)
  have "set d \<subseteq> set s \<union> {45} \<union> set quoted_marker"
    using dr by (auto simp: fence_match_def dashed_def dest: set_takeWhileD in_set_takeD
        split: option.splits)
  moreover have "set rest \<subseteq> set s"
    using dr fence_rest_suffix [of t s] set_mono_suffix
    by (fastforce simp: fence_match_def dest: set_dropWhileD split: option.splits)
  moreover have "set (neutral_lines t r) \<subseteq> set r \<union> {45} \<union> set quoted_marker" if "rest = c # r" for c r
    using "1.IH" [OF refl dr [symmetric] that] .
  ultimately show ?case unfolding eq by (cases rest) (simp_all, blast)
qed

lemma splitlines_no_break: "l \<in> set (py_splitlines s) \<Longrightarrow> c \<in> set l \<Longrightarrow> \<not> line_break c"
proof (induction s rule: py_splitlines.induct)
  case (1 s)
  from 1(2) have "s \<noteq> []" by (auto simp: py_splitlines.simps [of s])
  from 1(2) this have "l = takeWhile (\<lambda>c. \<not> line_break c) s \<or> (\<exists>d r.
      dropWhile (\<lambda>c. \<not> line_break c) s = d # r \<and>
      l \<in> set (py_splitlines (if d = 13 \<and> r \<noteq> [] \<and> hd r = 10 then tl r else r)))"
    unfolding py_splitlines.simps [of s]
    by (cases "dropWhile (\<lambda>c. \<not> line_break c) s") (simp_all only: if_False list.case set_simps
        insert_iff list.set empty_iff, blast+)
  then show ?case using 1(1) [OF \<open>s \<noteq> []\<close>] 1(3) by (auto dest: set_takeWhileD)
qed

lemma set_u_join: "set (u_join sep xs) \<subseteq> set sep \<union> \<Union> (set ` set xs)"
  by (induction xs) auto

lemma neutralised_one_break: "one_break (neutralised t body)"
proof -
  have "set (neutralised t body) \<subseteq> set (u_join [10] (py_splitlines body)) \<union> {45} \<union> set quoted_marker"
    unfolding neutralised_def by (rule neutral_lines_chars)
  moreover have "c = 10 \<or> \<not> line_break c" if "c \<in> set (u_join [10] (py_splitlines body))" for c
    using that set_u_join [of "[10]" "py_splitlines body"] splitlines_no_break by fastforce
  moreover have "\<not> line_break c" if "c \<in> {45} \<union> set quoted_marker" for c
    using that by (auto simp: quoted_marker_def u_def line_break_def)
  ultimately show ?thesis unfolding one_break_def by blast
qed

section \<open>A whole message\<close>

text \<open>With line feeds as the only breaks, \<open>str.splitlines\<close> is the lines, less an empty last one.\<close>

lemma splitlines_filter:
  assumes "one_break s" "\<not> P []"
  shows "filter P (py_splitlines s) = filter P (nl_lines s)"
  using assms(1)
proof (induction s rule: py_splitlines.induct)
  case (1 s)
  show ?case
  proof (cases "s = []")
    case True
    then show ?thesis using assms(2) by (simp add: py_splitlines.simps)
  next
    case False
    have ten: "line_break 10" by (simp add: line_break_def)
    have breaks: "(\<not> line_break c) = (c \<noteq> 10)" if "c \<in> set s" for c
      using 1(2) that ten unfolding one_break_def by blast
    have cong: "takeWhile (\<lambda>c. \<not> line_break c) s = takeWhile (\<lambda>c. c \<noteq> 10) s"
      "dropWhile (\<lambda>c. \<not> line_break c) s = dropWhile (\<lambda>c. c \<noteq> 10) s"
      by (rule takeWhile_cong [OF refl breaks], assumption, rule dropWhile_cong [OF refl breaks])
    have lines: "filter P (py_splitlines s) = filter P (takeWhile (\<lambda>c. c \<noteq> 10) s #
        (case dropWhile (\<lambda>c. c \<noteq> 10) s of [] \<Rightarrow> [] | c # r \<Rightarrow> py_splitlines
          (if c = 13 \<and> r \<noteq> [] \<and> hd r = 10 then tl r else r)))"
      using False by (simp only: py_splitlines.simps [of s] cong if_False)
    show ?thesis
    proof (cases "dropWhile (\<lambda>c. c \<noteq> 10) s")
      case Nil
      then show ?thesis unfolding lines nl_lines_take [of s] by (simp only: list.case)
    next
      case (Cons c r)
      then have c: "c = 10" using hd_dropWhile [of "\<lambda>c. c \<noteq> 10" s] by force
      have "set r \<subseteq> set s" using Cons by (metis set_dropWhileD set_subset_Cons subset_eq)
      then have "one_break r" using 1(2) by (auto simp: one_break_def)
      moreover have "dropWhile (\<lambda>c. \<not> line_break c) s = c # r" using Cons cong by metis
      ultimately have "filter P (py_splitlines r) = filter P (nl_lines r)"
        using 1(1) [OF False] c by fastforce
      then show ?thesis unfolding lines nl_lines_take [of s] Cons c by simp
    qed
  qed
qed

lemma nl_lines_join: "xs \<noteq> [] \<Longrightarrow> nl_lines (u_join [10] xs) = concat (map nl_lines xs)"
  by (induction xs) auto

lemma rstrip_end: "\<not> py_space c \<Longrightarrow> py_rstrip (s @ [c, 10]) = s @ [c]"
proof -
  assume "\<not> py_space c"
  moreover have "py_space 10" by (simp add: py_space_def)
  ultimately show ?thesis by (simp add: py_rstrip_def)
qed

lemma u_join_snoc: "xs \<noteq> [] \<Longrightarrow> u_join [10] (xs @ [x]) = u_join [10] xs @ 10 # x"
  by (induction xs) auto

text \<open>The headings the code uses: upper case words.\<close>

definition plain_heading :: "ustr \<Rightarrow> bool" where
  "plain_heading h \<longleftrightarrow> (\<forall>c \<in> set h. c = 32 \<or> 65 \<le> c \<and> c \<le> 90)"

lemma marker_prefix:
  assumes "plain_spaces t" shows "marker_line t (u ''=== UNTRUSTED '' @ x)"
proof -
  have "py_space 32" "\<not> py_space 61" "\<not> py_space 85" by (simp_all add: py_space_def)
  moreover have "u ''=== UNTRUSTED '' = [61, 61, 61, 32] @ u ''UNTRUSTED'' @ [32]" by (simp add: u_def)
  moreover have "u ''UNTRUSTED'' = 85 # tl (u ''UNTRUSTED'')" by (simp add: u_def)
  moreover have "list_all2 keyword_char (u ''UNTRUSTED'') (u ''UNTRUSTED'')"
    by (simp add: list.rel_refl keyword_char_def)
  then have "fence_keyword (u ''UNTRUSTED'' @ 32 # x) = Some (32 # x)"
    by (simp add: fence_keyword_def strip_keyword_def)
  moreover have "dropWhile py_space (u ''UNTRUSTED'' @ 32 # x) = u ''UNTRUSTED'' @ 32 # x"
    "dropWhile (\<lambda>c. c = 61) (u ''UNTRUSTED'' @ 32 # x) = u ''UNTRUSTED'' @ 32 # x"
    by (simp_all add: u_def py_space_def)
  ultimately show ?thesis
    using assms by (simp add: marker_line_def fence_rest_def plain_spaces_def)
qed

lemma fence_lines:
  assumes "plain_spaces t" "plain_heading h"
  shows "marker_line t (fence_begin h)" "marker_line t (fence_end h)"
    "nl_lines (fence_begin h) = [fence_begin h]" "nl_lines (fence_end h) = [fence_end h]"
    "one_break (fence_begin h)" "one_break (fence_end h)"
proof -
  show "marker_line t (fence_begin h)" "marker_line t (fence_end h)"
    unfolding fence_begin_def fence_end_def by (rule marker_prefix [OF assms(1)])+
  have h: "10 \<notin> set h" "\<forall>c \<in> set h. \<not> line_break c"
    using assms(2) by (auto simp: plain_heading_def line_break_def)
  have "10 \<notin> set (u ''=== UNTRUSTED '')" "10 \<notin> set (u '' BEGINS ==='')" "10 \<notin> set (u '' ENDS ==='')"
    by (simp_all add: u_def)
  with h(1) show "nl_lines (fence_begin h) = [fence_begin h]" "nl_lines (fence_end h) = [fence_end h]"
    unfolding fence_begin_def fence_end_def by (intro nl_lines_single; simp)+
  have "one_break (u ''=== UNTRUSTED '')" "one_break (u '' BEGINS ==='')" "one_break (u '' ENDS ==='')"
    by (simp_all add: u_def one_break_def line_break_def)
  with h(2) show "one_break (fence_begin h)" "one_break (fence_end h)"
    unfolding fence_begin_def fence_end_def one_break_def by auto
qed

definition render_sections :: "unicode_tables \<Rightarrow> ustr list \<Rightarrow> (ustr \<times> ustr) list \<Rightarrow> ustr" where
  "render_sections t intro sections =
     py_rstrip (u_join [10] (intro @ concat (map (\<lambda>(h, b). fenced t h b) sections)))"

lemma rendered_markers:
  assumes t: "plain_spaces t" and "sections \<noteq> []" and heads: "\<forall>(h, b) \<in> set sections. plain_heading h"
    and intro: "\<forall>l \<in> set intro. 61 \<notin> set l \<and> one_break l"
  shows "filter (marker_line t) (py_splitlines (render_sections t intro sections)) =
    concat (map (\<lambda>(h, b). [fence_begin h, fence_end h]) sections)"
proof -
  obtain front h b where secs: "sections = front @ [(h, b)]"
    using assms(2) by (metis rev_exhaust surj_pair)
  define xs where "xs = intro @ concat (map (\<lambda>(h, b). fenced t h b) front) @
    [fence_begin h, neutralised t b]"
  have parts: "intro @ concat (map (\<lambda>(h, b). fenced t h b) sections) = (xs @ [fence_end h]) @ [[]]"
    by (simp add: secs xs_def fenced_def)
  have e: "fence_end h = u ''=== UNTRUSTED '' @ h @ u '' ENDS ='' @ [61, 61]"
    by (simp add: fence_end_def u_def)
  have "render_sections t intro sections = py_rstrip (u_join [10] (xs @ [fence_end h]) @ [10])"
    unfolding render_sections_def parts by (subst u_join_snoc) simp_all
  also have "\<dots> = u_join [10] (xs @ [fence_end h])"
  proof -
    have "xs \<noteq> []" by (simp add: xs_def)
    then obtain s where "u_join [10] (xs @ [fence_end h]) = s @ [61]"
      by (simp add: u_join_snoc e)
    moreover have "\<not> py_space 61" by (simp add: py_space_def)
    ultimately show ?thesis using rstrip_end [of 61 s] by simp
  qed
  finally have msg: "render_sections t intro sections = u_join [10] (xs @ [fence_end h])" .
  have ob: "\<forall>l \<in> set (xs @ [fence_end h]). one_break l"
    using intro heads fence_lines [OF t] neutralised_one_break
    by (auto simp: xs_def secs fenced_def one_break_def)
  then have "one_break (u_join [10] (xs @ [fence_end h]))"
    using set_u_join [of "[10]" "xs @ [fence_end h]"] by (fastforce simp: one_break_def)
  then have "filter (marker_line t) (py_splitlines (render_sections t intro sections)) =
      filter (marker_line t) (concat (map nl_lines (xs @ [fence_end h])))"
    unfolding msg by (simp add: splitlines_filter nl_lines_join del: map_append concat_append)
  also have "\<dots> = concat (map (\<lambda>l. filter (marker_line t) (nl_lines l)) (xs @ [fence_end h]))"
    by (simp add: filter_concat o_def)
  also have "\<dots> = concat (map (\<lambda>l. filter (marker_line t) (nl_lines l))
      (intro @ concat (map (\<lambda>(h, b). fenced t h b) sections)))"
    unfolding parts by simp
  also have "\<dots> = concat (map (\<lambda>(h, b). [fence_begin h, fence_end h]) sections)"
  proof -
    have "filter (marker_line t) (nl_lines l) = []" if "l \<in> set intro" for l
      using that intro marker_needs_equals nl_lines_chars by (fastforce simp: filter_empty_conv)
    then have "concat (map (\<lambda>l. filter (marker_line t) (nl_lines l)) intro) = []" by simp
    moreover have "filter (marker_line t) (nl_lines (neutralised t b)) = []" for b
      using neutral_lines_markers [OF t] by (simp add: neutralised_def filter_empty_conv)
    then have "concat (map (\<lambda>l. filter (marker_line t) (nl_lines l)) (fenced t h b)) =
        [fence_begin h, fence_end h]" if "plain_heading h" for h b
      using fence_lines [OF t that] by (simp add: fenced_def)
    then have "concat (map (\<lambda>l. filter (marker_line t) (nl_lines l))
        (concat (map (\<lambda>(h, b). fenced t h b) sections))) =
        concat (map (\<lambda>(h, b). [fence_begin h, fence_end h]) sections)"
      using heads by (induction sections) auto
    ultimately show ?thesis by simp
  qed
  finally show ?thesis .
qed

end
