(* ===== verification/Service.thy ===== *)
theory Service
  imports Config Prompts Answers Ledger
begin

text \<open>
  The request path of \<open>SidecarService\<close> (\<open>app.py\<close>). A handler is a program that asks its surroundings:
  the clock, the provider and the durable state (the interfaces \<open>GenerationProvider\<close> and
  \<open>SidecarState\<close>); it is modelled as the tree of what it asks, each question with what the handler does
  for every answer. How the questions are answered, and where the deadline may cut a handler short, is
  the theory \<open>Service_Runs\<close>.
\<close>

section \<open>Programs\<close>

text \<open>
  What leaves a handler as an exception: a protocol error, the decimal \<open>Overflow\<close> of pricing, a provider
  without an output limit, a career reply that is no longer one, an error of the database or of the
  adapter that is none of its own.
\<close>

datatype service_error =
    ProtocolRaised protocol_error
  | PricingRaised budget_error
  | OutputLimitRaised
  | CareerReplyRaised
  | DatabaseRaised
  | AdapterRaised

datatype count_question =
    CountChat chat_request history
  | CountSocial social_request
  | CountAssessment assessment_request
  | CountBiography biography_request
  | CountMemory memory_request

datatype store_write =
    WriteProfile chat_request clock_reading
  | WriteCareer int career_values clock_reading
  | WriteTurn int string ustr clock_reading

datatype (plugins only: code) prog =
    Return "bytes option"
  | Raise service_error
  | Now "clock_reading \<Rightarrow> prog"
  | MonotonicNs "int \<Rightarrow> prog"
  | CountTokens count_question "generation_error + int \<Rightarrow> prog"
  | GenerateReply chat_request history "ustr generated \<Rightarrow> prog"
  | GenerateSocial social_request "generation_error + social_generation \<Rightarrow> prog"
  | AssessRoleplay assessment_request "assessment_completion generated \<Rightarrow> prog"
  | GenerateBiography biography_request "members generated \<Rightarrow> prog"
  | GenerateMemories memory_request "members list generated \<Rightarrow> prog"
  | TryAmbient int clock_reading "bool \<Rightarrow> prog"
  | WriteState store_write prog
  | RecentTurns int "history \<Rightarrow> prog"
  | Reserve request_kind ustr "int option" request_priority clock_reading
      "admission_decision \<times> reservation option \<Rightarrow> prog"
  | Settle reservation int clock_reading "settlement_receipt \<Rightarrow> prog"
  | Release reservation "bool \<Rightarrow> prog"

text \<open>
  A service: its configuration, its bridge token, its provider's description, the interpreter it runs
  on, whether a durable state is open, and pydantic's reading of a career reply, which gives back the
  candidate and the spending style.
\<close>

record service =
  sv_config :: sidecar_config
  sv_token :: ustr
  sv_metadata :: provider_metadata
  sv_env :: interpreter
  sv_has_store :: bool
  sv_career_reply :: "ustr \<Rightarrow> (ustr \<times> ustr) option"

section \<open>Lanes, kinds and costs\<close>

definition priority_for :: "chat_request \<Rightarrow> request_priority" where
  "priority_for r = (if is_ambient r \<or> is_career r then Background else ImmediateHuman)"

definition social_priority_for :: "social_request \<Rightarrow> request_priority" where
  "social_priority_for r = (case soc_lane r of
     ImmediateHumanLane \<Rightarrow> ImmediateHuman | BackgroundLane \<Rightarrow> Background)"

definition request_kind_for :: "chat_request \<Rightarrow> request_kind" where
  "request_kind_for r = (if is_career r then CareerGeneration else ChatResponse)"

text \<open>\<open>None\<close> is the \<open>ValueError\<close> of a completion that cannot be priced.\<close>

definition actual_cost_nano ::
  "generation_usage \<Rightarrow> money_in option \<times> money_in option \<Rightarrow> budget_error + int option" where
  "actual_cost_nano us prices =
     (if \<not> is_priceable us then Inr None
      else token_cost_nano
        (us_input_tokens us + us_cache_creation_tokens us + us_cache_read_tokens us)
        (us_output_tokens us) (fst prices) (snd prices))"

section \<open>Steps the handlers share\<close>

text \<open>
  The five handlers repeat these lines. Between counting and generating: the input limit, the largest
  cost, and the reservation, which has to be admitted.
\<close>

definition reserve_maximum ::
  "service \<Rightarrow> string \<Rightarrow> int \<Rightarrow> request_kind \<Rightarrow> request_priority \<Rightarrow> clock_reading \<Rightarrow>
   (reservation \<Rightarrow> prog) \<Rightarrow> prog" where
  "reserve_maximum sv operation input_tokens kind priority now k =
     (let meta = sv_metadata sv; (pin, pout) = price_texts (sv_config sv) in
      if pm_max_input_tokens meta < input_tokens then Return None
      else (case max_output_tokens meta operation of
        None \<Rightarrow> Raise OutputLimitRaised
      | Some limit \<Rightarrow> (case conservative_max_cost_nano input_tokens limit pin pout of
          Inl e \<Rightarrow> Raise (PricingRaised e)
        | Inr mx \<Rightarrow> Reserve kind (pm_model meta) mx priority now (\<lambda>(decision, res).
            case res of
              None \<Rightarrow> Return None
            | Some r \<Rightarrow> if decision = Admitted then k r else Return None))))"

text \<open>After a completion: the clock, the price and the settlement, which has to be completed.\<close>

definition settle_usage ::
  "service \<Rightarrow> reservation \<Rightarrow> generation_usage \<Rightarrow> (clock_reading \<Rightarrow> settlement_receipt \<Rightarrow> prog) \<Rightarrow> prog" where
  "settle_usage sv res us k =
     Now (\<lambda>settled_on. case actual_cost_nano us (price_texts (sv_config sv)) of
       Inl e \<Rightarrow> Raise (PricingRaised e)
     | Inr None \<Rightarrow> Return None
     | Inr (Some cost) \<Rightarrow> Settle res cost settled_on (\<lambda>receipt.
         if completed receipt then k settled_on receipt else Return None))"

text \<open>What a failed generation owes, and then the handler's answer to it.\<close>

definition account_for_failure ::
  "service \<Rightarrow> reservation \<Rightarrow> generation_error \<Rightarrow> prog \<Rightarrow> prog" where
  "account_for_failure sv res e k =
     (if billing_of e = BillingImpossible then Release res (\<lambda>_. k)
      else (case error_usage e of
        None \<Rightarrow> k
      | Some us \<Rightarrow> (case actual_cost_nano us (price_texts (sv_config sv)) of
          Inl e \<Rightarrow> Raise (PricingRaised e)
        | Inr None \<Rightarrow> k
        | Inr (Some cost) \<Rightarrow> Now (\<lambda>now. Settle res cost now (\<lambda>_. k)))))"

definition reply :: "protocol_error + bytes \<Rightarrow> prog" where
  "reply frame = (case frame of Inl e \<Rightarrow> Raise (ProtocolRaised e) | Inr b \<Rightarrow> Return (Some b))"

section \<open>The handlers\<close>

definition process_roleplay_assessment_within_deadline ::
  "service \<Rightarrow> assessment_request \<Rightarrow> prog" where
  "process_roleplay_assessment_within_deadline sv r =
     (if \<not> sv_has_store sv then Return None
      else Now (\<lambda>now. CountTokens (CountAssessment r) (\<lambda>counted. case counted of
        Inl _ \<Rightarrow> Return None
      | Inr input_tokens \<Rightarrow>
          reserve_maximum sv ''roleplay_assessment'' input_tokens ModerationClassification
            ImmediateHuman now (\<lambda>res.
          AssessRoleplay r (\<lambda>generated. case generated of
            Inl e \<Rightarrow> account_for_failure sv res e (Return None)
          | Inr (completion, us) \<Rightarrow> settle_usage sv res us (\<lambda>_ _.
              reply (encode_roleplay_assessment_response (asm_request_token r) completion
                (sv_token sv))))))))"

definition process_memory_within_deadline :: "service \<Rightarrow> memory_request \<Rightarrow> prog" where
  "process_memory_within_deadline sv r =
     (if \<not> sv_has_store sv then Return None
      else Now (\<lambda>now. CountTokens (CountMemory r) (\<lambda>counted. case counted of
        Inl _ \<Rightarrow> Return None
      | Inr input_tokens \<Rightarrow>
          reserve_maximum sv ''memory'' input_tokens MemoryExtraction Background now (\<lambda>res.
          GenerateMemories r (\<lambda>generated. case generated of
            Inl e \<Rightarrow> account_for_failure sv res e (Return None)
          | Inr (candidates, us) \<Rightarrow> settle_usage sv res us (\<lambda>_ _.
              reply (encode_memory_response (mreq_request_token r) (mreq_bot_guid r)
                (mreq_thread_id r) candidates (sv_token sv))))))))"

definition process_biography_within_deadline :: "service \<Rightarrow> biography_request \<Rightarrow> prog" where
  "process_biography_within_deadline sv r =
     (if \<not> sv_has_store sv then Return None
      else Now (\<lambda>now. CountTokens (CountBiography r) (\<lambda>counted. case counted of
        Inl _ \<Rightarrow> Return None
      | Inr input_tokens \<Rightarrow>
          reserve_maximum sv ''biography'' input_tokens BackstoryGeneration Background now (\<lambda>res.
          GenerateBiography r (\<lambda>generated. case generated of
            Inl e \<Rightarrow> account_for_failure sv res e (Return None)
          | Inr (profile, us) \<Rightarrow> settle_usage sv res us (\<lambda>_ _.
              reply (encode_biography_response (bio_request_token r) (bio_bot_guid r) profile
                (sv_token sv))))))))"

text \<open>A refused line is answered with a request for one more attempt, any other failure with silence.\<close>

definition regeneration_answer :: "social_request \<Rightarrow> social_answer" where
  "regeneration_answer r = \<lparr>sa_request_token = soc_request_token r, sa_bot_guid = soc_bot_guid r,
     sa_channel = soc_channel r, sa_message = [], sa_regenerate = True, sa_emote_id = 0,
     sa_metadata = None, sa_contribution = None, sa_claim_subject = None, sa_evidence_ids = [],
     sa_memory_ids = []\<rparr>"

definition proposal_answer ::
  "social_request \<Rightarrow> social_generation \<Rightarrow> social_call_metadata \<Rightarrow> social_answer" where
  "proposal_answer r g metadata = \<lparr>sa_request_token = soc_request_token r,
     sa_bot_guid = soc_bot_guid r, sa_channel = soc_channel r, sa_message = sg_message g,
     sa_regenerate = False, sa_emote_id = sg_emote_id g, sa_metadata = Some metadata,
     sa_contribution = Some (sg_contribution g), sa_claim_subject = Some (sg_claim_subject g),
     sa_evidence_ids = sg_evidence_ids g, sa_memory_ids = sg_memory_ids g\<rparr>"

text \<open>\<open>None\<close> is the \<open>ValueError\<close> of metadata that pydantic or the amount's format refuses.\<close>

definition call_metadata ::
  "provider_metadata \<Rightarrow> int \<Rightarrow> generation_usage \<Rightarrow> int \<Rightarrow> social_call_metadata option" where
  "call_metadata meta latency_ms us stored_cost =
     (case nano_to_fixed_usd_string stored_cost of
        None \<Rightarrow> None
      | Some cost \<Rightarrow>
          let m = \<lparr>md_model = pm_model meta, md_latency_ms = latency_ms,
            md_input_tokens = us_input_tokens us, md_output_tokens = us_output_tokens us,
            md_cache_creation_tokens = us_cache_creation_tokens us,
            md_cache_read_tokens = us_cache_read_tokens us, md_cost_usd = u cost\<rparr>
          in if valid_metadata m then Some m else None)"

definition process_social_within_deadline :: "service \<Rightarrow> social_request \<Rightarrow> prog" where
  "process_social_within_deadline sv r =
     (if \<not> sv_has_store sv then Return None
      else Now (\<lambda>now. CountTokens (CountSocial r) (\<lambda>counted. case counted of
        Inl _ \<Rightarrow> Return None
      | Inr input_tokens \<Rightarrow>
          reserve_maximum sv ''social'' input_tokens ChatResponse (social_priority_for r) now (\<lambda>res.
          MonotonicNs (\<lambda>started.
          GenerateSocial r (\<lambda>generated. case generated of
            Inl (GenerationInvalidOutput us) \<Rightarrow>
              account_for_failure sv res (GenerationInvalidOutput us)
                (reply (encode_social_response (sv_env sv) (regeneration_answer r) (sv_token sv)))
          | Inl e \<Rightarrow> account_for_failure sv res e (Return None)
          | Inr g \<Rightarrow> MonotonicNs (\<lambda>ended.
              settle_usage sv res (sg_usage g) (\<lambda>_ receipt.
                if breach receipt \<or> saturated receipt then Return None
                else (case stored_cost_nano receipt of
                  None \<Rightarrow> Return None
                | Some stored \<Rightarrow>
                    (case call_metadata (sv_metadata sv) ((ended - started) div 1000000)
                        (sg_usage g) stored of
                      None \<Rightarrow> Return None
                    | Some metadata \<Rightarrow>
                        reply (encode_social_response (sv_env sv) (proposal_answer r g metadata)
                          (sv_token sv))))))))))))"

definition history_for :: "chat_request \<Rightarrow> (history \<Rightarrow> prog) \<Rightarrow> prog" where
  "history_for r k = (if is_ambient r \<or> is_career r then k [] else RecentTurns (chat_bot_guid r) k)"

text \<open>
  What a settled chat reply leaves behind before it is sent: a career decision, or the two turns of the
  conversation; an ambient line leaves nothing. The career version is the one version the schema has.
\<close>

definition remember_reply :: "service \<Rightarrow> chat_request \<Rightarrow> ustr \<Rightarrow> clock_reading \<Rightarrow> prog \<Rightarrow> prog" where
  "remember_reply sv r text settled_on k =
     (if is_career r then
        (case sv_career_reply sv text of
           None \<Rightarrow> Raise CareerReplyRaised
         | Some (token, style) \<Rightarrow> WriteState (WriteCareer (chat_bot_guid r)
             \<lparr>val_career_version = 1, val_candidate_token = token, val_spending_style = style\<rparr>
             settled_on) k)
      else if \<not> is_ambient r then
        (case build_user_message (sv_env sv) r of
           Inl e \<Rightarrow> Raise (ProtocolRaised e)
         | Inr message \<Rightarrow>
             WriteState (WriteTurn (chat_bot_guid r) ''user'' message settled_on)
               (WriteState (WriteTurn (chat_bot_guid r) ''assistant'' text settled_on) k))
      else k)"

definition process_within_deadline :: "service \<Rightarrow> chat_request \<Rightarrow> prog" where
  "process_within_deadline sv r =
     (if \<not> sv_has_store sv then Return None
      else Now (\<lambda>now.
        let body = WriteState (WriteProfile r now) (history_for r (\<lambda>history.
          CountTokens (CountChat r history) (\<lambda>counted. case counted of
            Inl _ \<Rightarrow> Return None
          | Inr input_tokens \<Rightarrow>
              reserve_maximum sv (if is_career r then ''career'' else ''chat'') input_tokens
                (request_kind_for r) (priority_for r) now (\<lambda>res.
              GenerateReply r history (\<lambda>generated. case generated of
                Inl e \<Rightarrow> account_for_failure sv res e (Return None)
              | Inr (text, us) \<Rightarrow> settle_usage sv res us (\<lambda>settled_on _.
                  remember_reply sv r text settled_on
                    (reply (encode_response (chat_request_id r) text (sv_token sv)))))))))
        in if is_ambient r then
             TryAmbient (cfg_ambient_per_hour (sv_config sv)) now (\<lambda>begun.
               if begun then body else Return None)
           else body))"

section \<open>From a payload to its handler\<close>

text \<open>The gates before the deadline starts: the request itself, then the budget.\<close>

definition when_allowed :: "service \<Rightarrow> (unit \<Rightarrow> prog) \<Rightarrow> prog" where
  "when_allowed sv k = (case generation_allowed (sv_config sv) of
     Inl e \<Rightarrow> Raise (PricingRaised e)
   | Inr allowed \<Rightarrow> if allowed then k () else Return None)"

definition parsed_request :: "protocol_error + 'r \<Rightarrow> ('r \<Rightarrow> prog) \<Rightarrow> prog" where
  "parsed_request r k = (case r of Inl e \<Rightarrow> Raise (ProtocolRaised e) | Inr r \<Rightarrow> k r)"

definition process_social_payload :: "service \<Rightarrow> bytes \<Rightarrow> prog" where
  "process_social_payload sv payload =
     parsed_request (parse_social_request (sv_env sv) payload (sv_token sv)) (\<lambda>r.
       when_allowed sv (\<lambda>_. process_social_within_deadline sv r))"

definition process_biography_payload :: "service \<Rightarrow> bytes \<Rightarrow> prog" where
  "process_biography_payload sv payload =
     parsed_request (parse_biography_request (sv_env sv) payload (sv_token sv)) (\<lambda>r.
       when_allowed sv (\<lambda>_. process_biography_within_deadline sv r))"

definition process_memory_payload :: "service \<Rightarrow> bytes \<Rightarrow> prog" where
  "process_memory_payload sv payload =
     parsed_request (parse_memory_request (sv_env sv) payload (sv_token sv)) (\<lambda>r.
       when_allowed sv (\<lambda>_. process_memory_within_deadline sv r))"

definition process_roleplay_assessment_payload :: "service \<Rightarrow> bytes \<Rightarrow> prog" where
  "process_roleplay_assessment_payload sv payload =
     parsed_request (parse_roleplay_assessment_request (sv_env sv) payload (sv_token sv)) (\<lambda>r.
       when_allowed sv (\<lambda>_. process_roleplay_assessment_within_deadline sv r))"

definition process_chat_payload :: "service \<Rightarrow> bytes \<Rightarrow> prog" where
  "process_chat_payload sv payload =
     parsed_request (parse_request (sv_env sv) payload (sv_token sv)) (\<lambda>r.
       when_allowed sv (\<lambda>_.
         if is_ambient r \<and> \<not> ambient_allowed (sv_config sv) then Return None
         else process_within_deadline sv r))"

definition process_payload :: "service \<Rightarrow> bytes \<Rightarrow> prog" where
  "process_payload sv payload = (case declared_kind (sv_env sv) payload of
     Inl e \<Rightarrow> Raise (ProtocolRaised e)
   | Inr None \<Rightarrow> process_chat_payload sv payload
   | Inr (Some kind) \<Rightarrow>
       if kind = u ''social'' then process_social_payload sv payload
       else if kind = u ''biography'' then process_biography_payload sv payload
       else if kind = u ''memory'' then process_memory_payload sv payload
       else if kind = u ''roleplay_assessment'' then process_roleplay_assessment_payload sv payload
       else Raise (ProtocolRaised ProtocolError))"

end
