(* ===== verification/Sidecar_State.thy ===== *)
theory Sidecar_State
  imports Config Prompts Ledger_Runs
begin

text \<open>
  \<open>state.py\<close>: the durable operations the service can ask for, as an interface over any kind of database,
  and their only implementation, which hands each of them to the ledger or the store. The interface's
  contract is the locale \<open>durable_state\<close>: every operation keeps the invariant of the ledger, where the
  reservations that have been handed out may be settled or released by whoever holds them.
\<close>

section \<open>The interface\<close>

text \<open>
  An operation on a database fails with an error and changes nothing, or gives its result and the
  database after its transaction. The random bytes of a public id are an argument of \<open>reserve\<close>, the
  server's timestamps one of the purge.
\<close>

record 'db sidecar_state =
  op_purge_pending_bot_data :: "(nat \<Rightarrow> int) \<Rightarrow> 'db \<Rightarrow> nat \<times> 'db"
  op_try_begin_ambient :: "int \<Rightarrow> clock_reading \<Rightarrow> 'db \<Rightarrow> bool \<times> 'db"
  op_record_profile :: "chat_request \<Rightarrow> clock_reading \<Rightarrow> 'db \<Rightarrow> db_error + 'db"
  op_get_profile :: "int \<Rightarrow> 'db \<Rightarrow> profile_values option"
  op_recent_turns :: "int \<Rightarrow> 'db \<Rightarrow> history"
  op_append_turn :: "int \<Rightarrow> string \<Rightarrow> ustr \<Rightarrow> clock_reading \<Rightarrow> 'db \<Rightarrow> db_error + 'db"
  op_record_career_decision :: "int \<Rightarrow> career_values \<Rightarrow> clock_reading \<Rightarrow> 'db \<Rightarrow> db_error + 'db"
  op_reserve :: "request_kind \<Rightarrow> ustr \<Rightarrow> int option \<Rightarrow> request_priority \<Rightarrow> clock_reading \<Rightarrow> nat list \<Rightarrow>
    'db \<Rightarrow> db_error + (admission_decision \<times> reservation option) \<times> 'db"
  op_settle :: "reservation \<Rightarrow> int \<Rightarrow> clock_reading \<Rightarrow> 'db \<Rightarrow> db_error + settlement_receipt \<times> 'db"
  op_release :: "reservation \<Rightarrow> 'db \<Rightarrow> db_error + bool \<times> 'db"
  op_budget_state :: "clock_reading \<Rightarrow> 'db \<Rightarrow> db_error + budget_state"

section \<open>The implementation\<close>

text \<open>The profile of a request; its version is the one version the schema has.\<close>

definition profile_of :: "chat_request \<Rightarrow> profile_values" where
  "profile_of r = \<lparr>val_profile_version = 2, val_crafting_affinity = chat_crafting r,
     val_gathering_affinity = chat_gathering r, val_exploration_affinity = chat_exploration r,
     val_sociability = chat_sociability r, val_voice = chat_voice r, val_bot_name = chat_bot_name r\<rparr>"

definition mysql_sidecar_state :: "budget_ledger \<Rightarrow> database sidecar_state" where
  "mysql_sidecar_state book = \<lparr>
     op_purge_pending_bot_data = purge_pending_bot_data,
     op_try_begin_ambient = try_begin_ambient,
     op_record_profile = (\<lambda>r now. record_profile (chat_bot_guid r) (profile_of r) now),
     op_get_profile = get_profile,
     op_recent_turns = recent_turns,
     op_append_turn = append_turn,
     op_record_career_decision = record_career_decision,
     op_reserve = reserve book,
     op_settle = settle,
     op_release = release,
     op_budget_state = snapshot\<rparr>"

text \<open>
  \<open>open_state\<close>: the ledger of a configuration. An \<open>Overflow\<close> of the configured amounts leaves no ledger.
\<close>

definition book_of :: "sidecar_config \<Rightarrow> budget_ledger option" where
  "book_of cfg = (case (budget_nano cfg, config_reserve_ratio cfg) of
     (Inr cap, Inr ratio) \<Rightarrow> Some \<lparr>ceiling_nano = cap, reserve_ratio = ratio\<rparr>
   | _ \<Rightarrow> None)"

section \<open>The contract\<close>

locale durable_state =
  fixes ops :: "'db sidecar_state" and usable :: bool
    and sound :: "'db \<Rightarrow> reservation set \<Rightarrow> bool"
  assumes reserve_keeps: "usable \<Longrightarrow> sound db hs \<Longrightarrow>
      op_reserve ops kind model mx priority now entropy db = Inr ((d, res), db') \<Longrightarrow>
      sound db' (hs \<union> set_option res)"
    and settle_keeps: "sound db hs \<Longrightarrow> h \<in> hs \<Longrightarrow> op_settle ops h actual now db = Inr (receipt, db') \<Longrightarrow>
      sound db' hs"
    and release_keeps: "sound db hs \<Longrightarrow> h \<in> hs \<Longrightarrow> op_release ops h db = Inr (b, db') \<Longrightarrow> sound db' hs"
    and ambient_keeps: "sound db hs \<Longrightarrow> sound (snd (op_try_begin_ambient ops n now db)) hs"
    and profile_keeps: "sound db hs \<Longrightarrow> op_record_profile ops r now db = Inr db' \<Longrightarrow> sound db' hs"
    and career_keeps: "sound db hs \<Longrightarrow> op_record_career_decision ops g v now db = Inr db' \<Longrightarrow> sound db' hs"
    and turn_keeps: "sound db hs \<Longrightarrow> op_append_turn ops g role content now db = Inr db' \<Longrightarrow> sound db' hs"
    and purge_keeps: "sound db hs \<Longrightarrow> sound (snd (op_purge_pending_bot_data ops stamps db)) hs"

section \<open>The implementation keeps the contract\<close>

text \<open>What the ledger's invariant is about: the other tables may change under it.\<close>

definition same_ledger :: "database \<Rightarrow> database \<Rightarrow> bool" where
  "same_ledger db db' \<longleftrightarrow> daily_budget db' = daily_budget db \<and> reservations db' = reservations db \<and>
     next_reservation_id db' = next_reservation_id db \<and> runtime_control db' = runtime_control db"

lemma ledger_inv_same:
  assumes "same_ledger db db'" "ledger_inv k (db, hs)" shows "ledger_inv k (db', hs)"
proof -
  have e: "spent_of d db' = spent_of d db" "derived d db' = derived d db"
    "is_circuit_open db' = is_circuit_open db" for d
    using assms(1) by (simp_all add: same_ledger_def spent_of_def derived_def is_circuit_open_def)
  show ?thesis
    using assms by (simp add: ledger_inv_def ledger_wf_def rows_ok_def within_limit_def handles_ok_def
        same_ledger_def e)
qed

definition sound_within :: "int \<Rightarrow> database \<Rightarrow> reservation set \<Rightarrow> bool" where
  "sound_within k db hs \<longleftrightarrow> 0 \<le> k \<and> k \<le> max_storable_nano \<and> (\<exists>xs. hs \<subseteq> set xs \<and> ledger_inv k (db, xs))"

lemma sound_same: "same_ledger db db' \<Longrightarrow> sound_within k db hs \<Longrightarrow> sound_within k db' hs"
  unfolding sound_within_def using ledger_inv_same by blast

lemma try_begin_ambient_same: "same_ledger db (snd (try_begin_ambient n now db))"
  by (simp add: try_begin_ambient_def same_ledger_def Let_def)

lemma record_profile_same: "record_profile g v now db = Inr db' \<Longrightarrow> same_ledger db db'"
  by (auto simp: record_profile_def same_ledger_def and_then_Inr_iff)

lemma record_career_same: "record_career_decision g v now db = Inr db' \<Longrightarrow> same_ledger db db'"
  by (auto simp: record_career_decision_def same_ledger_def and_then_Inr_iff)

lemma append_turn_same: "append_turn g role content now db = Inr db' \<Longrightarrow> same_ledger db db'"
  by (auto simp: append_turn_def insert_turn_def trim_turns_def same_ledger_def and_then_Inr_iff Let_def
      split: option.splits)

lemma purge_same: "same_ledger db (snd (purge_pending_bot_data stamps db))"
  using purge_loop_effect [of stamps 0 db]
  by (cases "purge_loop stamps 0 db") (simp add: purge_pending_bot_data_def same_ledger_def)

text \<open>The ledgers a limit admits: valid, and with a ceiling within it.\<close>

definition book_within :: "int \<Rightarrow> budget_ledger \<Rightarrow> bool" where
  "book_within k book \<longleftrightarrow> valid_book book \<and> ceiling_nano book \<le> k"

lemma lane_limit_le:
  assumes "valid_book book" shows "lane_limit book priority \<le> ceiling_nano book"
proof -
  obtain f where "reserve_floor_nano (ceiling_nano book) (reserve_ratio book) = Inr f" "0 \<le> f"
    using reserve_floor_bounds [of "ceiling_nano book" "reserve_ratio book"] assms
    by (auto simp: valid_book_def)
  then show ?thesis by (simp add: lane_limit_def split: request_priority.split)
qed

lemma ledger_step_sound:
  assumes "ledger_step sources (db, xs) (db', xs')" "sources_within k sources"
    and "hs \<subseteq> set xs" "ledger_inv k (db, xs)" "hs' \<subseteq> hs \<union> set xs'"
  shows "sound_within k db' hs'"
proof -
  have "set xs \<subseteq> set xs'" using assms(1) by cases (auto split: option.splits)
  then have "hs' \<subseteq> set xs'" using assms(3,5) by blast
  with ledger_inv_step [OF assms(1,2,4)] assms(2) show ?thesis
    unfolding sound_within_def sources_within_def by blast
qed

interpretation mysql: durable_state "mysql_sidecar_state book" "book_within k book" "sound_within k"
  for book k
proof
  fix kind model mx priority now entropy db hs d res db'
  assume b: "book_within k book" and s: "sound_within k db hs"
    and r: "op_reserve (mysql_sidecar_state book) kind model mx priority now entropy db =
      Inr ((d, res), db')"
  obtain xs where xs: "hs \<subseteq> set xs" "ledger_inv k (db, xs)" using s by (auto simp: sound_within_def)
  have src: "sources_within k {(book, priority)}"
    using b s lane_limit_le [of book priority]
    by (auto simp: sources_within_def book_within_def sound_within_def)
  have step: "ledger_step {(book, priority)} (db, xs) (db', case res of None \<Rightarrow> xs | Some h \<Rightarrow> h # xs)"
    using r by (intro reserves) (simp_all add: mysql_sidecar_state_def)
  show "sound_within k db' (hs \<union> set_option res)"
    by (rule ledger_step_sound [OF step src xs]) (use xs(1) in \<open>auto split: option.splits\<close>)
next
  fix db hs h actual now receipt db'
  assume s: "sound_within k db hs" and h: "h \<in> hs"
    and r: "op_settle (mysql_sidecar_state book) h actual now db = Inr (receipt, db')"
  obtain xs where xs: "hs \<subseteq> set xs" "ledger_inv k (db, xs)" using s by (auto simp: sound_within_def)
  have src: "sources_within k {}" using s by (simp add: sources_within_def sound_within_def)
  have "ledger_step {} (db, xs) (db', xs)"
    using r h xs(1) by (intro settles) (auto simp: mysql_sidecar_state_def)
  from ledger_step_sound [OF this src xs] xs(1) show "sound_within k db' hs" by blast
next
  fix db hs h b db'
  assume s: "sound_within k db hs" and h: "h \<in> hs"
    and r: "op_release (mysql_sidecar_state book) h db = Inr (b, db')"
  obtain xs where xs: "hs \<subseteq> set xs" "ledger_inv k (db, xs)" using s by (auto simp: sound_within_def)
  have src: "sources_within k {}" using s by (simp add: sources_within_def sound_within_def)
  have "ledger_step {} (db, xs) (db', xs)"
    using r h xs(1) by (intro releases) (auto simp: mysql_sidecar_state_def)
  from ledger_step_sound [OF this src xs] xs(1) show "sound_within k db' hs" by blast
qed (auto simp: mysql_sidecar_state_def intro: sound_same try_begin_ambient_same record_profile_same
    record_career_same append_turn_same purge_same)

end
