(* ===== verification/Service_Runs.thy ===== *)
theory Service_Runs
  imports Service Sidecar_State
begin

text \<open>
  How a handler runs: the answers to its questions, the deadline that may cut it short at any of them,
  the failures of the database, and the other processes that change the database in between. A run
  leaves a trace of what it did with money, with the provider and with the durable state.
\<close>

section \<open>Events\<close>

datatype event =
    Counted count_question "generation_error + int"
  | Reserved request_kind ustr "int option" request_priority clock_reading
      "admission_decision \<times> reservation option"
  | Generated "generation_error + generation_usage"
  | Settled reservation int clock_reading settlement_receipt
  | Released reservation bool
  | Wrote store_write

definition usage_of :: "'a generated \<Rightarrow> event" where
  "usage_of answer = Generated (map_sum id snd answer)"

definition perform_write :: "'db sidecar_state \<Rightarrow> store_write \<Rightarrow> 'db \<Rightarrow> db_error + 'db" where
  "perform_write ops w db = (case w of
     WriteProfile r now \<Rightarrow> op_record_profile ops r now db
   | WriteCareer guid v now \<Rightarrow> op_record_career_decision ops guid v now db
   | WriteTurn guid role content now \<Rightarrow> op_append_turn ops guid role content now db)"

section \<open>Steps\<close>

text \<open>
  A question that is answered. The clocks and the provider may answer anything; the state answers as
  its operations do.
\<close>

inductive heard :: "'db sidecar_state \<Rightarrow> 'db \<times> prog \<Rightarrow> event list \<Rightarrow> 'db \<times> prog \<Rightarrow> bool"
  for ops where
  now: "heard ops (db, Now k) [] (db, k t)"
| monotonic: "heard ops (db, MonotonicNs k) [] (db, k n)"
| counted: "heard ops (db, CountTokens q k) [Counted q answer] (db, k answer)"
| replied: "heard ops (db, GenerateReply r h kr) [usage_of generated] (db, kr generated)"
| proposed: "heard ops (db, GenerateSocial s ks) [Generated (map_sum id sg_usage proposal)]
    (db, ks proposal)"
| assessed: "heard ops (db, AssessRoleplay a ka) [usage_of assessment] (db, ka assessment)"
| written_up: "heard ops (db, GenerateBiography b kb) [usage_of profile] (db, kb profile)"
| extracted: "heard ops (db, GenerateMemories m km) [usage_of candidates] (db, km candidates)"
| ambient: "op_try_begin_ambient ops n t db = (begun, db') \<Longrightarrow>
    heard ops (db, TryAmbient n t k) [] (db', k begun)"
| wrote: "perform_write ops w db = Inr db' \<Longrightarrow> heard ops (db, WriteState w p) [Wrote w] (db', p)"
| recalled: "heard ops (db, RecentTurns g k) [] (db, k (op_recent_turns ops g db))"
| reserved: "op_reserve ops kind model mx priority t entropy db = Inr (decided, db') \<Longrightarrow>
    heard ops (db, Reserve kind model mx priority t k)
      [Reserved kind model mx priority t decided] (db', k decided)"
| settled: "op_settle ops res cost t db = Inr (receipt, db') \<Longrightarrow>
    heard ops (db, Settle res cost t k) [Settled res cost t receipt] (db', k receipt)"
| released: "op_release ops res db = Inr (b, db') \<Longrightarrow>
    heard ops (db, Release res k) [Released res b] (db', k b)"

inductive_cases heardE: "heard ops s es s'"

fun finished :: "prog \<Rightarrow> bool" where
  "finished (Return v) = True"
| "finished (Raise e) = True"
| "finished _ = False"

text \<open>
  A step of a handler. The deadline cancels it at any question, asked or answered but not yet resumed;
  a failure of the state or of the adapter leaves as an exception, before the transaction or after a
  commit whose acknowledgement was lost; a timeout of the driver is a \<open>TimeoutError\<close> and ends in the
  same silence as the deadline.
\<close>

inductive step :: "'db sidecar_state \<Rightarrow> 'db \<times> prog \<Rightarrow> event list \<Rightarrow> 'db \<times> prog \<Rightarrow> bool"
  for ops where
  resumed: "heard ops s es s' \<Longrightarrow> step ops s es s'"
| cut: "\<not> finished p \<Longrightarrow> step ops (db, p) [] (db, Return None)"
| unheard: "heard ops s es (db', p') \<Longrightarrow> step ops s es (db', Return None)"
| failed: "\<not> finished p \<Longrightarrow> e \<in> {DatabaseRaised, AdapterRaised} \<Longrightarrow> step ops (db, p) [] (db, Raise e)"
| lost: "heard ops s es (db', p') \<Longrightarrow> step ops s es (db', Raise DatabaseRaised)"

text \<open>A run of one handler, while anyone else may change the database.\<close>

inductive runs :: "'db sidecar_state \<Rightarrow> 'db \<times> prog \<Rightarrow> event list \<Rightarrow> 'db \<times> prog \<Rightarrow> bool"
  for ops where
  start: "runs ops s [] s"
| continue: "runs ops s es s' \<Longrightarrow> step ops s' es' s'' \<Longrightarrow> runs ops s (es @ es') s''"
| interfered: "runs ops s es (db, p) \<Longrightarrow> runs ops s es (db', p)"

section \<open>What holds of every run\<close>

text \<open>
  A judgement on the program alone: the trace satisfies \<open>P\<close> after every step, whatever the answers, and
  \<open>Q\<close> when there is a reply.
\<close>

primrec conforms ::
  "(event list \<Rightarrow> bool) \<Rightarrow> (event list \<Rightarrow> bytes \<Rightarrow> bool) \<Rightarrow> event list \<Rightarrow> prog \<Rightarrow> bool" where
  "conforms P Q es (Return v) \<longleftrightarrow> P es \<and> (\<forall>b. v = Some b \<longrightarrow> Q es b)"
| "conforms P Q es (Raise e) \<longleftrightarrow> P es"
| "conforms P Q es (Now k) \<longleftrightarrow> P es \<and> (\<forall>t. conforms P Q es (k t))"
| "conforms P Q es (MonotonicNs k) \<longleftrightarrow> P es \<and> (\<forall>n. conforms P Q es (k n))"
| "conforms P Q es (CountTokens q k) \<longleftrightarrow> P es \<and> (\<forall>answer. conforms P Q (es @ [Counted q answer]) (k answer))"
| "conforms P Q es (GenerateReply r h k) \<longleftrightarrow> P es \<and> (\<forall>g. conforms P Q (es @ [usage_of g]) (k g))"
| "conforms P Q es (GenerateSocial r k) \<longleftrightarrow> P es \<and>
     (\<forall>g. conforms P Q (es @ [Generated (map_sum id sg_usage g)]) (k g))"
| "conforms P Q es (AssessRoleplay r k) \<longleftrightarrow> P es \<and> (\<forall>g. conforms P Q (es @ [usage_of g]) (k g))"
| "conforms P Q es (GenerateBiography r k) \<longleftrightarrow> P es \<and> (\<forall>g. conforms P Q (es @ [usage_of g]) (k g))"
| "conforms P Q es (GenerateMemories r k) \<longleftrightarrow> P es \<and> (\<forall>g. conforms P Q (es @ [usage_of g]) (k g))"
| "conforms P Q es (TryAmbient n t k) \<longleftrightarrow> P es \<and> (\<forall>b. conforms P Q es (k b))"
| "conforms P Q es (WriteState w p) \<longleftrightarrow> P es \<and> conforms P Q (es @ [Wrote w]) p"
| "conforms P Q es (RecentTurns g k) \<longleftrightarrow> P es \<and> (\<forall>h. conforms P Q es (k h))"
| "conforms P Q es (Reserve kind model mx priority t k) \<longleftrightarrow> P es \<and>
     (\<forall>d. conforms P Q (es @ [Reserved kind model mx priority t d]) (k d))"
| "conforms P Q es (Settle res cost t k) \<longleftrightarrow> P es \<and>
     (\<forall>receipt. conforms P Q (es @ [Settled res cost t receipt]) (k receipt))"
| "conforms P Q es (Release res k) \<longleftrightarrow> P es \<and> (\<forall>b. conforms P Q (es @ [Released res b]) (k b))"

lemma conforms_now: "conforms P Q es p \<Longrightarrow> P es"
  by (cases p) auto

lemma conforms_heard:
  "heard ops (db, p) ev (db', p') \<Longrightarrow> conforms P Q es p \<Longrightarrow> conforms P Q (es @ ev) p'"
  by (cases rule: heard.cases) auto

lemma conforms_step:
  assumes "step ops (db, p) ev (db', p')" "conforms P Q es p"
  shows "conforms P Q (es @ ev) p'"
  using assms(1)
proof cases
  case resumed
  then show ?thesis using assms(2) by (rule conforms_heard)
next
  case (unheard p1)
  from conforms_now [OF conforms_heard [OF unheard(2) assms(2)]] unheard(1) show ?thesis by simp
next
  case (lost p1)
  from conforms_now [OF conforms_heard [OF lost(2) assms(2)]] lost(1) show ?thesis by simp
qed (use assms(2) conforms_now in auto)

lemma conforms_runs:
  assumes "runs ops (db, p) es (db', p')" "conforms P Q [] p"
  shows "conforms P Q es p'"
  using assms(1)
proof (induction "(db, p)" es "(db', p')" arbitrary: db' p' rule: runs.induct)
  case (continue es s' es')
  then show ?case using conforms_step by (metis surj_pair)
qed (use assms(2) in auto)

section \<open>The life of the money of one request\<close>

definition prices_of :: "service \<Rightarrow> money_in option \<times> money_in option" where
  "prices_of sv = price_texts (sv_config sv)"

definition known_cost :: "service \<Rightarrow> generation_usage \<Rightarrow> int \<Rightarrow> bool" where
  "known_cost sv us cost \<longleftrightarrow> actual_cost_nano us (prices_of sv) = Inr (Some cost)"

text \<open>
  The maximum that is reserved: the price of the input as it was counted, within the provider's limit,
  and of the longest output of the operation the question was counted for.
\<close>

fun operation_of :: "count_question \<Rightarrow> string" where
  "operation_of (CountChat r history) = (if is_career r then ''career'' else ''chat'')"
| "operation_of (CountSocial r) = ''social''"
| "operation_of (CountAssessment r) = ''roleplay_assessment''"
| "operation_of (CountBiography r) = ''biography''"
| "operation_of (CountMemory r) = ''memory''"

definition conservative :: "service \<Rightarrow> count_question \<Rightarrow> int \<Rightarrow> int option \<Rightarrow> bool" where
  "conservative sv q i mx \<longleftrightarrow> i \<le> pm_max_input_tokens (sv_metadata sv) \<and>
     (\<exists>limit. max_output_tokens (sv_metadata sv) (operation_of q) = Some limit \<and>
        conservative_max_cost_nano i limit (fst (prices_of sv)) (snd (prices_of sv)) = Inr mx)"

text \<open>
  What follows a generation: after a failure, a release when nothing can have been billed, a settlement
  at the reported cost when it is known, and nothing otherwise; after a completion, a settlement at its
  cost, and what is remembered only when the settlement was completed.
\<close>

definition failure_owes :: "service \<Rightarrow> reservation \<Rightarrow> generation_error \<Rightarrow> event list \<Rightarrow> bool" where
  "failure_owes sv res e es \<longleftrightarrow>
     (if billing_of e = BillingImpossible then \<exists>b. es = [Released res b]
      else if \<exists>us cost. error_usage e = Some us \<and> known_cost sv us cost then
        \<exists>us cost t receipt. error_usage e = Some us \<and> known_cost sv us cost \<and>
          es = [Settled res cost t receipt]
      else es = [])"

definition after_generation ::
  "service \<Rightarrow> reservation \<Rightarrow> generation_error + generation_usage \<Rightarrow> event list \<Rightarrow> bool" where
  "after_generation sv res g es \<longleftrightarrow> es = [] \<or> (case g of
     Inl e \<Rightarrow> failure_owes sv res e es
   | Inr us \<Rightarrow> (\<exists>cost t receipt ws. es = Settled res cost t receipt # map Wrote ws \<and>
       known_cost sv us cost \<and> (ws \<noteq> [] \<longrightarrow> completed receipt)))"

definition reservation_event ::
  "service \<Rightarrow> int option \<Rightarrow> admission_decision \<times> reservation option \<Rightarrow> event \<Rightarrow> bool" where
  "reservation_event sv mx d e \<longleftrightarrow> (\<exists>kind priority t.
     e = Reserved kind (pm_model (sv_metadata sv)) mx priority t d)"

text \<open>
  A lawful trace: state written before any money moves, one count of the prompt, one reservation of the
  conservative maximum of that count, and, only if it was admitted, one generation and what that owes.
\<close>

definition lawful :: "service \<Rightarrow> event list \<Rightarrow> bool" where
  "lawful sv es \<longleftrightarrow> (\<exists>ws rest. es = map Wrote ws @ rest \<and>
     (rest = [] \<or> (\<exists>q c. rest = [Counted q c]) \<or>
      (\<exists>q i mx d e. conservative sv q i mx \<and> reservation_event sv mx d e \<and>
        (rest = [Counted q (Inr i), e] \<or> (\<exists>res g tail. d = (Admitted, Some res) \<and>
           rest = Counted q (Inr i) # e # Generated g # tail \<and> after_generation sv res g tail)))))"

definition paid :: "service \<Rightarrow> event list \<Rightarrow> bool" where
  "paid sv es \<longleftrightarrow> (\<exists>ws q i mx e res us cost t receipt ws'.
     es = map Wrote ws @ [Counted q (Inr i), e, Generated (Inr us), Settled res cost t receipt] @
       map Wrote ws' \<and>
     conservative sv q i mx \<and> reservation_event sv mx (Admitted, Some res) e \<and> known_cost sv us cost \<and>
     completed receipt)"

definition asks_again :: "service \<Rightarrow> event list \<Rightarrow> bytes \<Rightarrow> bool" where
  "asks_again sv es b \<longleftrightarrow> (\<exists>q i mx e res us tail r.
     es = [Counted q (Inr i), e, Generated (Inl (GenerationInvalidOutput us))] @ tail \<and>
     conservative sv q i mx \<and> reservation_event sv mx (Admitted, Some res) e \<and>
     failure_owes sv res (GenerationInvalidOutput us) tail \<and>
     encode_social_response (sv_env sv) (regeneration_answer r) (sv_token sv) = Inr b)"

abbreviation disciplined :: "service \<Rightarrow> event list \<Rightarrow> prog \<Rightarrow> bool" where
  "disciplined sv \<equiv> conforms (lawful sv) (\<lambda>es b. paid sv es \<or> asks_again sv es b)"

lemma conforms_reserve:
  assumes "P es" "operation = operation_of q"
    and "\<And>mx d. conservative sv q i mx \<Longrightarrow>
      P (es @ [Reserved kind (pm_model (sv_metadata sv)) mx priority now d])"
    and "\<And>mx res. conservative sv q i mx \<Longrightarrow> conforms P Q
      (es @ [Reserved kind (pm_model (sv_metadata sv)) mx priority now (Admitted, Some res)]) (k res)"
  shows "conforms P Q es (reserve_maximum sv operation i kind priority now k)"
proof -
  obtain pin pout where p: "price_texts (sv_config sv) = (pin, pout)" by fastforce
  have "conservative sv q i mx"
    if "i \<le> pm_max_input_tokens (sv_metadata sv)" "max_output_tokens (sv_metadata sv) operation = Some limit"
      "conservative_max_cost_nano i limit pin pout = Inr mx" for limit mx
    unfolding conservative_def using that p assms(2) by (auto simp: prices_of_def)
  with assms show ?thesis
    by (auto simp: reserve_maximum_def p Let_def split: option.split sum.split)
qed

lemma conforms_settle:
  assumes "P es"
    and "\<And>cost t receipt. known_cost sv us cost \<Longrightarrow> P (es @ [Settled res cost t receipt])"
    and "\<And>cost t receipt. known_cost sv us cost \<Longrightarrow> completed receipt \<Longrightarrow>
      conforms P Q (es @ [Settled res cost t receipt]) (k t receipt)"
  shows "conforms P Q es (settle_usage sv res us k)"
  using assms by (auto simp: settle_usage_def known_cost_def prices_of_def split: option.split sum.split)

lemma conforms_account:
  assumes "P es" and k: "\<And>tail. failure_owes sv res e tail \<Longrightarrow> conforms P Q (es @ tail) k"
  shows "conforms P Q es (account_for_failure sv res e k)"
proof (cases "billing_of e = BillingImpossible")
  case True
  have "conforms P Q (es @ [Released res b]) k" for b
    by (rule k) (simp add: failure_owes_def True)
  with True assms(1) show ?thesis by (simp add: account_for_failure_def)
next
  case possible: False
  show ?thesis
  proof (cases "\<exists>us cost. error_usage e = Some us \<and> known_cost sv us cost")
    case True
    then obtain us cost where u: "error_usage e = Some us" "known_cost sv us cost" by blast
    then have "conforms P Q (es @ [Settled res cost t receipt]) k" for t receipt
      using possible by (intro k) (auto simp: failure_owes_def)
    with u possible assms(1) show ?thesis
      by (simp add: account_for_failure_def known_cost_def prices_of_def)
  next
    case False
    then have "conforms P Q (es @ []) k" using possible by (intro k) (auto simp: failure_owes_def)
    with False possible assms(1) show ?thesis
      by (auto simp: account_for_failure_def known_cost_def prices_of_def split: option.split sum.split)
  qed
qed

text \<open>The traces the handlers go through are lawful.\<close>

lemma lawful_writes [simp, intro]: "lawful sv (map Wrote ws)"
  unfolding lawful_def by blast

lemma lawful_empty [simp]: "lawful sv []"
  using lawful_writes [of sv "[]"] by simp

lemma lawful_counted [simp, intro]:
  "lawful sv (map Wrote ws @ [Counted q c])" "lawful sv [Counted q c]" "lawful sv [Wrote w, Counted q c]"
proof -
  show c: "lawful sv (map Wrote ws @ [Counted q c])" for ws unfolding lawful_def by blast
  show "lawful sv [Counted q c]" "lawful sv [Wrote w, Counted q c]" using c [of "[]"] c [of "[w]"] by simp_all
qed

lemma lawfulI:
  assumes "conservative sv q i mx" "reservation_event sv mx d e"
    and "rest = [Counted q (Inr i), e] \<or> (\<exists>res g tail. d = (Admitted, Some res) \<and>
      rest = Counted q (Inr i) # e # Generated g # tail \<and> after_generation sv res g tail)"
  shows "lawful sv (map Wrote ws @ rest)"
  unfolding lawful_def
  by (rule exI [of _ ws], rule exI [of _ rest], intro conjI refl, rule disjI2, rule disjI2,
    rule exI [of _ q], rule exI [of _ i], rule exI [of _ mx], rule exI [of _ d], rule exI [of _ e])
    (intro conjI assms)

lemma lawful_reserved:
  "conservative sv q i mx \<Longrightarrow> lawful sv
     (map Wrote ws @ [Counted q (Inr i), Reserved kind (pm_model (sv_metadata sv)) mx priority now d])"
  by (rule lawfulI) (auto simp: reservation_event_def)

lemma lawful_generated:
  assumes "conservative sv q i mx" "after_generation sv res g tail"
  shows "lawful sv (map Wrote ws @ Counted q (Inr i) #
    Reserved kind (pm_model (sv_metadata sv)) mx priority now (Admitted, Some res) # Generated g # tail)"
  by (rule lawfulI [OF assms(1), where d = "(Admitted, Some res)"])
    (use assms(2) in \<open>auto simp: reservation_event_def\<close>)

section \<open>The handlers are disciplined\<close>

lemma usage_of_simps [simp]:
  "usage_of (Inl e) = Generated (Inl e)" "usage_of (Inr (x, us)) = Generated (Inr us)"
  by (simp_all add: usage_of_def)

text \<open>The trace of an admitted request, written so that later events are appended to it.\<close>

definition admitted_trace ::
  "service \<Rightarrow> store_write list \<Rightarrow> count_question \<Rightarrow> int \<Rightarrow> request_kind \<Rightarrow> int option \<Rightarrow> request_priority \<Rightarrow>
   clock_reading \<Rightarrow> reservation \<Rightarrow> event list" where
  "admitted_trace sv ws q i kind mx priority now res = map Wrote ws @
     [Counted q (Inr i), Reserved kind (pm_model (sv_metadata sv)) mx priority now (Admitted, Some res)]"

lemma admitted_lawful:
  assumes "conservative sv q i mx"
  shows "lawful sv (admitted_trace sv ws q i kind mx priority now res)"
    and "after_generation sv res g tail \<Longrightarrow>
      lawful sv (admitted_trace sv ws q i kind mx priority now res @ Generated g # tail)"
  using lawful_reserved [OF assms] lawful_generated [OF assms] by (simp_all add: admitted_trace_def)

lemma disciplined_reserve:
  assumes "operation = operation_of q" and "\<And>mx res. conservative sv q i mx \<Longrightarrow>
    disciplined sv (admitted_trace sv ws q i kind mx priority now res) (k res)"
  shows "disciplined sv (map Wrote ws @ [Counted q (Inr i)])
    (reserve_maximum sv operation i kind priority now k)"
  by (rule conforms_reserve [OF _ assms(1)]) (use assms(2) lawful_reserved in \<open>auto simp: admitted_trace_def\<close>)

lemma disciplined_failure:
  assumes "conservative sv q i mx"
    and "\<And>tail. failure_owes sv res e tail \<Longrightarrow> disciplined sv
      (admitted_trace sv ws q i kind mx priority now res @ Generated (Inl e) # tail) k"
  shows "disciplined sv (admitted_trace sv ws q i kind mx priority now res @ [Generated (Inl e)])
    (account_for_failure sv res e k)"
  by (rule conforms_account)
    (use assms(2) admitted_lawful(2) [OF assms(1), of res "Inl e" "[]"] in \<open>auto simp: after_generation_def\<close>)

lemma disciplined_silence:
  assumes "conservative sv q i mx"
  shows "disciplined sv (admitted_trace sv ws q i kind mx priority now res @ [Generated (Inl e)])
    (account_for_failure sv res e (Return None))"
  by (rule disciplined_failure [OF assms])
    (use admitted_lawful(2) [OF assms, of res "Inl e"] in \<open>auto simp: after_generation_def\<close>)

definition settled_trace ::
  "service \<Rightarrow> store_write list \<Rightarrow> count_question \<Rightarrow> int \<Rightarrow> request_kind \<Rightarrow> int option \<Rightarrow> request_priority \<Rightarrow>
   clock_reading \<Rightarrow> reservation \<Rightarrow> generation_usage \<Rightarrow> int \<Rightarrow> clock_reading \<Rightarrow> settlement_receipt \<Rightarrow> event list" where
  "settled_trace sv ws q i kind mx priority now res us cost t receipt =
     admitted_trace sv ws q i kind mx priority now res @ [Generated (Inr us), Settled res cost t receipt]"

lemma settled_lawful:
  assumes "conservative sv q i mx" "known_cost sv us cost" "completed receipt"
  shows "lawful sv (settled_trace sv ws q i kind mx priority now res us cost t receipt @ map Wrote ws')"
    and "paid sv (settled_trace sv ws q i kind mx priority now res us cost t receipt @ map Wrote ws')"
proof -
  have "after_generation sv res (Inr us) (Settled res cost t receipt # map Wrote ws')"
    using assms(2,3) by (auto simp: after_generation_def)
  from admitted_lawful(2) [OF assms(1) this]
  show "lawful sv (settled_trace sv ws q i kind mx priority now res us cost t receipt @ map Wrote ws')"
    by (simp add: settled_trace_def)
  show "paid sv (settled_trace sv ws q i kind mx priority now res us cost t receipt @ map Wrote ws')"
    unfolding paid_def
    by (rule exI [of _ ws], rule exI [of _ q], rule exI [of _ i], rule exI [of _ mx],
      rule exI [of _ "Reserved kind (pm_model (sv_metadata sv))
      mx priority now (Admitted, Some res)"])
      (use assms in \<open>auto simp: settled_trace_def admitted_trace_def reservation_event_def\<close>)
qed

lemma disciplined_settle:
  assumes "conservative sv q i mx"
    and "\<And>cost t receipt. known_cost sv us cost \<Longrightarrow> completed receipt \<Longrightarrow> disciplined sv
      (settled_trace sv ws q i kind mx priority now res us cost t receipt) (k t receipt)"
  shows "disciplined sv (admitted_trace sv ws q i kind mx priority now res @ [Generated (Inr us)])
    (settle_usage sv res us k)"
proof (rule conforms_settle)
  show "lawful sv (admitted_trace sv ws q i kind mx priority now res @ [Generated (Inr us)])"
    by (rule admitted_lawful(2) [OF assms(1)]) (simp add: after_generation_def)
  show "lawful sv ((admitted_trace sv ws q i kind mx priority now res @ [Generated (Inr us)]) @
      [Settled res cost t receipt])" if "known_cost sv us cost" for cost t receipt
    using admitted_lawful(2) [OF assms(1), of res "Inr us" "[Settled res cost t receipt]"] that
    by (simp add: after_generation_def)
qed (use assms(2) in \<open>auto simp: settled_trace_def\<close>)

lemma disciplined_frame:
  assumes "conservative sv q i mx" "known_cost sv us cost" "completed receipt"
  shows "disciplined sv (settled_trace sv ws q i kind mx priority now res us cost t receipt @ map Wrote ws')
    (reply frame)"
  using settled_lawful [OF assms] by (cases frame) (simp_all add: reply_def)

lemmas disciplined_frame_at_once = disciplined_frame [where ws' = "[]", simplified]

lemma disciplined_background:
  "disciplined sv [] (process_roleplay_assessment_within_deadline sv asr)"
  "disciplined sv [] (process_memory_within_deadline sv mr)"
  "disciplined sv [] (process_biography_within_deadline sv br)"
proof -
  note reserve = disciplined_reserve [where sv = sv and ws = "[]", simplified]
  note lawful = admitted_lawful(1)
  show "disciplined sv [] (process_roleplay_assessment_within_deadline sv asr)"
    unfolding process_roleplay_assessment_within_deadline_def
    by (auto split: sum.split intro!: reserve lawful disciplined_silence disciplined_settle
        disciplined_frame_at_once)
  show "disciplined sv [] (process_memory_within_deadline sv mr)"
    unfolding process_memory_within_deadline_def
    by (auto split: sum.split intro!: reserve lawful disciplined_silence disciplined_settle
        disciplined_frame_at_once)
  show "disciplined sv [] (process_biography_within_deadline sv br)"
    unfolding process_biography_within_deadline_def
    by (auto split: sum.split intro!: reserve lawful disciplined_silence disciplined_settle
        disciplined_frame_at_once)
qed

lemma disciplined_regeneration:
  assumes "conservative sv q i mx" "failure_owes sv res (GenerationInvalidOutput us) tail"
  shows "disciplined sv (admitted_trace sv [] q i kind mx priority now res @
      Generated (Inl (GenerationInvalidOutput us)) # tail)
    (reply (encode_social_response (sv_env sv) (regeneration_answer r) (sv_token sv)))"
proof -
  have l: "lawful sv (admitted_trace sv [] q i kind mx priority now res @
      Generated (Inl (GenerationInvalidOutput us)) # tail)"
    by (rule admitted_lawful(2) [OF assms(1)]) (simp add: after_generation_def assms(2))
  have "asks_again sv (admitted_trace sv [] q i kind mx priority now res @
      Generated (Inl (GenerationInvalidOutput us)) # tail) b"
    if "encode_social_response (sv_env sv) (regeneration_answer r) (sv_token sv) = Inr b" for b
    unfolding asks_again_def using assms that
    by (intro exI conjI) (auto simp: admitted_trace_def reservation_event_def)
  with l show ?thesis by (simp add: reply_def split: sum.split)
qed

lemma disciplined_social: "disciplined sv [] (process_social_within_deadline sv r)"
proof -
  note reserve = disciplined_reserve [where sv = sv and ws = "[]", simplified]
  have silent: "disciplined sv (settled_trace sv ws q i kind mx priority now res us cost t receipt) (Return None)"
    if "conservative sv q i mx" "known_cost sv us cost" "completed receipt"
    for ws q i kind mx priority now res us cost t receipt
    using settled_lawful(1) [OF that, of ws kind priority now res t "[]"] by simp
  have generated: "disciplined sv (admitted_trace sv [] q i kind mx priority now res @
      [Generated (map_sum id sg_usage g)]) (case g of
        Inl (GenerationInvalidOutput us) \<Rightarrow> account_for_failure sv res (GenerationInvalidOutput us)
          (reply (encode_social_response (sv_env sv) (regeneration_answer r) (sv_token sv)))
      | Inl e \<Rightarrow> account_for_failure sv res e (Return None)
      | Inr g \<Rightarrow> MonotonicNs (\<lambda>ended. settle_usage sv res (sg_usage g) (\<lambda>_ receipt.
          if breach receipt \<or> saturated receipt then Return None
          else (case stored_cost_nano receipt of None \<Rightarrow> Return None
            | Some stored \<Rightarrow> (case call_metadata (sv_metadata sv) ((ended - started) div 1000000)
                (sg_usage g) stored of
                  None \<Rightarrow> Return None
                | Some metadata \<Rightarrow> reply (encode_social_response (sv_env sv)
                    (proposal_answer r g metadata) (sv_token sv)))))))"
    if c: "conservative sv q i mx" for q i kind mx priority now res g started
  proof (cases g)
    case (Inl e)
    then show ?thesis
      by (cases e) (auto intro: disciplined_silence disciplined_failure disciplined_regeneration c)
  next
    case (Inr p)
    have "lawful sv (admitted_trace sv [] q i kind mx priority now res @ [Generated (Inr (sg_usage p))])"
      by (rule admitted_lawful(2) [OF c]) (simp add: after_generation_def)
    moreover have "disciplined sv (admitted_trace sv [] q i kind mx priority now res @
        [Generated (Inr (sg_usage p))]) (settle_usage sv res (sg_usage p) (\<lambda>_ receipt.
          if breach receipt \<or> saturated receipt then Return None
          else (case stored_cost_nano receipt of None \<Rightarrow> Return None
            | Some stored \<Rightarrow> (case call_metadata (sv_metadata sv) n (sg_usage p) stored of
                  None \<Rightarrow> Return None
                | Some metadata \<Rightarrow> reply (encode_social_response (sv_env sv)
                    (proposal_answer r p metadata) (sv_token sv))))))" for n
      by (rule disciplined_settle [OF c])
        (auto split: option.split intro: silent disciplined_frame_at_once c simp del: conforms.simps(1))
    ultimately show ?thesis using Inr by simp
  qed
  show ?thesis
    unfolding process_social_within_deadline_def
    by (auto split: sum.split intro!: reserve admitted_lawful(1) simp: generated)
qed

lemma disciplined_remember:
  assumes "conservative sv q i mx" "known_cost sv us cost" "completed receipt"
  shows "disciplined sv (settled_trace sv ws q i kind mx priority now res us cost t receipt)
    (remember_reply sv r text t' (reply frame))"
proof -
  note frame = disciplined_frame [OF assms, of ws kind priority now res t]
  note lawful = settled_lawful(1) [OF assms, of ws kind priority now res t]
  have "disciplined sv (settled_trace sv ws q i kind mx priority now res us cost t receipt) (reply frame)"
    using frame [of "[]" frame] by simp
  moreover have "disciplined sv (settled_trace sv ws q i kind mx priority now res us cost t receipt)
      (WriteState w (reply frame))" for w
    using lawful [of "[]"] frame [of "[w]" frame] by simp
  moreover have "disciplined sv (settled_trace sv ws q i kind mx priority now res us cost t receipt)
      (WriteState w (WriteState w' (reply frame)))" for w w'
    using lawful [of "[]"] lawful [of "[w]"] frame [of "[w, w']" frame] by simp
  moreover have "disciplined sv (settled_trace sv ws q i kind mx priority now res us cost t receipt) (Raise e)" for e
    using lawful [of "[]"] by simp
  ultimately show ?thesis
    by (auto simp: remember_reply_def simp del: conforms.simps split: option.split sum.split)
qed

lemma disciplined_chat: "disciplined sv [] (process_within_deadline sv r)"
proof -
  define body where "body now = WriteState (WriteProfile r now) (history_for r (\<lambda>history.
    CountTokens (CountChat r history) (\<lambda>counted. case counted of
      Inl _ \<Rightarrow> Return None
    | Inr input_tokens \<Rightarrow>
        reserve_maximum sv (if is_career r then ''career'' else ''chat'') input_tokens
          (request_kind_for r) (priority_for r) now (\<lambda>res.
        GenerateReply r history (\<lambda>generated. case generated of
          Inl e \<Rightarrow> account_for_failure sv res e (Return None)
        | Inr (text, us) \<Rightarrow> settle_usage sv res us (\<lambda>settled_on _.
            remember_reply sv r text settled_on
              (reply (encode_response (chat_request_id r) text (sv_token sv)))))))))" for now
  have "disciplined sv [] (body now)" for now
  proof -
    have l: "lawful sv [Wrote w]" for w using lawful_writes [of sv "[w]"] by simp
    have res: "disciplined sv [Wrote (WriteProfile r now), Counted (CountChat r history) (Inr i)]
        (reserve_maximum sv operation i kind priority now
        (\<lambda>res. GenerateReply r history (\<lambda>generated. case generated of
          Inl e \<Rightarrow> account_for_failure sv res e (Return None)
        | Inr (text, us) \<Rightarrow> settle_usage sv res us (\<lambda>settled_on _.
            remember_reply sv r text settled_on
              (reply (encode_response (chat_request_id r) text (sv_token sv)))))))"
      if "operation = (if is_career r then ''career'' else ''chat'')"
      for operation i kind priority history
      by (rule disciplined_reserve [where sv = sv and ws = "[WriteProfile r now]", simplified])
        (use that in simp, auto split: sum.split intro!: admitted_lawful(1) disciplined_silence disciplined_settle
          disciplined_remember)
    show ?thesis
      unfolding body_def history_for_def by (auto simp: l split: sum.split intro!: res)
  qed
  then show ?thesis
    unfolding process_within_deadline_def body_def [symmetric] Let_def by simp
qed

lemma disciplined_gates:
  "(\<And>r. disciplined sv [] (k r)) \<Longrightarrow> disciplined sv [] (parsed_request outcome k)"
  "disciplined sv [] p \<Longrightarrow> disciplined sv [] (when_allowed sv (\<lambda>_. p))"
  by (auto simp: parsed_request_def when_allowed_def split: sum.split)

lemma disciplined_payload: "disciplined sv [] (process_payload sv payload)"
proof -
  have "disciplined sv [] (process_chat_payload sv payload)"
    unfolding process_chat_payload_def
    by (rule disciplined_gates)+ (simp add: disciplined_chat)
  moreover have "disciplined sv [] (process_social_payload sv payload)"
    "disciplined sv [] (process_biography_payload sv payload)"
    "disciplined sv [] (process_memory_payload sv payload)"
    "disciplined sv [] (process_roleplay_assessment_payload sv payload)"
    unfolding process_social_payload_def process_biography_payload_def process_memory_payload_def
      process_roleplay_assessment_payload_def
    by (rule disciplined_gates disciplined_social disciplined_background)+
  ultimately show ?thesis by (simp add: process_payload_def split: sum.split option.split)
qed

text \<open>
  C1. Nothing is said that was not paid for: whatever the payload, the answers of
  the clock and the provider, the failures, the deadline and the other processes, when a request is
  answered then its prompt was counted once and exactly one reservation was made for it, of the largest
  cost of that count and of the longest output of its operation, and admitted; the provider was called once; and either the call's exact cost was settled on that very reservation, and the
  settlement completed, before the answer, or the answer asks for one more attempt at a social line that
  was refused, with the failed attempt accounted for.
\<close>

theorem replies_are_paid_for:
  assumes "runs ops (db, process_payload sv payload) es (db', Return (Some b))"
  shows "paid sv es \<or> asks_again sv es b"
  using conforms_runs [OF assms disciplined_payload] by simp

text \<open>
  C2. At every moment of a request, however it goes on: at most one reservation has
  been made, of the largest cost of the prompt as it was counted; the provider has been called at most once, and only under an
  admitted reservation; what follows a failed call is a release when nothing can have been billed, a
  settlement at the reported cost when that is known, and nothing otherwise; and nothing is remembered of a
  reply whose settlement was not completed.
\<close>

theorem money_moves_lawfully:
  assumes "runs ops (db, process_payload sv payload) es (db', p)"
  shows "lawful sv es"
  using conforms_now [OF conforms_runs [OF assms disciplined_payload]] .

end
