(* ===== verification/Service_Promises.thy ===== *)
theory Service_Promises
  imports Service_Runs Bridge
begin

text \<open>
  More of what the request path promises: nothing happens before the gates have let a request through,
  and every request ends.
\<close>

section \<open>The gates\<close>

text \<open>The token an accepted request was sent with is the member of its payload.\<close>

lemma text_field_member: "text_field P k ms = Some s \<Longrightarrow> map_of ms k = Some (JStr s)"
  by (simp add: text_field_Some)

lemma request_token_members:
  "chat_request_of env ms = Inr r1 \<Longrightarrow> map_of ms (u ''token'') = Some (JStr (chat_token r1))"
  "social_request_of env ms = Some r2 \<Longrightarrow> map_of ms (u ''token'') = Some (JStr (soc_token r2))"
  "assessment_request_of env ms = Some r3 \<Longrightarrow> map_of ms (u ''token'') = Some (JStr (asm_token r3))"
  "biography_request_of env ms = Some r4 \<Longrightarrow> map_of ms (u ''token'') = Some (JStr (bio_token r4))"
  "memory_request_of env ms = Some r5 \<Longrightarrow> map_of ms (u ''token'') = Some (JStr (mreq_token r5))"
proof -
  show "map_of ms (u ''token'') = Some (JStr (chat_token r1))" if "chat_request_of env ms = Inr r1"
    using chat_request_fields [OF that] unfolding chat_fields_of_def
    by (auto simp: bind_eq_Some_conv dest!: text_field_member)
  show "map_of ms (u ''token'') = Some (JStr (soc_token r2))" if "social_request_of env ms = Some r2"
    using social_request_of_Some(1) [OF that] unfolding social_fields_of_def
    by (auto simp: bind_eq_Some_conv dest!: text_field_member)
  show "map_of ms (u ''token'') = Some (JStr (asm_token r3))" if "assessment_request_of env ms = Some r3"
    using that unfolding assessment_request_of_def
    by (auto simp: bind_eq_Some_conv dest!: text_field_member)
  show "map_of ms (u ''token'') = Some (JStr (bio_token r4))" if "biography_request_of env ms = Some r4"
    using that unfolding biography_request_of_def
    by (auto simp: bind_eq_Some_conv dest!: text_field_member)
  show "map_of ms (u ''token'') = Some (JStr (mreq_token r5))" if "memory_request_of env ms = Some r5"
    using that unfolding memory_request_of_def
    by (auto simp: bind_eq_Some_conv dest!: text_field_member)
qed

definition carries_token :: "service \<Rightarrow> bytes \<Rightarrow> bool" where
  "carries_token sv payload \<longleftrightarrow> (\<exists>ms. load_object (sv_env sv) payload = Inr ms \<and>
     map_of ms (u ''token'') = Some (JStr (sv_token sv)))"

lemma parsed_carries_token:
  "parse_request (sv_env sv) p (sv_token sv) = Inr r1 \<Longrightarrow> carries_token sv p"
  "parse_social_request (sv_env sv) p (sv_token sv) = Inr r2 \<Longrightarrow> carries_token sv p"
  "parse_roleplay_assessment_request (sv_env sv) p (sv_token sv) = Inr r3 \<Longrightarrow> carries_token sv p"
  "parse_biography_request (sv_env sv) p (sv_token sv) = Inr r4 \<Longrightarrow> carries_token sv p"
  "parse_memory_request (sv_env sv) p (sv_token sv) = Inr r5 \<Longrightarrow> carries_token sv p"
  by (auto simp: parse_request_def parse_social_request_def parse_roleplay_assessment_request_def
      parse_biography_request_def parse_memory_request_def and_then_Inr_iff parsed_Inr carries_token_def
      dest!: check_token_Inr dest: request_token_members)

lemma gates:
  assumes "\<not> finished (process_payload sv payload)"
  shows "carries_token sv payload" "generation_allowed (sv_config sv) = Inr True"
proof -
  have parse: "\<not> finished (parsed_request outcome k) \<Longrightarrow> \<exists>r. outcome = Inr r \<and> \<not> finished (k r)"
    for outcome :: "protocol_error + 'r" and k
    by (cases outcome) (simp_all add: parsed_request_def)
  have allowed: "\<not> finished (when_allowed sv k) \<Longrightarrow> generation_allowed (sv_config sv) = Inr True" for k
    by (auto simp: when_allowed_def split: sum.splits if_splits)
  obtain kind where kind: "declared_kind (sv_env sv) payload = Inr kind"
    using assms by (auto simp: process_payload_def split: sum.splits)
  consider "\<not> finished (process_chat_payload sv payload)" | "\<not> finished (process_social_payload sv payload)"
    | "\<not> finished (process_biography_payload sv payload)" | "\<not> finished (process_memory_payload sv payload)"
    | "\<not> finished (process_roleplay_assessment_payload sv payload)"
    using assms kind by (auto simp: process_payload_def split: option.splits if_splits)
  then have "carries_token sv payload \<and> generation_allowed (sv_config sv) = Inr True"
    by cases (auto simp: process_chat_payload_def process_social_payload_def
        process_biography_payload_def process_memory_payload_def
        process_roleplay_assessment_payload_def dest!: parse dest: allowed intro: parsed_carries_token)
  then show "carries_token sv payload" "generation_allowed (sv_config sv) = Inr True" by blast+
qed

text \<open>Nothing leads on from a program that has finished.\<close>

lemma finished_steps: "finished p \<Longrightarrow> \<not> step ops (db, p) es s"
  by (cases p) (auto elim!: step.cases heard.cases)

lemma finished_runs: "runs ops (db, p) es (db', p') \<Longrightarrow> finished p \<Longrightarrow> es = [] \<and> p' = p"
  by (induction "(db, p)" es "(db', p')" arbitrary: db' p' rule: runs.induct)
    (auto dest: finished_steps)

text \<open>
  C3. Before a request has shown the bridge token and the budget
  allows a call, nothing happens: a run of a payload that leaves any trace, or is waiting for anything, is
  one whose payload is an object with exactly this service's token, under a configuration with a positive
  ceiling and positive prices. Otherwise the outcome is silence or an exception, at once.
\<close>

theorem nothing_happens_before_the_gates:
  assumes "runs ops (db, process_payload sv payload) es (db', p)"
    and "es \<noteq> [] \<or> \<not> finished p \<or> (\<exists>b. p = Return (Some b))"
  shows "carries_token sv payload \<and> generation_allowed (sv_config sv) = Inr True"
proof (cases "finished (process_payload sv payload)")
  case True
  from finished_runs [OF assms(1) True] have e: "es = []" "p = process_payload sv payload" by auto
  have "\<not> paid sv []" "\<not> asks_again sv [] b" for b by (auto simp: paid_def asks_again_def)
  then have "p \<noteq> Return (Some b)" for b
    using disciplined_payload [of sv payload] unfolding e(2) [symmetric] by (cases p) auto
  with assms(2) e True show ?thesis by auto
qed (use gates in blast)

section \<open>Every request ends\<close>

primrec ends_within :: "nat \<Rightarrow> prog \<Rightarrow> bool" where
  "ends_within n (Return v) \<longleftrightarrow> True"
| "ends_within n (Raise e) \<longleftrightarrow> True"
| "ends_within n (Now k) \<longleftrightarrow> 0 < n \<and> (\<forall>t. ends_within (n - 1) (k t))"
| "ends_within n (MonotonicNs k) \<longleftrightarrow> 0 < n \<and> (\<forall>t. ends_within (n - 1) (k t))"
| "ends_within n (CountTokens q k) \<longleftrightarrow> 0 < n \<and> (\<forall>c. ends_within (n - 1) (k c))"
| "ends_within n (GenerateReply r h k) \<longleftrightarrow> 0 < n \<and> (\<forall>g. ends_within (n - 1) (k g))"
| "ends_within n (GenerateSocial r k) \<longleftrightarrow> 0 < n \<and> (\<forall>g. ends_within (n - 1) (k g))"
| "ends_within n (AssessRoleplay r k) \<longleftrightarrow> 0 < n \<and> (\<forall>g. ends_within (n - 1) (k g))"
| "ends_within n (GenerateBiography r k) \<longleftrightarrow> 0 < n \<and> (\<forall>g. ends_within (n - 1) (k g))"
| "ends_within n (GenerateMemories r k) \<longleftrightarrow> 0 < n \<and> (\<forall>g. ends_within (n - 1) (k g))"
| "ends_within n (TryAmbient m t k) \<longleftrightarrow> 0 < n \<and> (\<forall>b. ends_within (n - 1) (k b))"
| "ends_within n (WriteState w p) \<longleftrightarrow> 0 < n \<and> ends_within (n - 1) p"
| "ends_within n (RecentTurns g k) \<longleftrightarrow> 0 < n \<and> (\<forall>h. ends_within (n - 1) (k h))"
| "ends_within n (Reserve a b c d t k) \<longleftrightarrow> 0 < n \<and> (\<forall>d. ends_within (n - 1) (k d))"
| "ends_within n (Settle r c t k) \<longleftrightarrow> 0 < n \<and> (\<forall>x. ends_within (n - 1) (k x))"
| "ends_within n (Release r k) \<longleftrightarrow> 0 < n \<and> (\<forall>b. ends_within (n - 1) (k b))"

lemma ends_within_heard:
  "heard ops (db, p) es (db', p') \<Longrightarrow> ends_within n p \<Longrightarrow> 0 < n \<and> ends_within (n - 1) p'"
  by (cases rule: heard.cases) auto

lemma unfinished_needs_steps: "ends_within n p \<Longrightarrow> \<not> finished p \<Longrightarrow> 0 < n"
  by (cases p) auto

lemma ends_within_step:
  assumes "step ops (db, p) es (db', p')" "ends_within n p"
  shows "0 < n \<and> ends_within (n - 1) p'"
  using assms(1)
proof cases
  case resumed
  from ends_within_heard [OF this assms(2)] show ?thesis .
next
  case (unheard p1)
  from ends_within_heard [OF unheard(2) assms(2)] unheard(1) show ?thesis by simp
next
  case (lost p1)
  from ends_within_heard [OF lost(2) assms(2)] lost(1) show ?thesis by simp
qed (use assms(2) unfinished_needs_steps in auto)

text \<open>The steps of one request, whatever the others do to the database in between.\<close>

inductive moves :: "'db sidecar_state \<Rightarrow> nat \<Rightarrow> 'db \<times> prog \<Rightarrow> 'db \<times> prog \<Rightarrow> bool" for ops where
  none: "moves ops 0 s s"
| one: "moves ops n s (db, p) \<Longrightarrow> step ops (db, p) es s' \<Longrightarrow> moves ops (Suc n) s s'"
| others: "moves ops n s (db, p) \<Longrightarrow> moves ops n s (db', p)"

lemma moves_within:
  assumes "moves ops n (db, p) (db', p')" "ends_within m p"
  shows "n \<le> m \<and> ends_within (m - n) p'"
  using assms
proof (induction n "(db, p)" "(db', p')" arbitrary: db' p' rule: moves.induct)
  case (one n db1 p1 es)
  from ends_within_step [OF one(3), of "m - n"] one(2) one.prems show ?case by auto
qed auto

text \<open>How long the shared steps and the handlers take at most.\<close>

lemma ends_reserve:
  "0 < n \<Longrightarrow> \<forall>res. ends_within (n - 1) (k res) \<Longrightarrow>
   ends_within n (reserve_maximum sv operation m kind priority now k)"
  by (auto simp: reserve_maximum_def Let_def split: option.split sum.split prod.split)

lemma ends_settle:
  "1 < n \<Longrightarrow> \<forall>t receipt. ends_within (n - 2) (k t receipt) \<Longrightarrow> ends_within n (settle_usage sv res us k)"
  by (auto simp: settle_usage_def numeral_2_eq_2 split: option.split sum.split)

lemma ends_finished: "finished p \<Longrightarrow> ends_within n p"
  by (cases p) auto

lemma ends_account: "1 < n \<Longrightarrow> finished k \<Longrightarrow> ends_within n (account_for_failure sv res e k)"
  by (auto simp: account_for_failure_def ends_finished split: option.split sum.split)

lemma finished_reply [simp]: "finished (reply frame)"
  by (simp add: reply_def split: sum.split)

lemma ends_remember: "1 < n \<Longrightarrow> ends_within n (remember_reply sv r text t (reply frame))"
  by (auto simp: remember_reply_def ends_finished split: option.split sum.split)

lemmas ends_facts = ends_reserve ends_settle ends_account ends_remember ends_finished

lemma ends_background:
  "ends_within 10 (process_roleplay_assessment_within_deadline sv r1)"
  "ends_within 10 (process_memory_within_deadline sv r2)"
  "ends_within 10 (process_biography_within_deadline sv r3)"
  by (simp_all add: process_roleplay_assessment_within_deadline_def process_memory_within_deadline_def
      process_biography_within_deadline_def ends_facts split: sum.split prod.split)

lemma ends_social: "ends_within 10 (process_social_within_deadline sv r)"
  by (simp add: process_social_within_deadline_def ends_facts
      split: sum.split generation_error.split option.split)

lemma ends_chat: "ends_within 10 (process_within_deadline sv r)"
  by (simp add: process_within_deadline_def Let_def history_for_def ends_facts split: sum.split prod.split)

lemma ends_payload: "ends_within 10 (process_payload sv payload)"
proof -
  have parsed: "(\<And>r. ends_within 10 (k r)) \<Longrightarrow> ends_within 10 (parsed_request outcome k)"
    for outcome :: "protocol_error + 'r" and k
    by (simp add: parsed_request_def split: sum.split)
  have allowed: "ends_within 10 p \<Longrightarrow> ends_within 10 (when_allowed sv (\<lambda>_. p))" for p
    by (simp add: when_allowed_def split: sum.split)
  have "ends_within 10 (process_chat_payload sv payload)"
    unfolding process_chat_payload_def by (auto intro!: parsed allowed ends_chat)
  moreover have "ends_within 10 (process_social_payload sv payload)"
    "ends_within 10 (process_biography_payload sv payload)"
    "ends_within 10 (process_memory_payload sv payload)"
    "ends_within 10 (process_roleplay_assessment_payload sv payload)"
    unfolding process_social_payload_def process_biography_payload_def process_memory_payload_def
      process_roleplay_assessment_payload_def
    by (intro parsed allowed ends_social ends_background)+
  ultimately show ?thesis by (simp add: process_payload_def split: sum.split option.split)
qed

lemma step_iff_unfinished: "(\<exists>es s. step ops (db, p) es s) \<longleftrightarrow> \<not> finished p"
  using finished_steps cut by metis

text \<open>
  C4. Every request ends: whatever the payload, the answers, the failures and the
  other processes, its handler asks at most ten questions; as long as it has not finished it can go on,
  and when it has asked ten it has finished, with a reply, with silence or with an exception.
\<close>

theorem every_request_ends:
  assumes "moves ops n (db, process_payload sv payload) (db', p)"
  shows "n \<le> 10 \<and> (n = 10 \<longrightarrow> finished p) \<and> (finished p \<longleftrightarrow> \<not> (\<exists>es s. step ops (db', p) es s))"
proof -
  have m: "n \<le> 10" "ends_within (10 - n) p" using moves_within [OF assms ends_payload] by auto
  then have "finished p" if "n = 10" using unfinished_needs_steps [of 0 p] that by fastforce
  with m(1) step_iff_unfinished [of ops db' p] show ?thesis by blast
qed

end
