(* ===== verification/Service_Example.thy ===== *)
theory Service_Example
  imports Service_Promises
begin

text \<open>
  One service of a dollar price list over an empty database, and one request it answers: the roleplay
  assessment of a line of chat, counted, reserved, generated, settled and encoded. The run gives the
  promises of the request path their concrete instance.
\<close>

section \<open>The service\<close>

definition example_config :: sidecar_config where
  "example_config = \<lparr>cfg_enable = True, cfg_bridge_port = 8765, cfg_ambient_enable = False,
     cfg_ambient_per_hour = 6, cfg_daily_budget = ''5'', cfg_reserve_ratio = ''0.25'',
     cfg_input_price = ''1.00'', cfg_output_price = ''5.00'', cfg_deadline_ms = 10000,
     cfg_log_model_io = False, cfg_queue_size = 16, cfg_group_cooldown = 120\<rparr>"

definition example_service :: service where
  "example_service = \<lparr>sv_config = example_config, sv_token = example_token,
     sv_metadata = \<lparr>pm_name = u ''provider'', pm_model = u ''m'', pm_max_input_tokens = 4095,
       pm_output_limits = [(''roleplay_assessment'', 96)]\<rparr>,
     sv_env = example_env, sv_has_store = True, sv_career_reply = (\<lambda>_. None)\<rparr>"

lemma example_parts [simp]:
  "sv_config example_service = example_config" "sv_token example_service = example_token"
  "sv_env example_service = example_env" "sv_has_store example_service"
  "pm_model (sv_metadata example_service) = u ''m''"
  "pm_max_input_tokens (sv_metadata example_service) = 4095"
  "max_output_tokens (sv_metadata example_service) ''roleplay_assessment'' = Some 96"
  by (simp_all add: example_service_def max_output_tokens_def)

lemma example_decimals:
  "dec_parse ''5'' = Some (Finite (Fdec 5 0))"
  "dec_parse ''1.00'' = Some (Finite (Fdec 100 (- 2)))"
  "dec_parse ''5.00'' = Some (Finite (Fdec 500 (- 2)))"
  by code_simp+

lemma example_amounts:
  "validate_daily_ceiling (MText ''5'') = Inr 5000000000"
  "validate_reserve_ratio (MText ''0.25'') = Inr (Fdec 25 (- 2))"
  "positive_price ''1.00''" "positive_price ''5.00''"
proof -
  have "amount_to_nano (MText ''5'') = Inr 5000000000"
    by (rule amount_to_nano_exact [where d = "Fdec 5 0"]) (simp_all add: example_decimals fval_def)
  then show "validate_daily_ceiling (MText ''5'') = Inr 5000000000"
    by (simp add: validate_daily_ceiling_def max_storable_nano_def)
  show "validate_reserve_ratio (MText ''0.25'') = Inr (Fdec 25 (- 2))" by code_simp
  show "positive_price ''1.00''" "positive_price ''5.00''"
    by (simp_all add: positive_price_def example_decimals)
qed

lemma example_allowed: "generation_allowed example_config = Inr True"
  by (simp add: generation_allowed_def budget_nano_def example_config_def example_amounts)

lemma example_book_of: "book_of example_config = Some example_book"
  by (simp add: book_of_def budget_nano_def config_reserve_ratio_def example_config_def example_amounts
      example_book_def)

lemma example_cost:
  assumes "0 \<le> it" "it < 10 ^ 9" "0 \<le> ot" "ot < 10 ^ 9"
  shows "token_cost_nano it ot (Some (MText ''1.00'')) (Some (MText ''5.00'')) =
    Inr (Some (it * 1000 + ot * 5000))"
proof -
  have "token_cost_nano it ot (Some (MText ''1.00'')) (Some (MText ''5.00'')) =
      Inr (Some \<lceil>(fval (Fdec 100 (- 2)) * of_int it + fval (Fdec 500 (- 2)) * of_int ot) * 1000\<rceil>)"
    using assms by (intro token_cost_plain) (simp_all add: example_decimals plain_price_def)
  moreover have "(fval (Fdec 100 (- 2)) * of_int it + fval (Fdec 500 (- 2)) * of_int ot) * 1000 =
      (of_int (it * 1000 + ot * 5000) :: rat)"
    by (simp add: fval_neg_expo)
  ultimately show ?thesis by (simp only: ceiling_of_int)
qed

lemma example_prices: "price_texts example_config = (Some (MText ''1.00''), Some (MText ''5.00''))"
  by (simp add: price_texts_def example_config_def)

lemma example_reserves:
  "reserve_maximum example_service ''roleplay_assessment'' 4095 kind priority now k =
     Reserve kind (u ''m'') (Some 4575000) priority now (\<lambda>(decision, res). case res of
       None \<Rightarrow> Return None | Some r \<Rightarrow> if decision = Admitted then k r else Return None)"
  using example_cost [of 4095 96]
  by (simp add: reserve_maximum_def example_prices conservative_max_cost_nano_def)

definition example_usage :: generation_usage where
  "example_usage = \<lparr>us_input_tokens = 2800, us_output_tokens = 20, us_cache_creation_tokens = 0,
     us_cache_read_tokens = 0\<rparr>"

lemma example_settles:
  "settle_usage example_service res example_usage k =
     Now (\<lambda>t. Settle res 2900000 t (\<lambda>receipt. if completed receipt then k t receipt else Return None))"
  using example_cost [of 2800 20]
  by (simp add: settle_usage_def example_prices actual_cost_nano_def is_priceable_def
      example_usage_def)

section \<open>The request and its handler\<close>

definition example_request_payload :: "bytes \<Rightarrow> assessment_request \<Rightarrow> bool" where
  "example_request_payload b r \<longleftrightarrow>
     parse_roleplay_assessment_request example_env b example_token = Inr r \<and>
     declared_kind example_env b = Inr (Some (u ''roleplay_assessment'')) \<and> asm_request_token r = 4"

lemma example_payload: "\<exists>b r. example_request_payload b r"
proof -
  let ?ms = "map (\<lambda>(k, v). (k, json_of v)) example_assessment"
  obtain b where b: "load_object example_env b = Inr ?ms" using example_assessment_object by blast
  obtain r where r: "assessment_request_of example_env ?ms = Some r" "asm_token r = example_token"
    using example_assessment_request by blast
  have "asm_request_token r = 4"
    using r(1) by (auto simp: assessment_request_of_def example_assessment_def field_eval key_eval
        wire_bounds split: if_splits)
  moreover have "utf8_encode example_token \<noteq> None"
    using example_token_valid by (simp add: valid_token_def bytes_within_def utf8_encode_def)
  then have "check_token example_token example_token r = Inr r"
    by (auto simp: check_token_def)
  then have "parse_roleplay_assessment_request example_env b example_token = Inr r"
    using b r by (simp add: parse_roleplay_assessment_request_def parsed_def)
  moreover have "declared_kind example_env b = Inr (Some (u ''roleplay_assessment''))"
    using b by (simp add: declared_kind_def example_assessment_def key_eval)
  ultimately show ?thesis unfolding example_request_payload_def by blast
qed

definition example_assessed :: assessment_completion where
  "example_assessed = \<lparr>asc_kind = AssessOrdinary, asc_capabilities = []\<rparr>"

lemma example_encoded:
  "\<exists>b. encode_roleplay_assessment_response 4 example_assessed example_token = Inr b"
proof -
  have "\<exists>b. json_bytes (assessment_payload 4 example_assessed example_token) = Inr b"
    by (rule json_bytes_scalar) (simp add: assessment_payload_def example_assessed_def example_token_def
        key_eval spelling_of_def assessment_kinds_def indexed_def is_scalar_def is_surrogate_def)
  then show ?thesis
    using example_token_valid by (auto simp: encode_assessment_Inr uint64_max_def)
qed

definition example_after :: "assessment_request \<Rightarrow> reservation \<Rightarrow> assessment_completion generated \<Rightarrow> prog" where
  "example_after r res = (\<lambda>generated. case generated of
     Inl e \<Rightarrow> account_for_failure example_service res e (Return None)
   | Inr (completion, us) \<Rightarrow> settle_usage example_service res us (\<lambda>_ _.
       reply (encode_roleplay_assessment_response (asm_request_token r) completion example_token)))"

lemma example_handler:
  assumes "example_request_payload b r"
  shows "process_payload example_service b =
    Now (\<lambda>now. CountTokens (CountAssessment r) (\<lambda>counted. case counted of
      Inl _ \<Rightarrow> Return None
    | Inr input_tokens \<Rightarrow> reserve_maximum example_service ''roleplay_assessment'' input_tokens
        ModerationClassification ImmediateHuman now (\<lambda>res. AssessRoleplay r (example_after r res))))"
proof -
  have "process_payload example_service b = process_roleplay_assessment_within_deadline example_service r"
    using assms example_allowed
    by (simp add: process_payload_def example_request_payload_def process_roleplay_assessment_payload_def
        parsed_request_def when_allowed_def key_eval)
  then show ?thesis
    unfolding process_roleplay_assessment_within_deadline_def example_after_def example_parts by simp
qed

section \<open>The run\<close>

lemma example_settled:
  "\<exists>receipt db. settle example_handle 2900000 example_now example_db = Inr (receipt, db) \<and>
     completed receipt \<and> \<not> is_circuit_open db"
proof -
  have wf: "ledger_wf example_db" "within_limit 5000000000 example_db"
    using example_inv by (simp_all add: ledger_inv_def)
  have "quantize_storable_nano 2900000 = 2900000" "spent_of 0 example_db = 0"
    by (simp_all add: quantize_storable_nano_def storage_scale_nano_def ceil_div_def spent_of_def
        example_day_row)
  then have cost: "storable_actual_cost_nano 2900000 = 2900000" "\<not> circuit_should_open 4575000 2900000"
    "added_nano 2900000 (spent_of 0 example_db * storage_scale_nano) = 2900000"
    by (simp_all add: storable_actual_cost_nano_def circuit_should_open_def added_nano_def
        max_storable_nano_def)
  have "settle example_handle 2900000 example_now example_db = Inr (\<lparr>completed = True,
      stored_cost_nano = Some 2900000, breach = False, saturated = False\<rparr>,
      settled_db example_handle 2900000 2900000 example_now example_db)"
    using settle_eq [OF wf _ example_row_facts(1,2) [OF refl], of 2900000 example_now]
    by (simp add: example_row_facts [OF refl] cost max_storable_nano_def)
  moreover have "\<not> is_circuit_open (settled_db example_handle 2900000 2900000 example_now example_db)"
    using example_closed by (simp add: settled_db_def)
  ultimately show ?thesis by simp
qed

text \<open>A run in which nobody else touches the database.\<close>

inductive alone :: "'db sidecar_state \<Rightarrow> 'db \<times> prog \<Rightarrow> event list \<Rightarrow> 'db \<times> prog \<Rightarrow> bool" for ops where
  here: "alone ops s [] s"
| further: "alone ops s es (db, p) \<Longrightarrow> step ops (db, p) es' (db', p') \<Longrightarrow> alone ops s (es @ es') (db', p')"

lemma alone_runs: "alone ops s es s' \<Longrightarrow> runs ops s es s'"
  by (induction rule: alone.induct) (auto intro: start continue)

lemma run_on: "alone ops s es (db, p) \<Longrightarrow> heard ops (db, p) es' (db', p') \<Longrightarrow> alone ops s (es @ es') (db', p')"
  by (blast intro: further resumed)

text \<open>
  The request is answered: counted at the input limit, reserved at the largest cost, assessed, settled on
  what it reported, and encoded.
\<close>

definition example_trace :: "assessment_request \<Rightarrow> settlement_receipt \<Rightarrow> event list" where
  "example_trace r receipt = [Counted (CountAssessment r) (Inr 4095), Reserved ModerationClassification (u ''m'') (Some 4575000) ImmediateHuman
     example_now (Admitted, Some example_handle), Generated (Inr example_usage),
     Settled example_handle 2900000 example_now receipt]"

lemma example_alone:
  "\<exists>b r db answer receipt. alone (mysql_sidecar_state example_book)
     (empty_database, process_payload example_service b) (example_trace r receipt) (db, Return (Some answer)) \<and>
     \<not> is_circuit_open db"
proof -
  let ?ops = "mysql_sidecar_state example_book"
  obtain b r where br: "example_request_payload b r" using example_payload by blast
  obtain receipt db where s: "settle example_handle 2900000 example_now example_db = Inr (receipt, db)"
    "completed receipt" "\<not> is_circuit_open db" using example_settled by blast
  obtain answer where a: "encode_roleplay_assessment_response 4 example_assessed example_token = Inr answer"
    using example_encoded by blast
  note start = alone.here [of ?ops "(empty_database, process_payload example_service b)"]
  note asked = run_on [OF start, unfolded example_handler [OF br], OF heard.now [where t = example_now]]
  note counted = run_on [OF asked heard.counted [where answer = "Inr 4095"]]
  have "op_reserve ?ops ModerationClassification (u ''m'') (Some 4575000) ImmediateHuman example_now
      example_entropy empty_database = Inr ((Admitted, Some example_handle), example_db)"
    using example_reserve by (simp add: mysql_sidecar_state_def)
  note reserved = run_on [OF counted, simplified, unfolded example_reserves, OF heard.reserved [OF this]]
  note assessed = run_on [OF reserved, simplified,
      OF heard.assessed [where assessment = "Inr (example_assessed, example_usage)"]]
  let ?answered = "reply (encode_roleplay_assessment_response (asm_request_token r) example_assessed example_token)"
  let ?settle = "\<lambda>t. Settle example_handle 2900000 t (\<lambda>receipt. if completed receipt then ?answered else Return None)"
  have "heard ?ops (example_db, example_after r example_handle (Inr (example_assessed, example_usage))) []
      (example_db, ?settle example_now)"
    using heard.now [of ?ops example_db ?settle example_now] by (simp add: example_after_def example_settles)
  note timed = run_on [OF assessed this]
  have "op_settle ?ops example_handle 2900000 example_now example_db = Inr (receipt, db)"
    using s(1) by (simp add: mysql_sidecar_state_def)
  note settled = run_on [OF timed heard.settled [OF this]]
  have "?answered = Return (Some answer)"
    using br a by (simp add: example_request_payload_def reply_def)
  with settled s(2) have "alone ?ops (empty_database, process_payload example_service b)
      (example_trace r receipt) (db, Return (Some answer))"
    unfolding example_handler [OF br] by (simp add: example_trace_def usage_of_def)
  with s(3) show ?thesis by blast
qed

lemma example_runs:
  "\<exists>b r db answer receipt. runs (mysql_sidecar_state example_book)
     (empty_database, process_payload example_service b) (example_trace r receipt) (db, Return (Some answer))"
  using example_alone alone_runs by blast

theorem replies_are_paid_for_witness:
  "\<exists>b r db answer receipt. runs (mysql_sidecar_state example_book)
     (empty_database, process_payload example_service b) (example_trace r receipt) (db, Return (Some answer)) \<and>
   (paid example_service (example_trace r receipt) \<or> asks_again example_service (example_trace r receipt) answer)"
proof -
  obtain b r db answer receipt where run: "runs (mysql_sidecar_state example_book)
      (empty_database, process_payload example_service b) (example_trace r receipt) (db, Return (Some answer))"
    using example_runs by blast
  from run replies_are_paid_for [OF run] show ?thesis by blast
qed

theorem money_moves_lawfully_witness:
  "\<exists>b r db answer receipt. runs (mysql_sidecar_state example_book)
     (empty_database, process_payload example_service b) (example_trace r receipt) (db, Return (Some answer)) \<and>
   lawful example_service (example_trace r receipt)"
proof -
  obtain b r db answer receipt where run: "runs (mysql_sidecar_state example_book)
      (empty_database, process_payload example_service b) (example_trace r receipt) (db, Return (Some answer))"
    using example_runs by blast
  from run money_moves_lawfully [OF run] show ?thesis by blast
qed

theorem nothing_happens_before_the_gates_witness:
  "\<exists>b. carries_token example_service b \<and> generation_allowed (sv_config example_service) = Inr True"
proof -
  obtain b r db answer receipt where run: "runs (mysql_sidecar_state example_book)
      (empty_database, process_payload example_service b) (example_trace r receipt) (db, Return (Some answer))"
    using example_runs by blast
  from nothing_happens_before_the_gates [OF run] show ?thesis by blast
qed

text \<open>A request that is cut off at its first question has moved once and has finished.\<close>

theorem every_request_ends_witness:
  "\<exists>b p. moves (mysql_sidecar_state example_book) 1 (empty_database, process_payload example_service b)
      (empty_database, p) \<and> \<not> (\<exists>es s. step (mysql_sidecar_state example_book) (empty_database, p) es s)"
proof -
  let ?ops = "mysql_sidecar_state example_book"
  obtain b r where "example_request_payload b r" using example_payload by blast
  then have "\<not> finished (process_payload example_service b)" by (simp add: example_handler)
  then have "step ?ops (empty_database, process_payload example_service b) [] (empty_database, Return None)"
    by (rule cut)
  then have m: "moves ?ops 1 (empty_database, process_payload example_service b)
      (empty_database, Return None)"
    using moves.one [OF moves.none] by simp
  from every_request_ends [OF m] have "\<not> (\<exists>es s. step ?ops (empty_database, Return None) es s)" by simp
  with m show ?thesis by blast
qed

end
