(* ===== verification/Deployment.thy ===== *)
theory Deployment
  imports Service_Example
begin

text \<open>
  Any number of services over one database: requests arrive at any of them, their handlers take their
  steps in any order, and the purge runs in between. The handlers keep the contract of the durable
  state, so that what the ledger promises of its transactions holds of the whole deployment.
\<close>

section \<open>What a handler may ask of the state\<close>

text \<open>
  A handler reserves only when its ledger is usable, and settles or releases only what has been handed
  out: \<open>hs\<close> are the reservations it may name.
\<close>

primrec holds :: "bool \<Rightarrow> reservation set \<Rightarrow> prog \<Rightarrow> bool" where
  "holds usable hs (Return v) \<longleftrightarrow> True"
| "holds usable hs (Raise e) \<longleftrightarrow> True"
| "holds usable hs (Now k) \<longleftrightarrow> (\<forall>t. holds usable hs (k t))"
| "holds usable hs (MonotonicNs k) \<longleftrightarrow> (\<forall>n. holds usable hs (k n))"
| "holds usable hs (CountTokens q k) \<longleftrightarrow> (\<forall>answer. holds usable hs (k answer))"
| "holds usable hs (GenerateReply r h k) \<longleftrightarrow> (\<forall>g. holds usable hs (k g))"
| "holds usable hs (GenerateSocial r k) \<longleftrightarrow> (\<forall>g. holds usable hs (k g))"
| "holds usable hs (AssessRoleplay r k) \<longleftrightarrow> (\<forall>g. holds usable hs (k g))"
| "holds usable hs (GenerateBiography r k) \<longleftrightarrow> (\<forall>g. holds usable hs (k g))"
| "holds usable hs (GenerateMemories r k) \<longleftrightarrow> (\<forall>g. holds usable hs (k g))"
| "holds usable hs (TryAmbient n t k) \<longleftrightarrow> (\<forall>b. holds usable hs (k b))"
| "holds usable hs (WriteState w p) \<longleftrightarrow> holds usable hs p"
| "holds usable hs (RecentTurns g k) \<longleftrightarrow> (\<forall>h. holds usable hs (k h))"
| "holds usable hs (Reserve kind model mx priority t k) \<longleftrightarrow> usable \<and>
     (\<forall>d res. holds usable (hs \<union> set_option res) (k (d, res)))"
| "holds usable hs (Settle res cost t k) \<longleftrightarrow> res \<in> hs \<and> (\<forall>receipt. holds usable hs (k receipt))"
| "holds usable hs (Release res k) \<longleftrightarrow> res \<in> hs \<and> (\<forall>b. holds usable hs (k b))"

lemma holds_mono: "holds usable hs p \<Longrightarrow> hs \<subseteq> hs' \<Longrightarrow> holds usable hs' p"
proof (induction p arbitrary: hs hs')
  case (Reserve kind model mx priority t k)
  have "holds usable (hs' \<union> set_option res) (k (d, res))" for d res
  proof (rule Reserve.IH)
    show "holds usable (hs \<union> set_option res) (k (d, res))" using Reserve.prems(1) by auto
    show "hs \<union> set_option res \<subseteq> hs' \<union> set_option res" using Reserve.prems(2) by blast
  qed simp
  then show ?case using Reserve.prems by simp
qed (auto; blast)+

lemma holds_finished: "finished p \<Longrightarrow> holds usable hs p"
  by (cases p) auto

section \<open>A step keeps the invariant of the state\<close>

context durable_state
begin

lemma write_keeps: "sound db hs \<Longrightarrow> perform_write ops w db = Inr db' \<Longrightarrow> sound db' hs"
  by (auto simp: perform_write_def intro: profile_keeps career_keeps turn_keeps split: store_write.splits)

lemma heard_keeps:
  assumes "heard ops (db, p) es (db', p')" "sound db hs" "holds usable hs p"
  shows "\<exists>hs'. hs \<subseteq> hs' \<and> sound db' hs' \<and> holds usable hs' p'"
  using assms(1)
proof cases
  case (ambient n t begun k)
  then show ?thesis using ambient_keeps [OF assms(2), of n t] assms(3) by auto
next
  case (wrote w)
  then show ?thesis using write_keeps assms(2,3) by auto
next
  case (reserved kind model mx priority t entropy decided k)
  obtain d res where d: "decided = (d, res)" by fastforce
  have "sound db' (hs \<union> set_option res)"
    using reserve_keeps [OF _ assms(2), of kind model mx priority t entropy d res db'] reserved d assms(3)
    by simp
  then show ?thesis using reserved d assms(3) by auto
next
  case (settled res cost t receipt k)
  then show ?thesis using settle_keeps assms(2,3) by auto
next
  case (released res b k)
  then show ?thesis using release_keeps assms(2,3) by auto
qed (use assms(2,3) in auto)

lemma step_keeps:
  assumes "step ops (db, p) es (db', p')" "sound db hs" "holds usable hs p"
  shows "\<exists>hs'. hs \<subseteq> hs' \<and> sound db' hs' \<and> holds usable hs' p'"
  using assms(1)
proof cases
  case resumed
  from heard_keeps [OF this assms(2,3)] show ?thesis .
next
  case (unheard p1)
  from heard_keeps [OF unheard(2) assms(2,3)] unheard(1) show ?thesis by auto
next
  case (lost p1)
  from heard_keeps [OF lost(2) assms(2,3)] lost(1) show ?thesis by auto
qed (use assms(2) in auto)

end

section \<open>The handlers keep to it\<close>

lemma holds_reserve:
  "usable \<Longrightarrow> \<forall>res. holds usable (insert res hs) (k res) \<Longrightarrow>
   holds usable hs (reserve_maximum sv operation n kind priority now k)"
  by (auto simp: reserve_maximum_def Let_def holds_finished split: option.split sum.split prod.split)

lemma holds_settle:
  "res \<in> hs \<Longrightarrow> \<forall>t receipt. holds usable hs (k t receipt) \<Longrightarrow> holds usable hs (settle_usage sv res us k)"
  by (auto simp: settle_usage_def split: option.split sum.split)

lemma holds_account:
  "res \<in> hs \<Longrightarrow> holds usable hs k \<Longrightarrow> holds usable hs (account_for_failure sv res e k)"
  by (auto simp: account_for_failure_def split: option.split sum.split)

lemma holds_remember: "holds usable hs k \<Longrightarrow> holds usable hs (remember_reply sv r text t k)"
  by (auto simp: remember_reply_def split: option.split sum.split)

lemmas holds_facts = holds_reserve holds_settle holds_account holds_remember holds_finished

lemma holds_background:
  assumes usable
  shows "holds usable hs (process_roleplay_assessment_within_deadline sv r1)"
    and "holds usable hs (process_memory_within_deadline sv r2)"
    and "holds usable hs (process_biography_within_deadline sv r3)"
  using assms
  by (simp_all add: process_roleplay_assessment_within_deadline_def process_memory_within_deadline_def
      process_biography_within_deadline_def holds_facts split: sum.split prod.split)

lemma holds_social: "usable \<Longrightarrow> holds usable hs (process_social_within_deadline sv r)"
  by (simp add: process_social_within_deadline_def holds_facts
      split: sum.split generation_error.split option.split)

lemma holds_chat: "usable \<Longrightarrow> holds usable hs (process_within_deadline sv r)"
  by (simp add: process_within_deadline_def Let_def history_for_def holds_facts
      split: sum.split prod.split)

lemma holds_payload:
  assumes "generation_allowed (sv_config sv) = Inr True \<Longrightarrow> usable"
  shows "holds usable hs (process_payload sv payload)"
proof -
  have parsed: "(\<And>r. holds usable hs (k r)) \<Longrightarrow> holds usable hs (parsed_request outcome k)"
    for outcome :: "protocol_error + 'r" and k
    by (simp add: parsed_request_def split: sum.split)
  have allowed: "(usable \<Longrightarrow> holds usable hs p) \<Longrightarrow> holds usable hs (when_allowed sv (\<lambda>_. p))" for p
    using assms by (simp add: when_allowed_def split: sum.split)
  have "holds usable hs (process_chat_payload sv payload)"
    unfolding process_chat_payload_def by (auto intro!: parsed allowed holds_chat)
  moreover have "holds usable hs (process_social_payload sv payload)"
    "holds usable hs (process_biography_payload sv payload)"
    "holds usable hs (process_memory_payload sv payload)"
    "holds usable hs (process_roleplay_assessment_payload sv payload)"
    unfolding process_social_payload_def process_biography_payload_def process_memory_payload_def
      process_roleplay_assessment_payload_def
    by (intro parsed allowed holds_social holds_background; assumption)+
  ultimately show ?thesis by (simp add: process_payload_def split: sum.split option.split)
qed

section \<open>The deployment\<close>

type_synonym deployment = "database \<times> (service \<times> prog) list"

text \<open>
  A request arrives at a service; a handler of a service whose state is open takes a step; the purge
  runs; and anyone may change the tables that are not the ledger's.
\<close>

inductive deployment_step :: "service set \<Rightarrow> deployment \<Rightarrow> deployment \<Rightarrow> bool" for services where
  arrives: "sv \<in> services \<Longrightarrow>
    deployment_step services (db, ps) (db, ps @ [(sv, process_payload sv payload)])"
| works: "book_of (sv_config sv) = Some book \<Longrightarrow> step (mysql_sidecar_state book) (db, p) es (db', p') \<Longrightarrow>
    deployment_step services (db, ps @ (sv, p) # qs) (db', ps @ (sv, p') # qs)"
| purges: "sv \<in> services \<Longrightarrow> book_of (sv_config sv) = Some book \<Longrightarrow>
    deployment_step services (db, ps)
      (snd (op_purge_pending_bot_data (mysql_sidecar_state book) stamps db), ps)"
| elsewhere: "same_ledger db db' \<Longrightarrow> deployment_step services (db, ps) (db', ps)"

definition deployed :: "service set \<Rightarrow> deployment \<Rightarrow> bool" where
  "deployed services = (deployment_step services)\<^sup>*\<^sup>* (empty_database, [])"

text \<open>A bound of the ceilings of all the services.\<close>

definition services_within :: "int \<Rightarrow> service set \<Rightarrow> bool" where
  "services_within k services \<longleftrightarrow> 0 \<le> k \<and> k \<le> max_storable_nano \<and>
     (\<forall>sv \<in> services. \<forall>cap. budget_nano (sv_config sv) = Inr cap \<longrightarrow> cap \<le> k)"

definition deployment_inv :: "int \<Rightarrow> deployment \<Rightarrow> bool" where
  "deployment_inv k s \<longleftrightarrow> (\<exists>hs. sound_within k (fst s) hs \<and>
     (\<forall>(sv, p) \<in> set (snd s). \<forall>book. book_of (sv_config sv) = Some book \<longrightarrow>
        holds (book_within k book) hs p))"

lemma allowed_book:
  assumes "generation_allowed cfg = Inr True" "book_of cfg = Some book"
    and "\<forall>cap. budget_nano cfg = Inr cap \<longrightarrow> cap \<le> k"
  shows "book_within k book"
proof -
  obtain cap ratio where b: "budget_nano cfg = Inr cap" "config_reserve_ratio cfg = Inr ratio"
    "book = \<lparr>ceiling_nano = cap, reserve_ratio = ratio\<rparr>"
    using assms(2) by (auto simp: book_of_def split: sum.splits)
  have "0 < cap" using assms(1) b(1) by (simp add: generation_allowed_def)
  moreover from this b(1) have "cap \<le> max_storable_nano"
    by (auto simp: budget_nano_def validate_daily_ceiling_def split: sum.splits budget_error.splits if_splits)
  moreover have "valid_ratio ratio"
    using b(2) validated_ratio [of "MText (cfg_reserve_ratio cfg)"]
    by (auto simp: config_reserve_ratio_def valid_ratio_def fdec_of_int_def fdec_le_int_def
        split: sum.splits budget_error.splits)
  ultimately show ?thesis using assms(3) b by (simp add: book_within_def valid_book_def)
qed

lemma deployment_inv_step:
  assumes "deployment_step services s s'" "services_within k services" "deployment_inv k s"
  shows "deployment_inv k s'"
  using assms(1)
proof cases
  case (arrives sv db ps payload)
  have "holds (book_within k book) hs (process_payload sv payload)"
    if "book_of (sv_config sv) = Some book" for hs book
    using allowed_book [OF _ that] assms(2) arrives(3)
    by (intro holds_payload) (auto simp: services_within_def)
  then show ?thesis using assms(3) arrives(1,2) by (fastforce simp: deployment_inv_def)
next
  case (works sv book db p es db' p' ps qs)
  obtain hs where hs: "sound_within k db hs"
    "\<forall>(sv, p) \<in> set (ps @ (sv, p) # qs). \<forall>book. book_of (sv_config sv) = Some book \<longrightarrow>
      holds (book_within k book) hs p"
    using assms(3) works(1) by (auto simp: deployment_inv_def)
  then have "holds (book_within k book) hs p" using works(3) by auto
  from mysql.step_keeps [OF works(4) hs(1) this] obtain hs'
    where sub: "hs \<subseteq> hs'" and "sound_within k db' hs'" "holds (book_within k book) hs' p'" by blast
  moreover have "holds (book_within k book') hs' p'"
    if "(sv', p') \<in> set (ps @ qs)" "book_of (sv_config sv') = Some book'" for sv' p' book'
  proof (rule holds_mono [OF _ sub])
    show "holds (book_within k book') hs p'" using that hs(2) by fastforce
  qed
  ultimately show ?thesis
    using works(2,3) unfolding deployment_inv_def by (intro exI [of _ hs']) auto
next
  case (purges sv book db ps stamps)
  then show ?thesis
    using assms(3) mysql.purge_keeps [of k] by (fastforce simp: deployment_inv_def)
next
  case (elsewhere db db' ps)
  then show ?thesis using assms(3) sound_same by (fastforce simp: deployment_inv_def)
qed

lemma deployed_inv:
  assumes "deployed services s" "services_within k services"
  shows "deployment_inv k s"
proof -
  have "sound_within k empty_database {}"
    using assms(2) ledger_inv_start [of k]
    by (auto simp: sound_within_def services_within_def ledger_start_def intro!: exI [of _ "[]"])
  then have "deployment_inv k (empty_database, [])" by (auto simp: deployment_inv_def)
  with assms(1) show ?thesis
    unfolding deployed_def by (induction rule: rtranclp_induct) (auto intro: deployment_inv_step [OF _ assms(2)])
qed

text \<open>
  C5. The whole deployment never overspends: let any payloads arrive at any
  number of services with any configurations, let their handlers be answered, fail and be cut off in any
  order, and let everything else in the database change; as long as the breaker is closed, no day has
  spent and reserved more than the largest configured ceiling.
\<close>

theorem deployment_never_overspends:
  assumes "services_within k services" "deployed services (db, ps)" "\<not> is_circuit_open db"
  shows "(\<forall>d row. daily_budget db d = Some row \<longrightarrow>
        (spent_usd row + reserved_usd row) * storage_scale_nano \<le> k) \<and>
    (\<exists>st. snapshot now db = Inr st \<and> committed_nano st \<le> k)"
proof -
  obtain hs where "sound_within k db hs"
    using deployed_inv [OF assms(2,1)] by (auto simp: deployment_inv_def)
  then show ?thesis using ledger_inv_bounds [OF _ _ assms(3)] by (auto simp: sound_within_def)
qed

text \<open>The example service answers its request, and the database it leaves is within five dollars.\<close>

lemma alone_deployed:
  assumes "alone (mysql_sidecar_state book) (db, p) es (db', p')" "book_of (sv_config sv) = Some book"
    and "deployed services (db, [(sv, p)])"
  shows "deployed services (db', [(sv, p')])"
  using assms(1)
proof (induction "(db, p)" es "(db', p')" arbitrary: db' p' rule: alone.induct)
  case (further es db1 p1 es' db2 p2)
  from works [OF assms(2) further(3), of services "[]" "[]"] further(2)
  show ?case unfolding deployed_def by (auto intro: rtranclp.rtrancl_into_rtrancl)
qed (rule assms(3))

theorem deployment_never_overspends_witness:
  "\<exists>db answer. deployed {example_service} (db, [(example_service, Return (Some answer))]) \<and>
     (\<exists>st. snapshot example_now db = Inr st \<and> committed_nano st \<le> 5000000000)"
proof -
  obtain b r db answer receipt where run: "alone (mysql_sidecar_state example_book)
      (empty_database, process_payload example_service b) (example_trace r receipt) (db, Return (Some answer))"
    "\<not> is_circuit_open db"
    using example_alone by blast
  have "deployed {example_service} (empty_database, [(example_service, process_payload example_service b)])"
    unfolding deployed_def using arrives [of example_service "{example_service}" empty_database "[]" b]
    by auto
  then have d: "deployed {example_service} (db, [(example_service, Return (Some answer))])"
    by (intro alone_deployed [OF run(1)]) (simp_all add: example_book_of)
  have "services_within 5000000000 {example_service}"
    by (simp add: services_within_def budget_nano_def example_config_def example_amounts max_storable_nano_def)
  from deployment_never_overspends [OF this d run(2)] d show ?thesis by blast
qed

end
