(* ===== verification/Patterns.thy ===== *)
theory Patterns
  imports Fences
begin

text \<open>
  The part of Python's \<open>re\<close> that the moderation rules of \<open>generation.py\<close> are written in: a pattern, the
  ways it can match at a position in the order the engine tries them, the leftmost match, and the
  language the patterns describe, with the proof that searching finds exactly the texts the language
  says.
\<close>

section \<open>Patterns\<close>

datatype char_class =
    Letter nat
  | Between nat nat
  | WordClass
  | DigitClass
  | SpaceClass
  | NonSpaceClass
  | AnyChar
  | OneOf "char_class list"

datatype pattern =
    Nothing
  | One char_class
  | Seq pattern pattern
  | Alt pattern pattern
  | Star pattern
  | Capture string pattern
  | TextEnd
  | WordEdge
  | NotAfterWord
  | NotBeforeWord

text \<open>
  Ignoring case, a lower case ASCII letter also matches its capital, and three of them a letter outside
  ASCII: the Kelvin sign, the long s, and the dotted capital and dotless small i.
\<close>

definition other_case :: "nat \<Rightarrow> nat \<Rightarrow> bool" where
  "other_case k c \<longleftrightarrow> 97 \<le> k \<and> k \<le> 122 \<and>
     (c + 32 = k \<or> k = 107 \<and> c = 8490 \<or> k = 115 \<and> c = 383 \<or> k = 105 \<and> (c = 304 \<or> c = 305))"

fun in_class :: "unicode_tables \<Rightarrow> bool \<Rightarrow> char_class \<Rightarrow> nat \<Rightarrow> bool" where
  "in_class t ci (Letter k) c \<longleftrightarrow> c = k \<or> ci \<and> other_case k c"
| "in_class t ci (Between a b) c \<longleftrightarrow> a \<le> c \<and> c \<le> b \<or> ci \<and> list_ex (\<lambda>k. other_case k c) [a..<Suc b]"
| "in_class t ci WordClass c \<longleftrightarrow> uc_word t c"
| "in_class t ci DigitClass c \<longleftrightarrow> uc_digit t c"
| "in_class t ci SpaceClass c \<longleftrightarrow> py_space c"
| "in_class t ci NonSpaceClass c \<longleftrightarrow> \<not> py_space c"
| "in_class t ci AnyChar c \<longleftrightarrow> c \<noteq> 10"
| "in_class t ci (OneOf ks) c \<longleftrightarrow> list_ex (\<lambda>k. in_class t ci k c) ks"

text \<open>Common ways to build a pattern.\<close>

fun seq_of :: "pattern list \<Rightarrow> pattern" where
  "seq_of [] = Nothing"
| "seq_of [p] = p"
| "seq_of (p # ps) = Seq p (seq_of ps)"

fun any_of :: "pattern list \<Rightarrow> pattern" where
  "any_of [] = Nothing"
| "any_of [p] = p"
| "any_of (p # ps) = Alt p (any_of ps)"

definition lit :: "string \<Rightarrow> pattern" where
  "lit s = seq_of (map (\<lambda>c. One (Letter (of_char c))) s)"

definition text_lit :: "ustr \<Rightarrow> pattern" where
  "text_lit s = seq_of (map (\<lambda>c. One (Letter c)) s)"

definition words :: "string list \<Rightarrow> pattern" where
  "words ws = any_of (map lit ws)"

definition opt :: "pattern \<Rightarrow> pattern" where
  "opt p = Alt p Nothing"

definition plus :: "pattern \<Rightarrow> pattern" where
  "plus p = Seq p (Star p)"

primrec at_most :: "nat \<Rightarrow> pattern \<Rightarrow> pattern" where
  "at_most 0 p = Nothing"
| "at_most (Suc n) p = opt (Seq p (at_most n p))"

definition between :: "nat \<Rightarrow> nat \<Rightarrow> pattern \<Rightarrow> pattern" where
  "between n m p = Seq (seq_of (replicate n p)) (at_most (m - n) p)"

section \<open>Matching\<close>

text \<open>A position: the character before it, the text after it, and what has been captured.\<close>

record position =
  previous :: "nat option"
  remaining :: ustr
  captured :: "(string \<times> ustr) list"

definition is_word :: "unicode_tables \<Rightarrow> nat option \<Rightarrow> bool" where
  "is_word t c = (case c of None \<Rightarrow> False | Some c \<Rightarrow> uc_word t c)"

definition next_char :: "ustr \<Rightarrow> nat option" where
  "next_char s = (case s of [] \<Rightarrow> None | c # _ \<Rightarrow> Some c)"

text \<open>
  The positions a pattern can end at, the preferred one first. An iteration that takes nothing ends the
  repetition; the fuel is the length of the text.
\<close>

primrec iterate :: "nat \<Rightarrow> (position \<Rightarrow> position list) \<Rightarrow> position \<Rightarrow> position list" where
  "iterate 0 f p = [p]"
| "iterate (Suc n) f p =
     concat (map (iterate n f) (filter (\<lambda>q. length (remaining q) < length (remaining p)) (f p))) @ [p]"

fun matches :: "unicode_tables \<Rightarrow> bool \<Rightarrow> pattern \<Rightarrow> position \<Rightarrow> position list" where
  "matches t ci Nothing p = [p]"
| "matches t ci (One k) p = (case remaining p of
     [] \<Rightarrow> []
   | c # s \<Rightarrow> if in_class t ci k c then [p\<lparr>previous := Some c, remaining := s\<rparr>] else [])"
| "matches t ci (Seq a b) p = concat (map (matches t ci b) (matches t ci a p))"
| "matches t ci (Alt a b) p = matches t ci a p @ matches t ci b p"
| "matches t ci (Star a) p = iterate (length (remaining p)) (matches t ci a) p"
| "matches t ci (Capture n a) p =
     map (\<lambda>q. q\<lparr>captured := (n, take (length (remaining p) - length (remaining q)) (remaining p)) # captured q\<rparr>)
       (matches t ci a p)"
| "matches t ci TextEnd p = (if remaining p = [] \<or> remaining p = [10] then [p] else [])"
| "matches t ci WordEdge p =
     (if is_word t (previous p) \<noteq> is_word t (next_char (remaining p)) then [p] else [])"
| "matches t ci NotAfterWord p = (if is_word t (previous p) then [] else [p])"
| "matches t ci NotBeforeWord p = (if is_word t (next_char (remaining p)) then [] else [p])"

text \<open>\<open>re.search\<close>: what the leftmost match captured, and \<open>Pattern.fullmatch\<close>.\<close>

fun search_from :: "unicode_tables \<Rightarrow> bool \<Rightarrow> pattern \<Rightarrow> nat option \<Rightarrow> ustr \<Rightarrow> (string \<times> ustr) list option" where
  "search_from t ci p b s = (case matches t ci p \<lparr>previous = b, remaining = s, captured = []\<rparr> of
     q # _ \<Rightarrow> Some (captured q)
   | [] \<Rightarrow> (case s of [] \<Rightarrow> None | c # r \<Rightarrow> search_from t ci p (Some c) r))"

declare search_from.simps [simp del]

definition re_search :: "unicode_tables \<Rightarrow> bool \<Rightarrow> pattern \<Rightarrow> ustr \<Rightarrow> (string \<times> ustr) list option" where
  "re_search t ci p s = search_from t ci p None s"

definition found :: "unicode_tables \<Rightarrow> bool \<Rightarrow> pattern \<Rightarrow> ustr \<Rightarrow> bool" where
  "found t ci p s \<longleftrightarrow> re_search t ci p s \<noteq> None"

definition fullmatch :: "unicode_tables \<Rightarrow> bool \<Rightarrow> pattern \<Rightarrow> ustr \<Rightarrow> bool" where
  "fullmatch t ci p s \<longleftrightarrow>
     list_ex (\<lambda>q. remaining q = []) (matches t ci p \<lparr>previous = None, remaining = s, captured = []\<rparr>)"

section \<open>The language of a pattern\<close>

definition last_char :: "nat option \<Rightarrow> ustr \<Rightarrow> nat option" where
  "last_char b s = (if s = [] then b else Some (last s))"

text \<open>A pattern matches a text between what is before it and what comes after it.\<close>

inductive spells ::
  "unicode_tables \<Rightarrow> bool \<Rightarrow> pattern \<Rightarrow> nat option \<Rightarrow> ustr \<Rightarrow> ustr \<Rightarrow> bool" for t ci where
  "spells t ci Nothing b [] s"
| "in_class t ci k c \<Longrightarrow> spells t ci (One k) b [c] s"
| "spells t ci p b x (y @ s) \<Longrightarrow> spells t ci q (last_char b x) y s \<Longrightarrow> spells t ci (Seq p q) b (x @ y) s"
| "spells t ci p b x s \<Longrightarrow> spells t ci (Alt p q) b x s"
| "spells t ci q b x s \<Longrightarrow> spells t ci (Alt p q) b x s"
| "spells t ci (Star p) b [] s"
| "spells t ci p b x (y @ s) \<Longrightarrow> spells t ci (Star p) (last_char b x) y s \<Longrightarrow>
    spells t ci (Star p) b (x @ y) s"
| "spells t ci p b x s \<Longrightarrow> spells t ci (Capture n p) b x s"
| "s = [] \<or> s = [10] \<Longrightarrow> spells t ci TextEnd b [] s"
| "is_word t b \<noteq> is_word t (next_char s) \<Longrightarrow> spells t ci WordEdge b [] s"
| "\<not> is_word t b \<Longrightarrow> spells t ci NotAfterWord b [] s"
| "\<not> is_word t (next_char s) \<Longrightarrow> spells t ci NotBeforeWord b [] s"

definition occurs :: "unicode_tables \<Rightarrow> bool \<Rightarrow> pattern \<Rightarrow> ustr \<Rightarrow> bool" where
  "occurs t ci p s \<longleftrightarrow> (\<exists>l x r. s = l @ x @ r \<and> spells t ci p (last_char None l) x r)"

section \<open>Searching decides the language\<close>

lemma last_char_simps [simp]: "last_char b [] = b" "last_char b [c] = Some c"
  by (simp_all add: last_char_def)

lemma last_char_append [simp]: "last_char b (x @ y) = last_char (last_char b x) y"
  by (simp add: last_char_def)

text \<open>A match ends further on, after a text the pattern spells.\<close>

definition leads :: "unicode_tables \<Rightarrow> bool \<Rightarrow> pattern \<Rightarrow> position \<Rightarrow> position \<Rightarrow> bool" where
  "leads t ci a p q \<longleftrightarrow> (\<exists>x. remaining p = x @ remaining q \<and> previous q = last_char (previous p) x \<and>
     spells t ci a (previous p) x (remaining q))"

lemma leads_seq: "leads t ci a p q \<Longrightarrow> leads t ci b q r \<Longrightarrow> leads t ci (Seq a b) p r"
  unfolding leads_def by (metis append.assoc last_char_append spells.intros(3))

lemma leads_star: "leads t ci a p q \<Longrightarrow> leads t ci (Star a) q r \<Longrightarrow> leads t ci (Star a) p r"
  unfolding leads_def by (metis append.assoc last_char_append spells.intros(7))

lemma leads_none: "leads t ci (Star a) p p"
  unfolding leads_def by (auto intro: spells.intros)

lemma iterate_leads:
  assumes "\<forall>p. \<forall>q \<in> set (f p). leads t ci a p q"
  shows "q \<in> set (iterate n f p) \<Longrightarrow> leads t ci (Star a) p q"
proof (induction n arbitrary: p)
  case (Suc n)
  then show ?case using assms by (auto intro: leads_none leads_star)
qed (simp add: leads_none)

lemma matches_leads: "q \<in> set (matches t ci a p) \<Longrightarrow> leads t ci a p q"
proof (induction a arbitrary: p q)
  case (Seq a b)
  from Seq.prems obtain r where "r \<in> set (matches t ci a p)" "q \<in> set (matches t ci b r)" by auto
  with Seq.IH show ?case by (blast intro: leads_seq)
next
  case (Star a)
  then show ?case using iterate_leads [of "matches t ci a"] by auto
next
  case (Capture n a)
  then show ?case by (fastforce simp: leads_def intro: spells.intros)
next
  case (One k)
  then obtain c s where c: "remaining p = c # s" "in_class t ci k c" "q = p\<lparr>previous := Some c, remaining := s\<rparr>"
    by (cases "remaining p") (simp_all split: if_splits)
  then have "remaining p = [c] @ remaining q" "previous q = last_char (previous p) [c]"
    "spells t ci (One k) (previous p) [c] (remaining q)" by (auto intro: spells.intros)
  then show ?case unfolding leads_def by blast
qed (fastforce simp: leads_def intro: spells.intros split: if_splits)+

text \<open>More fuel than the text has characters changes nothing.\<close>

lemma iterate_fuel:
  "length (remaining p) \<le> n \<Longrightarrow> length (remaining p) \<le> m \<Longrightarrow> iterate n f p = iterate m f p"
proof (induction n arbitrary: m p)
  case 0
  then show ?case by (cases m) (auto simp: filter_empty_conv)
next
  case (Suc n)
  show ?case
  proof (cases m)
    case 0
    then show ?thesis using Suc.prems by (auto simp: filter_empty_conv)
  next
    case (Suc k)
    have "iterate n f q = iterate k f q" if "length (remaining q) < length (remaining p)" for q
      using that Suc.prems Suc by (intro Suc.IH) auto
    then have "map (iterate n f) (filter (\<lambda>q. length (remaining q) < length (remaining p)) (f p)) =
        map (iterate k f) (filter (\<lambda>q. length (remaining q) < length (remaining p)) (f p))"
      by simp
    then have "concat (map (iterate n f) (filter (\<lambda>q. length (remaining q) < length (remaining p)) (f p))) =
        concat (map (iterate k f) (filter (\<lambda>q. length (remaining q) < length (remaining p)) (f p)))"
      by (rule arg_cong)
    with Suc show ?thesis by (simp only: iterate.simps)
  qed
qed

lemma iterate_stops: "p \<in> set (iterate n f p)"
  by (cases n) simp_all

lemma matches_complete:
  assumes "spells t ci a b x s"
  shows "\<exists>q \<in> set (matches t ci a \<lparr>previous = b, remaining = x @ s, captured = cs\<rparr>).
    previous q = last_char b x \<and> remaining q = s"
  using assms
proof (induction arbitrary: cs rule: spells.induct)
  case (3 p b x y s q)
  obtain r where r: "r \<in> set (matches t ci p \<lparr>previous = b, remaining = x @ y @ s, captured = cs\<rparr>)"
    "previous r = last_char b x" "remaining r = y @ s" using 3(3) by blast
  then have "r = \<lparr>previous = last_char b x, remaining = y @ s, captured = captured r\<rparr>" by simp
  with r(1) 3(4) [of "captured r"] show ?case by fastforce
next
  case (7 p b x y s)
  show ?case
  proof (cases "x = []")
    case True
    then show ?thesis using 7(4) [of cs] by simp
  next
    case False
    obtain r where r: "r \<in> set (matches t ci p \<lparr>previous = b, remaining = x @ y @ s, captured = cs\<rparr>)"
      "previous r = last_char b x" "remaining r = y @ s" using 7(3) by blast
    then have eq: "r = \<lparr>previous = last_char b x, remaining = y @ s, captured = captured r\<rparr>" by simp
    obtain n where n: "length (x @ y @ s) = Suc n" "length (y @ s) \<le> n"
      using False by (cases x) auto
    have "matches t ci (Star p) \<lparr>previous = last_char b x, remaining = y @ s, captured = captured r\<rparr> =
        iterate (length (y @ s)) (matches t ci p) r"
      using r(3) by (simp flip: eq)
    with 7(4) [of "captured r"] obtain q where q: "q \<in> set (iterate (length (y @ s)) (matches t ci p) r)"
      "previous q = last_char (last_char b x) y" "remaining q = s"
      by (metis (no_types, lifting))
    then have "q \<in> set (iterate n (matches t ci p) r)"
      using iterate_fuel [of r "length (y @ s)" n] r(3) n(2) by simp
    with r n have "q \<in> set (iterate (Suc n) (matches t ci p) \<lparr>previous = b, remaining = x @ y @ s, captured = cs\<rparr>)"
      by (auto intro!: bexI [of _ r])
    with q n(1) show ?thesis by (auto simp del: iterate.simps)
  qed
next
  case (6 p b s)
  show ?case using iterate_stops by (auto intro!: bexI [of _ "\<lparr>previous = b, remaining = s, captured = cs\<rparr>"])
next
  case (8 p b x s n)
  then show ?case by fastforce
qed auto

lemma fullmatch_iff: "fullmatch t ci p s \<longleftrightarrow> spells t ci p None s []"
proof
  assume "fullmatch t ci p s"
  then obtain q where "q \<in> set (matches t ci p \<lparr>previous = None, remaining = s, captured = []\<rparr>)" "remaining q = []"
    by (auto simp: fullmatch_def list_ex_iff)
  with matches_leads [OF this(1)] show "spells t ci p None s []" by (auto simp: leads_def)
next
  assume "spells t ci p None s []"
  from matches_complete [OF this, of "[]"] show "fullmatch t ci p s"
    by (auto simp: fullmatch_def list_ex_iff)
qed

lemma matches_some_iff:
  "matches t ci p \<lparr>previous = b, remaining = s, captured = cs\<rparr> \<noteq> [] \<longleftrightarrow> (\<exists>x r. s = x @ r \<and> spells t ci p b x r)"
proof
  assume "matches t ci p \<lparr>previous = b, remaining = s, captured = cs\<rparr> \<noteq> []"
  then obtain q where "q \<in> set (matches t ci p \<lparr>previous = b, remaining = s, captured = cs\<rparr>)"
    by (meson list.set_sel(1))
  from matches_leads [OF this] show "\<exists>x r. s = x @ r \<and> spells t ci p b x r" by (auto simp: leads_def)
next
  assume "\<exists>x r. s = x @ r \<and> spells t ci p b x r"
  then obtain x r where "s = x @ r" "spells t ci p b x r" by blast
  with matches_complete [of t ci p b x r cs]
  show "matches t ci p \<lparr>previous = b, remaining = s, captured = cs\<rparr> \<noteq> []" by auto
qed

lemma search_from_iff:
  "search_from t ci p b s \<noteq> None \<longleftrightarrow> (\<exists>l x r. s = l @ x @ r \<and> spells t ci p (last_char b l) x r)"
proof (induction s arbitrary: b)
  case Nil
  show ?case
    using matches_some_iff [of t ci p b "[]" "[]"]
    by (cases "matches t ci p \<lparr>previous = b, remaining = [], captured = []\<rparr>")
      (simp_all add: search_from.simps [of t ci p b "[]"])
next
  case (Cons c s)
  have split: "(\<exists>l x r. c # s = l @ x @ r \<and> spells t ci p (last_char b l) x r) \<longleftrightarrow>
      (\<exists>x r. c # s = x @ r \<and> spells t ci p b x r) \<or>
      (\<exists>l x r. s = l @ x @ r \<and> spells t ci p (last_char (Some c) l) x r)"
    (is "?l \<longleftrightarrow> ?m \<or> ?r")
  proof
    assume ?l
    then obtain l x r where l: "c # s = l @ x @ r" "spells t ci p (last_char b l) x r" by blast
    then show "?m \<or> ?r"
    proof (cases l)
      case (Cons d k)
      with l have "s = k @ x @ r" "spells t ci p (last_char (Some c) k) x r"
        by (auto simp: last_char_def)
      then show ?thesis by blast
    qed auto
  next
    assume "?m \<or> ?r"
    then show ?l
    proof
      assume ?m
      then show ?l by (metis append_Nil last_char_simps(1))
    next
      assume ?r
      then obtain l x r where "s = l @ x @ r" "spells t ci p (last_char (Some c) l) x r" by blast
      then have "c # s = (c # l) @ x @ r" "spells t ci p (last_char b (c # l)) x r"
        by (auto simp: last_char_def)
      then show ?l by blast
    qed
  qed
  show ?case
    using matches_some_iff [of t ci p b "c # s" "[]"] Cons.IH [of "Some c"]
    unfolding split
    by (cases "matches t ci p \<lparr>previous = b, remaining = c # s, captured = []\<rparr>")
      (auto simp: search_from.simps [of t ci p b "c # s"])
qed

text \<open>Searching for a pattern finds one exactly when the text has a part the pattern spells.\<close>

lemma found_iff_occurs: "found t ci p s \<longleftrightarrow> occurs t ci p s"
  unfolding found_def re_search_def occurs_def by (rule search_from_iff)

end
