(* ===== verification/Moderation.thy ===== *)
theory Moderation
  imports Patterns Prompts
begin

text \<open>
  The deterministic gates on generated text (\<open>generation.py\<close>): the patterns of what may not be said, and
  the checks of one social line. A gate refuses with a category, or raises when a text cannot be encoded
  or a part of the request cannot be read again.
\<close>

section \<open>Refusals\<close>

datatype moderation_category =
    EmptyOutput | NotOneLine | TooLong | BrokeCharacter | DocumentStructure | Transcript
  | ForbiddenClaim | UnsafeContent | TargetedRepetition | QuotedThread | CarriedSecret
  | UnknownEmote | EmoteChannelIllegal | UnknownSubject | ScopeMismatch | UnknownEvidence
  | EvidenceSubjectMismatch | SuppliedFactQuestion | GenericFiller | AdoptedAccomplishment
  | UncitedCurrentClaim | ContradictedEvidence | UnavailableContent | IrrelevantContribution

text \<open>\<open>GenerationInvalidOutputError\<close> with its category, when it has one, or another exception.\<close>

datatype gate_error = Refused "moderation_category option" | GateRaised protocol_error

definition refuse_if :: "bool \<Rightarrow> moderation_category option \<Rightarrow> gate_error + unit" where
  "refuse_if b c = (if b then Inl (Refused c) else Inr ())"

definition check_length :: "nat \<Rightarrow> ustr \<Rightarrow> moderation_category option \<Rightarrow> gate_error + unit" where
  "check_length n s c =
     (if \<not> list_all is_scalar s then Inl (GateRaised UnicodeRaised)
      else refuse_if (n < byte_length s) c)"

definition read_again :: "protocol_error + 'a \<Rightarrow> gate_error + 'a" where
  "read_again r = map_sum GateRaised id r"

section \<open>Unsafe content\<close>

definition rot13 :: "nat \<Rightarrow> nat" where
  "rot13 c = (if 97 \<le> c \<and> c \<le> 122 then (c - 97 + 13) mod 26 + 97 else c)"

definition slur_terms :: "ustr list" where
  "slur_terms = map (map rot13) (map u [''avttre'', ''snttbg'', ''ergneq'', ''gunaal'', ''fcvp'',
     ''puvax'', ''xvxr'', ''genaal''])"

text \<open>\<open>(?<!\w)...(?!\w)\<close> around an escaped term.\<close>

definition whole_word :: "ustr \<Rightarrow> pattern" where
  "whole_word s = seq_of [NotAfterWord, text_lit s, NotBeforeWord]"

definition unsafe_content_patterns :: "pattern list" where
  "unsafe_content_patterns = [
     seq_of [WordEdge, lit ''kill '', words [''your'', ''ur''], lit ''self'', WordEdge],
     seq_of [WordEdge, lit ''kys'', WordEdge],
     seq_of [WordEdge, lit ''kill your '',
       words [''family'', ''mother'', ''father'', ''kids'', ''children''], WordEdge],
     seq_of [WordEdge, words [''find'', ''come to''], lit '' '',
       words [''you'', ''your house'', ''your home''], WordEdge],
     seq_of [WordEdge, lit ''i know where you '', words [''live'', ''work''], WordEdge],
     seq_of [WordEdge, lit ''your '', words [''real'', ''actual''], lit '' '',
       words [''name'', ''address'', ''face''], WordEdge],
     seq_of [WordEdge, lit ''describe '', words [''her'', ''his'', ''your''], lit '' body'', WordEdge],
     seq_of [WordEdge, words [''send'', ''show''], lit '' '', opt (lit ''me ''),
       words [''nudes'', ''pics of yourself''], WordEdge],
     seq_of [WordEdge, lit ''rape'', WordEdge]]"

definition unsafe_content_reason :: "unicode_tables \<Rightarrow> ustr \<Rightarrow> string option" where
  "unsafe_content_reason t text =
     (let lowered = casefold t text
      in if list_ex (\<lambda>term. found t False (whole_word term) lowered) slur_terms then Some ''slur''
         else if list_ex (\<lambda>p. found t False p lowered) unsafe_content_patterns then Some ''directed harm''
         else None)"

section \<open>Repetition\<close>

text \<open>\<open>re.findall(r"\w+", ...)\<close>: the maximal runs of word characters.\<close>

fun word_runs :: "unicode_tables \<Rightarrow> ustr \<Rightarrow> ustr list" where
  "word_runs t [] = []"
| "word_runs t (c # s) =
     (if \<not> uc_word t c then word_runs t s
      else if s \<noteq> [] \<and> uc_word t (hd s) then
        (case word_runs t s of [] \<Rightarrow> [[c]] | w # ws \<Rightarrow> (c # w) # ws)
      else [c] # word_runs t s)"

text \<open>\<open>(\w)\1{9,}\<close>: one word character ten times in a row.\<close>

fun held_down :: "unicode_tables \<Rightarrow> ustr \<Rightarrow> bool" where
  "held_down t [] = False"
| "held_down t (c # s) =
     (uc_word t c \<and> 9 \<le> length (takeWhile (\<lambda>d. d = c) s) \<or> held_down t s)"

definition is_targeted_repetition :: "unicode_tables \<Rightarrow> ustr \<Rightarrow> bool" where
  "is_targeted_repetition t text =
     (let ws = word_runs t (casefold t text)
      in 4 \<le> length ws \<and> length (remdups ws) = 1 \<or> held_down t text)"

section \<open>One social line\<close>

definition social_leak_markers :: "ustr list" where
  "social_leak_markers = map u [''system prompt'', ''as an ai'', ''language model'',
     ''i cannot comply'', ''my instructions'', ''these rules'', ''untrusted context'',
     ''bridge token'', ''api key'']"

definition social_structure_markers :: "ustr list" where
  "social_structure_markers = map u [''```'', ''###'', ''</'', ''/>'']"

definition validate_social_message ::
  "unicode_tables \<Rightarrow> ustr \<Rightarrow> social_request \<Rightarrow> gate_error + ustr" where
  "validate_social_message t message r =
     (let message = py_strip message; lowered = casefold t message in
      and_then (refuse_if (message = []) (Some EmptyOutput)) (\<lambda>_.
      and_then (refuse_if (list_ex (\<lambda>c. c < 32) message) (Some NotOneLine)) (\<lambda>_.
      and_then (check_length max_response_message_bytes message (Some TooLong)) (\<lambda>_.
      and_then (refuse_if (list_ex (\<lambda>m. u_contains m lowered) social_leak_markers)
        (Some BrokeCharacter)) (\<lambda>_.
      and_then (refuse_if (list_ex (\<lambda>m. u_contains m message) social_structure_markers)
        (Some DocumentStructure)) (\<lambda>_.
      and_then (refuse_if (unsafe_content_reason t message \<noteq> None) (Some UnsafeContent)) (\<lambda>_.
      and_then (refuse_if (is_targeted_repetition t message) (Some TargetedRepetition)) (\<lambda>_.
      and_then (refuse_if (prefix (casefold t (soc_bot_name r) @ [58]) lowered) (Some Transcript)) (\<lambda>_.
        Inr message)))))))))"

section \<open>What a line may claim\<close>

definition spaces :: pattern where "spaces = plus (One SpaceClass)"

definition supplied_fact_question_patterns :: "(ustr \<times> pattern list) list" where
  "supplied_fact_question_patterns = (
     let word = (\<lambda>ps. seq_of ([WordEdge] @ ps @ [WordEdge])) in
     [(u ''level'', [word [lit ''what level''], word [lit ''level are '', words [''you'', ''they'']]]),
      (u ''race'', [word [lit ''what race'']]),
      (u ''character_class'', [word [lit ''what class''], word [lit ''what kind of class'']]),
      (u ''zone'', [word [lit ''what zone''], word [lit ''where are '', words [''you'', ''they'']]]),
      (u ''area'', [word [lit ''what area''], word [lit ''where are '', words [''you'', ''they'']]]),
      (u ''target'', [word [lit ''what are '', words [''you'', ''they''], lit '' '',
        words [''fighting'', ''targeting'']]]),
      (u ''group_relation'', [word [lit ''are '', words [''you'', ''we'', ''they''], lit '' in '',
        words [''the same'', ''a''], lit '' '', words [''party'', ''group'']]]),
      (u ''guild_relation'', [word [lit ''are '', words [''you'', ''we'', ''they''],
        lit '' in the same guild'']])])"

text \<open>The leading \<open>^\<close> is where \<open>fullmatch\<close> starts.\<close>

definition generic_filler :: pattern where
  "generic_filler = seq_of [
     opt (seq_of [words [''hey'', ''wow''], opt (lit '',''), spaces]),
     words [''congrats'', ''congratulations'', ''nice'', ''good job'', ''well done''],
     Star (One (OneOf [Letter 33, Letter 46, Letter 32])), TextEnd]"

definition adopted_accomplishment :: pattern where
  "adopted_accomplishment = seq_of [WordEdge, words [''i'', ''we''],
     opt (words [[CHR 0x27] @ ''ve'', '' have'']), spaces,
     words [''cleared'', ''completed'', ''finished'', ''killed'', ''looted'', ''earned'', ''unlocked'',
       ''beat''], WordEdge]"

definition doing_now :: pattern where
  "doing_now = any_of [lit ''farming'', lit ''fighting'', lit ''targeting'', lit ''carrying'',
     lit ''wearing'', lit ''grouped'', Seq (lit ''in'') WordEdge, Seq (lit ''level'') WordEdge,
     Seq (lit ''a level'') WordEdge]"

definition done_already :: pattern where
  "done_already = any_of [lit ''completed'', lit ''cleared'', lit ''finished'', lit ''killed'',
     lit ''looted'', lit ''equipped'', lit ''unlocked'', Seq (lit ''got'') WordEdge]"

definition owned :: pattern where
  "owned = Seq (words [''gear'', ''quest'', ''item'', ''target'', ''group'', ''guild'']) WordEdge"

definition current_claim :: pattern where
  "current_claim = Seq WordEdge (any_of [
     seq_of [words [''i am'', ''i'' @ [CHR 0x27] @ ''m'', ''we are''], spaces, doing_now],
     seq_of [words [''i have'', ''i'' @ [CHR 0x27] @ ''ve'', ''we'' @ [CHR 0x27] @ ''ve''], spaces,
       done_already],
     Seq (lit ''my '') owned])"

definition participant_current_claim :: pattern where
  "participant_current_claim = Seq WordEdge (any_of [
     seq_of [words [''you are'', ''you'' @ [CHR 0x27] @ ''re''], spaces, doing_now],
     seq_of [words [''you have'', ''you'' @ [CHR 0x27] @ ''ve''], spaces, done_already],
     Seq (lit ''your '') owned])"

definition claim_speaker :: pattern where
  "claim_speaker = Capture ''speaker'' (Alt
     (Seq (lit ''i'') (words ['' am'', [CHR 0x27] @ ''m'']))
     (Seq (lit ''you'') (words ['' are'', [CHR 0x27] @ ''re''])))"

definition level_claim :: pattern where
  "level_claim = seq_of [WordEdge, claim_speaker, spaces, opt (Seq (lit ''a'') spaces), lit ''level'',
     spaces, Capture ''value'' (between 1 3 (One DigitClass)), WordEdge]"

definition location_claim :: pattern where
  "location_claim = seq_of [WordEdge, claim_speaker, spaces, lit ''in'', spaces,
     Capture ''value'' (Seq (One (Between 97 122))
       (between 1 63 (One (OneOf [Between 97 122, Letter 39, Letter 32, Letter 45])))),
     Alt (One (OneOf [Letter 46, Letter 33, Letter 63])) TextEnd]"

definition group_text :: "string \<Rightarrow> (string \<times> ustr) list \<Rightarrow> ustr" where
  "group_text n groups = (case map_of groups n of None \<Rightarrow> [] | Some s \<Rightarrow> s)"

definition literal_claim_refusal ::
  "unicode_tables \<Rightarrow> ustr \<Rightarrow> ustr \<Rightarrow> social_evidence list \<Rightarrow> moderation_category option" where
  "literal_claim_refusal t message claim_subject cited =
     (let expected = (if claim_subject = u ''candidate_bot'' then u ''i'' else u ''you'');
          applies = (\<lambda>groups. prefix expected (casefold t (group_text ''speaker'' groups)));
          levels = [ev_value e. e \<leftarrow> cited, ev_fact e = u ''level''];
          places = [casefold t (ev_value e). e \<leftarrow> cited, ev_fact e \<in> {u ''zone'', u ''area''}];
          level = (case re_search t True level_claim message of
            Some groups \<Rightarrow>
              if \<not> applies groups then None
              else if levels = [] then Some UncitedCurrentClaim
              else if group_text ''value'' groups \<notin> set levels then Some ContradictedEvidence
              else None
          | None \<Rightarrow> None)
      in case level of
        Some c \<Rightarrow> Some c
      | None \<Rightarrow> (case re_search t True location_claim message of
          Some groups \<Rightarrow>
            if \<not> applies groups then None
            else if places = [] then Some UncitedCurrentClaim
            else if casefold t (py_strip (group_text ''value'' groups)) \<notin> set places
            then Some ContradictedEvidence
            else None
        | None \<Rightarrow> None))"

end
