(* ===== verification/Replies.thy ===== *)
theory Replies
  imports Moderation
begin

text \<open>
  What the model may answer (the reply schemas of \<open>generation.py\<close>) and the validators that decide whether
  an answer that fits its schema may be used. A schema is given the members of a JSON object; \<open>None\<close> is
  a \<open>ValidationError\<close>.
\<close>

section \<open>Schemas\<close>

definition any_text :: "ustr \<Rightarrow> members \<Rightarrow> ustr option" where
  "any_text = text_field (list_all is_scalar)"

definition any_int :: "ustr \<Rightarrow> members \<Rightarrow> int option" where
  "any_int = field (\<lambda>v. case v of JInt n \<Rightarrow> Some n | _ \<Rightarrow> None)"

definition text_list :: "ustr \<Rightarrow> members \<Rightarrow> ustr list option" where
  "text_list = field (\<lambda>v. case v of JArr vs \<Rightarrow> those (map (json_text (list_all is_scalar)) vs) | _ \<Rightarrow> None)"

definition chat_reply_of :: "members \<Rightarrow> ustr option" where
  "chat_reply_of ms = do { guarded (has_fields [u ''message''] [] ms); any_text (u ''message'') ms }"

record career_reply =
  cr_candidate_token :: ustr
  cr_spending_style :: spending_style

definition career_reply_of :: "members \<Rightarrow> career_reply option" where
  "career_reply_of ms = do {
     guarded (has_fields [u ''candidate_token'', u ''spending_style''] [] ms);
     tok \<leftarrow> any_text (u ''candidate_token'') ms;
     style \<leftarrow> choice_field spending_styles (u ''spending_style'') ms;
     Some \<lparr>cr_candidate_token = tok, cr_spending_style = style\<rparr> }"

datatype response_kind = MessageReply | EmoteReply | SilenceReply

record social_reply =
  sr_kind :: response_kind
  sr_message :: ustr
  sr_emote :: ustr
  sr_contribution :: ustr
  sr_claim_subject :: ustr
  sr_evidence_ids :: "ustr list"
  sr_memory_ids :: "ustr list"

text \<open>\<open>_one_coherent_answer\<close>: a line, a gesture or a silence, and nothing of the other two.\<close>

definition one_coherent_answer :: "social_reply \<Rightarrow> bool" where
  "one_coherent_answer r \<longleftrightarrow>
     length (sr_evidence_ids r) \<le> max_social_evidence_entries \<and> distinct (sr_evidence_ids r) \<and>
     length (sr_memory_ids r) \<le> max_social_context_entries \<and> distinct (sr_memory_ids r) \<and>
     (let uncited = sr_claim_subject r = u ''none'' \<and> sr_evidence_ids r = [] \<and> sr_memory_ids r = [];
          blank = py_strip (sr_message r) = []
      in case sr_kind r of
        MessageReply \<Rightarrow> \<not> blank \<and> sr_emote r = [] \<and>
          sr_contribution r \<noteq> u ''gesture'' \<and> sr_contribution r \<noteq> u ''none''
      | EmoteReply \<Rightarrow> blank \<and> sr_emote r \<noteq> [] \<and> sr_contribution r = u ''gesture'' \<and> uncited
      | SilenceReply \<Rightarrow> blank \<and> sr_emote r = [] \<and> sr_contribution r = u ''none'' \<and> uncited)"

definition social_reply_of :: "members \<Rightarrow> social_reply option" where
  "social_reply_of ms = do {
     guarded (has_fields (map u [''response_kind'', ''contribution'', ''claim_subject'',
       ''cited_evidence_ids'', ''cited_memory_ids'']) (map u [''message'', ''emote'']) ms);
     kind \<leftarrow> choice_field [(u ''message'', MessageReply), (u ''emote'', EmoteReply),
       (u ''silence'', SilenceReply)] (u ''response_kind'') ms;
     message \<leftarrow> default_field [] any_text (u ''message'') ms;
     emote \<leftarrow> default_field [] (choice_field (([], []) # map (\<lambda>(n, _). (n, n)) social_emotes)) (u ''emote'') ms;
     contribution \<leftarrow> choice_field (map (\<lambda>s. (s, s)) contributions) (u ''contribution'') ms;
     subject \<leftarrow> choice_field (map (\<lambda>s. (s, s)) claim_subjects) (u ''claim_subject'') ms;
     evidence \<leftarrow> text_list (u ''cited_evidence_ids'') ms;
     memories \<leftarrow> text_list (u ''cited_memory_ids'') ms;
     let r = \<lparr>sr_kind = kind, sr_message = message, sr_emote = emote, sr_contribution = contribution,
       sr_claim_subject = subject, sr_evidence_ids = evidence, sr_memory_ids = memories\<rparr>;
     guarded (one_coherent_answer r);
     Some r }"

text \<open>The fields of a biography, by their names, in the order of the schema.\<close>

definition biography_reply_of :: "members \<Rightarrow> (ustr \<times> ustr) list option" where
  "biography_reply_of ms = do {
     guarded (has_fields biography_field_names [] ms);
     those (map (\<lambda>k. map_option (Pair k) (any_text k ms)) biography_field_names) }"

record memory_candidate =
  mc_paraphrase :: ustr
  mc_about_guid :: int
  mc_scope :: memory_scope
  mc_source_event_id :: ustr

definition memory_candidate_of :: "members \<Rightarrow> memory_candidate option" where
  "memory_candidate_of ms = do {
     guarded (has_fields (map u [''paraphrase'', ''about_guid'', ''scope'', ''source_event_id'']) [] ms);
     p \<leftarrow> any_text (u ''paraphrase'') ms;
     g \<leftarrow> any_int (u ''about_guid'') ms;
     s \<leftarrow> choice_field social_memory_scopes (u ''scope'') ms;
     e \<leftarrow> any_text (u ''source_event_id'') ms;
     Some \<lparr>mc_paraphrase = p, mc_about_guid = g, mc_scope = s, mc_source_event_id = e\<rparr> }"

definition memory_reply_of :: "members \<Rightarrow> memory_candidate list option" where
  "memory_reply_of ms = do {
     guarded (has_fields [] [u ''candidates''] ms);
     default_field [] (field (\<lambda>v. case v of
       JArr vs \<Rightarrow> those (map (json_members memory_candidate_of) vs) | _ \<Rightarrow> None)) (u ''candidates'') ms }"

section \<open>Social\<close>

definition validate_social_emote :: "ustr \<Rightarrow> social_request \<Rightarrow> gate_error + int" where
  "validate_social_emote name r = (case map_of social_emotes name of
     None \<Rightarrow> Inl (Refused (Some UnknownEmote))
   | Some i \<Rightarrow> if soc_channel r \<in> set social_emote_channels then Inr i
       else Inl (Refused (Some EmoteChannelIllegal)))"

definition unavailable_content :: "int \<Rightarrow> ustr list" where
  "unavailable_content expansion = map u
     (if expansion = 0 then
        [''outland'', ''northrend'', ''blood elf'', ''draenei'', ''death knight'', ''lich king'']
      else if expansion = 1 then [''northrend'', ''death knight'', ''lich king'']
      else [])"

definition compatible_subjects :: "ustr \<Rightarrow> ustr list" where
  "compatible_subjects claim_subject =
     (if claim_subject = u ''candidate_bot'' then [u ''candidate_bot'', u ''source'']
      else if claim_subject = u ''participant'' then [u ''participant'']
      else [])"

text \<open>What the citations allow, before the content is looked at.\<close>

definition check_citations :: "social_reply \<Rightarrow> social_request \<Rightarrow> social_evidence list \<Rightarrow> gate_error + unit" where
  "check_citations reply r cited =
     (let uncited = (cited = [] \<and> sr_memory_ids reply = []);
          mismatch = Some EvidenceSubjectMismatch in
      and_then (refuse_if (sr_contribution reply = u ''answer'' \<and> soc_expects_answer r = 0)
        (Some IrrelevantContribution)) (\<lambda>_.
      and_then (refuse_if (sr_contribution reply = u ''answer'' \<and> uncited) (Some UncitedCurrentClaim)) (\<lambda>_.
      and_then (refuse_if (sr_contribution reply = u ''fact_free_banter'' \<and>
        (sr_claim_subject reply \<noteq> u ''none'' \<or> \<not> uncited)) mismatch) (\<lambda>_.
      and_then (refuse_if (list_ex (\<lambda>e. ev_subject e \<notin> set (compatible_subjects (sr_claim_subject reply)))
        cited) mismatch) (\<lambda>_.
      and_then (refuse_if (sr_memory_ids reply \<noteq> [] \<and> sr_claim_subject reply \<noteq> u ''participant'')
        mismatch) (\<lambda>_.
      refuse_if (sr_claim_subject reply = u ''none'' \<and> \<not> uncited) mismatch))))))"

text \<open>What a line that passed the gate may say with these citations.\<close>

definition check_claims ::
  "unicode_tables \<Rightarrow> ustr \<Rightarrow> social_reply \<Rightarrow> social_request \<Rightarrow> social_evidence list \<Rightarrow> gate_error + unit" where
  "check_claims t message reply r cited =
     (let lowered = casefold t message; facts = map ev_fact (soc_evidence r);
          recalled = (sr_memory_ids reply \<noteq> []) in
      and_then (refuse_if (py_rstrip message \<noteq> [] \<and> last (py_rstrip message) = 63 \<and>
        list_ex (\<lambda>(fact, ps). fact \<in> set facts \<and> list_ex (\<lambda>p. found t False p lowered) ps)
          supplied_fact_question_patterns) (Some SuppliedFactQuestion)) (\<lambda>_.
      and_then (refuse_if (fullmatch t True generic_filler message) (Some GenericFiller)) (\<lambda>_.
      and_then (case literal_claim_refusal t message (sr_claim_subject reply) cited of
        Some c \<Rightarrow> Inl (Refused (Some c)) | None \<Rightarrow> Inr ()) (\<lambda>_.
      and_then (refuse_if (found t True adopted_accomplishment message \<and>
        \<not> list_ex (\<lambda>e. ev_subject e \<in> {u ''candidate_bot'', u ''source''}) cited)
        (Some AdoptedAccomplishment)) (\<lambda>_.
      and_then (refuse_if (list_ex (\<lambda>term. u_contains term lowered)
        (unavailable_content (soc_expansion r))) (Some UnavailableContent)) (\<lambda>_.
      and_then (refuse_if (found t True current_claim message \<and> cited = [])
        (Some UncitedCurrentClaim)) (\<lambda>_.
      and_then (refuse_if (sr_claim_subject reply \<noteq> u ''none'' \<and> cited = [] \<and> \<not> recalled)
        (Some UncitedCurrentClaim)) (\<lambda>_.
      refuse_if (recalled \<and> cited = [] \<and> found t True participant_current_claim message)
        (Some UncitedCurrentClaim)))))))))"

definition validate_social_reply ::
  "interpreter \<Rightarrow> unicode_tables \<Rightarrow> social_reply \<Rightarrow> social_request \<Rightarrow> gate_error + ustr \<times> int" where
  "validate_social_reply env t reply r =
     (if sr_kind reply = SilenceReply then Inr ([], 0)
      else and_then (read_again (parse_social_context env (soc_context r))) (\<lambda>context.
        let offered = (case context of None \<Rightarrow> [] | Some c \<Rightarrow> map mem_id (memories_within (soc_channel r) c));
            evidence = map_of (rev (map (\<lambda>e. (ev_id e, e)) (soc_evidence r))) in
        and_then (refuse_if (\<not> set (sr_memory_ids reply) \<subseteq> set offered) (Some UnknownEvidence)) (\<lambda>_.
        case those (map evidence (sr_evidence_ids reply)) of
          None \<Rightarrow> Inl (Refused (Some UnknownEvidence))
        | Some cited \<Rightarrow>
            and_then (check_citations reply r cited) (\<lambda>_.
            if sr_kind reply = EmoteReply then
              map_sum id (Pair []) (validate_social_emote (sr_emote reply) r)
            else and_then (validate_social_message t (sr_message reply) r) (\<lambda>message.
              and_then (check_claims t message reply r cited) (\<lambda>_. Inr (message, 0)))))))"

section \<open>Biography\<close>

definition forbidden_claim_terms :: "ustr list" where
  "forbidden_claim_terms = map u [
     ''son of'', ''daughter of'', ''brother of'', ''sister of'', ''child of'', ''heir of'', ''heir to'',
     ''descendant of'', ''descended from'', ''cousin of'', ''nephew of'', ''niece of'', ''grandson of'',
     ''granddaughter of'', ''married to'', ''widow of'', ''widower of'', ''betrothed to'',
     ''friend of'', ''friends with'', ''apprentice of'', ''apprenticed to'', ''student of'',
     ''mentor of'', ''mentored by'', ''trained by'', ''rival of'', ''sworn to'', ''served under'',
     ''squire to'', ''companion of'', ''ally of'',
     ''fought alongside'', ''fought beside'', ''fought with'', ''rode with'', ''marched with'',
     ''personally met'', ''once met'', ''grew up with'', ''survived together'', ''witnessed the fall'',
     ''highlord'', ''high lord'', ''warchief'', ''archmage'', ''lich king'', ''lord commander'',
     ''grand marshal'', ''grand admiral'', ''high priestess'', ''chieftain'', ''prince'', ''princess'',
     ''king of'', ''queen of'', ''lord of'', ''lady of'', ''captain of'', ''master of'',
     ''hero of'', ''champion of'', ''slayer of'', ''single-handedly'', ''singlehandedly'', ''legendary'',
     ''vanquished'', ''saved azeroth'', ''renowned'', ''renown'', ''famed'', ''famous'',
     ''arthas'', ''thrall'', ''jaina'', ''sylvanas'', ''illidan'', ''muradin'']"

definition contains_forbidden_claim :: "unicode_tables \<Rightarrow> ustr \<Rightarrow> bool" where
  "contains_forbidden_claim t text =
     list_ex (\<lambda>term. found t False (whole_word term) (casefold t text)) forbidden_claim_terms"

definition check_biography_value :: "unicode_tables \<Rightarrow> ustr \<Rightarrow> gate_error + unit" where
  "check_biography_value t v =
     and_then (refuse_if (py_strip v = []) None) (\<lambda>_.
     and_then (check_length max_biography_field_bytes v None) (\<lambda>_.
       refuse_if (contains_forbidden_claim t v) (Some ForbiddenClaim)))"

primrec gate_all :: "('a \<Rightarrow> gate_error + unit) \<Rightarrow> 'a list \<Rightarrow> gate_error + unit" where
  "gate_all f [] = Inr ()"
| "gate_all f (x # xs) = and_then (f x) (\<lambda>_. gate_all f xs)"

text \<open>\<open>{**fields, **identity}\<close>, and what of it is sent.\<close>

definition merged :: "members \<Rightarrow> members \<Rightarrow> members" where
  "merged given identity =
     map (\<lambda>(k, v). (k, case map_of identity k of Some w \<Rightarrow> w | None \<Rightarrow> v)) given @
     filter (\<lambda>(k, _). k \<notin> fst ` set given) identity"

definition build_biography :: "unicode_tables \<Rightarrow> (ustr \<times> ustr) list \<Rightarrow> members \<Rightarrow> gate_error + members" where
  "build_biography t reply identity =
     and_then (gate_all (\<lambda>(_, v). check_biography_value t v) reply) (\<lambda>_.
       Inr (merged (map (\<lambda>(k, v). (k, JStr v)) reply) identity))"

definition biography_fields_for_transport ::
  "unicode_tables \<Rightarrow> (ustr \<times> ustr) list \<Rightarrow> biography_request \<Rightarrow> gate_error + members" where
  "biography_fields_for_transport t reply r =
     (let identity = [(u ''character_name'', JStr (bio_character_name r)),
        (u ''race_id'', JInt (bio_race_id r)), (u ''class_id'', JInt (bio_class_id r)),
        (u ''gender_id'', JInt (bio_gender_id r))]
      in and_then (build_biography t reply identity) (\<lambda>built.
           Inr (map (\<lambda>k. (k, the (map_of built k))) biography_field_names)))"

section \<open>Memory\<close>

definition memory_forbidden_patterns :: "pattern list" where
  "memory_forbidden_patterns = (
     let word = One WordClass; digit = One DigitClass; space = One SpaceClass;
         edged = (\<lambda>ps. seq_of ([WordEdge] @ ps @ [WordEdge])) in
     [edged [plus (One (OneOf [WordClass, Letter 46, Letter 43, Letter 45])), lit ''@'',
        plus (One (OneOf [WordClass, Letter 45])), lit ''.'', plus (One (OneOf [WordClass, Letter 46]))],
      seq_of [WordEdge, lit ''http'', opt (lit ''s''), lit ''://'', plus (One NonSpaceClass)],
      edged [between 3 3 (Seq (between 1 3 digit) (lit ''.'')), between 1 3 digit],
      edged [digit, between 12 18 (Seq (opt (One (OneOf [Letter 32, Letter 45]))) digit)],
      edged [between 3 3 digit, opt (One (OneOf [Letter 32, Letter 46, Letter 45])), between 3 4 digit,
        opt (One (OneOf [Letter 32, Letter 46, Letter 45])), between 4 4 digit],
      edged [plus digit, plus space, plus word, opt (Seq (plus space) (plus word)), plus space,
        words [''lane'', ''street'', ''road'', ''avenue'', ''way'']],
      edged [lit ''password''],
      edged [lit ''passcode''],
      edged [lit ''api'', opt (One (OneOf [Letter 32, Letter 95, Letter 45])), lit ''key''],
      edged [lit ''ignore '', opt (lit ''all ''), words [''previous'', ''prior'', ''above'']],
      edged [lit ''system prompt''],
      edged [lit ''disregard'', WordEdge, Star (One AnyChar), WordEdge, lit ''instruction'', opt (lit ''s'')],
      edged [lit ''you are now'']])"

text \<open>The part after the first \<open>": "\<close>, empty when there is none.\<close>

fun after_colon :: "ustr \<Rightarrow> ustr" where
  "after_colon [] = []"
| "after_colon (c # s) = (if c = 58 \<and> s \<noteq> [] \<and> hd s = 32 then tl s else after_colon s)"

definition normalized :: "unicode_tables \<Rightarrow> ustr \<Rightarrow> ustr" where
  "normalized t line =
     (let spoken = after_colon line
      in py_strip (casefold t (filter (\<lambda>c. uc_word t c \<or> c = 32) (if spoken \<noteq> [] then spoken else line))))"

definition candidate_dump :: "memory_candidate \<Rightarrow> members" where
  "candidate_dump c = [(u ''paraphrase'', JStr (mc_paraphrase c)), (u ''about_guid'', JInt (mc_about_guid c)),
     (u ''scope'', JStr (spelling_of social_memory_scopes (mc_scope c))),
     (u ''source_event_id'', JStr (mc_source_event_id c))]"

definition check_memory :: "unicode_tables \<Rightarrow> memory_request \<Rightarrow> memory_candidate \<Rightarrow> gate_error + unit" where
  "check_memory t r c =
     (let text = py_strip (mc_paraphrase c); compared = normalized t text;
          source = map_of (rev (map (\<lambda>l. (ml_source_event_id l, l)) (mreq_thread r))) (mc_source_event_id c)
      in
      and_then (refuse_if (mc_about_guid c \<notin> set (subject_guids r)) (Some UnknownSubject)) (\<lambda>_.
      and_then (refuse_if (mc_scope c \<noteq> mreq_scope r) (Some ScopeMismatch)) (\<lambda>_.
      and_then (refuse_if (case source of None \<Rightarrow> True | Some l \<Rightarrow> ml_speaker_guid l \<noteq> mc_about_guid c)
        (Some UnknownEvidence)) (\<lambda>_.
      and_then (refuse_if (text = []) None) (\<lambda>_.
      and_then (check_length max_social_context_entry_bytes text None) (\<lambda>_.
      and_then (refuse_if (list_ex (\<lambda>p. found t True p text) memory_forbidden_patterns)
        (Some CarriedSecret)) (\<lambda>_.
      and_then (refuse_if (unsafe_content_reason t text \<noteq> None) (Some UnsafeContent)) (\<lambda>_.
      refuse_if (compared \<noteq> [] \<and> list_ex (\<lambda>l. u_contains compared
          (normalized t (ml_speaker_name l @ [58, 32] @ ml_text l))) (mreq_thread r))
        (Some QuotedThread)))))))))"

definition validate_memory_reply ::
  "unicode_tables \<Rightarrow> memory_candidate list \<Rightarrow> memory_request \<Rightarrow> gate_error + members list" where
  "validate_memory_reply t candidates r =
     and_then (gate_all (check_memory t r) candidates) (\<lambda>_. Inr (map candidate_dump candidates))"

section \<open>Career\<close>

definition validate_career_reply ::
  "interpreter \<Rightarrow> chat_request \<Rightarrow> career_reply \<Rightarrow> gate_error + ustr" where
  "validate_career_reply env r reply =
     and_then (read_again (parse_career_content env (chat_message r))) (\<lambda>content.
       case map_of (rev (map (\<lambda>c. (cand_token c, c)) (content_candidates content)))
           (cr_candidate_token reply) of
         None \<Rightarrow> Inl (Refused None)
       | Some c \<Rightarrow>
           and_then (refuse_if (style_order (cand_maximum_style c) < style_order (cr_spending_style reply))
             None) (\<lambda>_.
           Inr (json_dump_text escape_ascii (JObj [(u ''candidate_token'', JStr (cr_candidate_token reply)),
             (u ''spending_style'', JStr (spelling_of spending_styles (cr_spending_style reply)))]))))"

end
