(* ===== verification/Anthropic.thy ===== *)
theory Anthropic
  imports Replies
begin

text \<open>
  The provider (\<open>providers/anthropic.py\<close>): what it says of itself, how it counts and generates, and how
  the failures of the SDK and the refusals of the gates become the failures of the contract. What the SDK
  answers to one call is an argument.
\<close>

section \<open>What the provider says of itself\<close>

definition model_id :: ustr where "model_id = u ''claude-haiku-4-5-20251001''"
definition max_output_tokens_limit :: int where "max_output_tokens_limit = 96"
definition biography_max_output_tokens :: int where "biography_max_output_tokens = 512"
definition max_input_tokens :: int where "max_input_tokens = 4095"

definition anthropic_metadata :: provider_metadata where
  "anthropic_metadata = \<lparr>pm_name = u ''anthropic'', pm_model = model_id,
     pm_max_input_tokens = max_input_tokens,
     pm_output_limits = [(''chat'', max_output_tokens_limit), (''career'', max_output_tokens_limit),
       (''social'', max_output_tokens_limit), (''biography'', biography_max_output_tokens),
       (''memory'', max_output_tokens_limit), (''roleplay_assessment'', max_output_tokens_limit)]\<rparr>"

text \<open>Configured when the variable is set to something.\<close>

definition configured :: "ustr option \<Rightarrow> bool" where
  "configured key \<longleftrightarrow> key \<noteq> None \<and> key \<noteq> Some []"

section \<open>What the SDK answers\<close>

datatype api_error = ApiTimeout | ApiAuthentication | ApiRateLimit | ApiOther

text \<open>
  The cache counts of a usage may be missing. An answer has text that is read as JSON: there may be none
  (\<open>None\<close>), it may not be JSON at all (\<open>Unreadable\<close>), and its members are given to the schema.
\<close>

record sdk_usage =
  su_input_tokens :: int
  su_output_tokens :: int
  su_cache_creation :: "int option"
  su_cache_read :: "int option"

datatype sdk_answer =
    ApiFailed api_error
  | HttpTimeout
  | Unreadable sdk_usage
  | Answered sdk_usage "json option"

datatype sdk_count = CountFailed api_error | CountTimeout | Counted int

definition map_api_error :: "api_error \<Rightarrow> generation_error" where
  "map_api_error e = (case e of
     ApiTimeout \<Rightarrow> GenerationTimeout | ApiAuthentication \<Rightarrow> GenerationAuth
   | ApiRateLimit \<Rightarrow> GenerationRateLimit | ApiOther \<Rightarrow> GenerationProvider)"

definition usage_totals :: "sdk_usage \<Rightarrow> generation_usage" where
  "usage_totals us = \<lparr>us_input_tokens = su_input_tokens us, us_output_tokens = su_output_tokens us,
     us_cache_creation_tokens = (case su_cache_creation us of None \<Rightarrow> 0 | Some n \<Rightarrow> n),
     us_cache_read_tokens = (case su_cache_read us of None \<Rightarrow> 0 | Some n \<Rightarrow> n)\<rparr>"

text \<open>An exception that is none of the contract's leaves the provider as it is.\<close>

type_synonym 'a provided = "protocol_error + 'a"

definition counted_tokens :: "sdk_count \<Rightarrow> generation_error + int" where
  "counted_tokens c = (case c of
     CountFailed e \<Rightarrow> Inl (map_api_error e) | CountTimeout \<Rightarrow> Inl GenerationTimeout | Counted n \<Rightarrow> Inr n)"

section \<open>The calls\<close>

text \<open>
  One call to the model: its kind and the number that ties its log lines together, the trusted and the
  untrusted half of the prompt, the schema of the answer as the SDK sends it, the output limit, and
  whether its content may be logged. A count is asked for the same halves and the same schema.
\<close>

record model_call =
  call_kind :: ustr
  call_correlation :: int
  call_system :: ustr
  call_messages :: history
  call_schema :: json
  call_max_tokens :: int
  call_trace_content :: bool

record count_call =
  count_system :: ustr
  count_messages :: history
  count_schema :: json

text \<open>The JSON schemas of the answers are pydantic's.\<close>

record answer_schemas =
  chat_schema :: json
  career_schema :: json
  social_schema :: json
  assessment_schema :: json
  biography_schema :: json
  memory_schema :: json

definition chat_format :: "answer_schemas \<Rightarrow> chat_request \<Rightarrow> json" where
  "chat_format schemas r = (if is_career r then career_schema schemas else chat_schema schemas)"

definition reply_call ::
  "interpreter \<Rightarrow> answer_schemas \<Rightarrow> chat_request \<Rightarrow> history \<Rightarrow> protocol_error + model_call" where
  "reply_call env schemas r history = and_then (build_messages env r history) (\<lambda>messages.
     Inr \<lparr>call_kind = (if is_career r then u ''career'' else u ''chat''),
       call_correlation = chat_request_id r, call_system = build_system_prompt r,
       call_messages = messages, call_schema = chat_format schemas r,
       call_max_tokens = max_output_tokens_limit, call_trace_content = True\<rparr>)"

definition reply_count ::
  "interpreter \<Rightarrow> answer_schemas \<Rightarrow> chat_request \<Rightarrow> history \<Rightarrow> protocol_error + count_call" where
  "reply_count env schemas r history = and_then (build_messages env r history) (\<lambda>messages.
     Inr \<lparr>count_system = build_system_prompt r, count_messages = messages,
       count_schema = chat_format schemas r\<rparr>)"

definition social_call ::
  "interpreter \<Rightarrow> unicode_tables \<Rightarrow> answer_schemas \<Rightarrow> social_request \<Rightarrow> protocol_error + model_call" where
  "social_call env t schemas r =
     and_then (build_social_system_prompt env r) (\<lambda>system.
     and_then (social_messages env t r) (\<lambda>messages.
     Inr \<lparr>call_kind = u ''social'', call_correlation = soc_request_token r, call_system = system,
       call_messages = messages, call_schema = social_schema schemas,
       call_max_tokens = max_output_tokens_limit, call_trace_content = True\<rparr>))"

definition social_count ::
  "interpreter \<Rightarrow> unicode_tables \<Rightarrow> answer_schemas \<Rightarrow> social_request \<Rightarrow> protocol_error + count_call" where
  "social_count env t schemas r =
     and_then (build_social_system_prompt env r) (\<lambda>system.
     and_then (social_messages env t r) (\<lambda>messages.
     Inr \<lparr>count_system = system, count_messages = messages, count_schema = social_schema schemas\<rparr>))"

definition assessment_call :: "unicode_tables \<Rightarrow> answer_schemas \<Rightarrow> assessment_request \<Rightarrow> model_call" where
  "assessment_call t schemas r = \<lparr>call_kind = u ''roleplay_assessment'',
     call_correlation = asm_request_token r, call_system = build_roleplay_assessment_system_prompt r,
     call_messages = roleplay_assessment_messages t r, call_schema = assessment_schema schemas,
     call_max_tokens = max_output_tokens_limit, call_trace_content = True\<rparr>"

definition assessment_count :: "unicode_tables \<Rightarrow> answer_schemas \<Rightarrow> assessment_request \<Rightarrow> count_call" where
  "assessment_count t schemas r = \<lparr>count_system = build_roleplay_assessment_system_prompt r,
     count_messages = roleplay_assessment_messages t r, count_schema = assessment_schema schemas\<rparr>"

text \<open>A biography of an unknown race, class or gender is refused before any call.\<close>

definition biography_call :: "answer_schemas \<Rightarrow> biography_request \<Rightarrow> generation_error + model_call" where
  "biography_call schemas r = (case build_biography_system_prompt r of
     None \<Rightarrow> Inl (GenerationInvalidOutput None)
   | Some system \<Rightarrow> Inr \<lparr>call_kind = u ''biography'', call_correlation = bio_request_token r,
       call_system = system, call_messages = biography_messages r,
       call_schema = biography_schema schemas, call_max_tokens = biography_max_output_tokens,
       call_trace_content = True\<rparr>)"

definition biography_count :: "answer_schemas \<Rightarrow> biography_request \<Rightarrow> generation_error + count_call" where
  "biography_count schemas r = (case build_biography_system_prompt r of
     None \<Rightarrow> Inl (GenerationInvalidOutput None)
   | Some system \<Rightarrow> Inr \<lparr>count_system = system, count_messages = biography_messages r,
       count_schema = biography_schema schemas\<rparr>)"

definition memory_call :: "unicode_tables \<Rightarrow> answer_schemas \<Rightarrow> memory_request \<Rightarrow> model_call" where
  "memory_call t schemas r = \<lparr>call_kind = u ''memory'', call_correlation = mreq_request_token r,
     call_system = build_memory_system_prompt r, call_messages = memory_messages t r,
     call_schema = memory_schema schemas, call_max_tokens = max_output_tokens_limit,
     call_trace_content = (mreq_scope r \<noteq> ScopeWhisper)\<rparr>"

definition memory_count :: "unicode_tables \<Rightarrow> answer_schemas \<Rightarrow> memory_request \<Rightarrow> count_call" where
  "memory_count t schemas r = \<lparr>count_system = build_memory_system_prompt r,
     count_messages = memory_messages t r, count_schema = memory_schema schemas\<rparr>"

section \<open>The log of calls\<close>

definition message_json :: "turn_role \<times> ustr \<Rightarrow> json" where
  "message_json m = JObj [(u ''role'', JStr (case fst m of User \<Rightarrow> u ''user'' | Assistant \<Rightarrow> u ''assistant'')),
     (u ''content'', JStr (snd m))]"

text \<open>The line a call leaves in the log of an operator who has switched it on; and its answer's line.\<close>

definition trace_request :: "model_call \<Rightarrow> json" where
  "trace_request c =
     (let head = [(u ''phase'', JStr (u ''request'')), (u ''kind'', JStr (call_kind c)),
        (u ''correlation_id'', JInt (call_correlation c)), (u ''model'', JStr model_id),
        (u ''max_tokens'', JInt (call_max_tokens c))]
      in JObj (head @ (if call_trace_content c then
          [(u ''system'', JStr (call_system c)), (u ''messages'', JArr (map message_json (call_messages c))),
           (u ''output_schema'', call_schema c)]
        else [(u ''redacted'', JBool True),
          (u ''message_count'', JInt (int (length (call_messages c))))])))"

definition trace_response :: "model_call \<Rightarrow> json \<Rightarrow> json" where
  "trace_response c provider_message =
     (let head = [(u ''phase'', JStr (u ''response'')), (u ''kind'', JStr (call_kind c)),
        (u ''correlation_id'', JInt (call_correlation c))]
      in JObj (head @ (if call_trace_content c then [(u ''provider_message'', provider_message)]
        else [(u ''redacted'', JBool True)])))"

section \<open>Answers\<close>

text \<open>
  What a call costs is read before the answer is looked at: impossible counts leave the bill unknown, an
  answer without a message, or one its gate refuses, is charged what was reported. An answer the schema
  refuses raises inside the SDK, before the usage is read.
\<close>

definition gated :: "generation_usage \<Rightarrow> gate_error + 'a \<Rightarrow> 'a generated provided" where
  "gated us r = (case r of
     Inl (Refused c) \<Rightarrow> Inr (Inl (GenerationInvalidOutput (Some us)))
   | Inl (GateRaised e) \<Rightarrow> Inl e
   | Inr x \<Rightarrow> Inr (Inr (x, us)))"

definition generate_structured ::
  "(members \<Rightarrow> 'r option) \<Rightarrow> ('r \<Rightarrow> gate_error + 'a) \<Rightarrow> sdk_answer \<Rightarrow> 'a generated provided" where
  "generate_structured schema gate answer = (case answer of
     ApiFailed e \<Rightarrow> Inr (Inl (map_api_error e))
   | HttpTimeout \<Rightarrow> Inr (Inl GenerationTimeout)
   | Unreadable _ \<Rightarrow> Inr (Inl (GenerationInvalidOutput None))
   | Answered us content \<Rightarrow> (let totals = usage_totals us in
       case content of
         Some v \<Rightarrow> (case json_members schema v of
           None \<Rightarrow> Inr (Inl (GenerationInvalidOutput None))
         | Some r \<Rightarrow> if \<not> is_priceable totals then Inr (Inl (GenerationInvalidOutput None))
             else gated totals (gate r))
       | None \<Rightarrow> Inr (Inl (GenerationInvalidOutput
           (if is_priceable totals then Some totals else None)))))"

section \<open>Generations\<close>

text \<open>The checks every chat reply and career choice passes last.\<close>

definition check_reply_message :: "ustr \<Rightarrow> gate_error + ustr" where
  "check_reply_message message =
     and_then (refuse_if (message = []) None) (\<lambda>_.
     and_then (refuse_if (list_ex (\<lambda>c. c < 32) message) None) (\<lambda>_.
     and_then (check_length max_response_message_bytes message None) (\<lambda>_. Inr message)))"

definition generate_reply ::
  "interpreter \<Rightarrow> answer_schemas \<Rightarrow> (model_call \<Rightarrow> sdk_answer) \<Rightarrow> chat_request \<Rightarrow> history \<Rightarrow>
   ustr generated provided" where
  "generate_reply env schemas sdk r history = and_then (reply_call env schemas r history) (\<lambda>call.
     if is_career r then generate_structured career_reply_of
       (\<lambda>reply. and_then (validate_career_reply env r reply) check_reply_message) (sdk call)
     else generate_structured chat_reply_of (\<lambda>message. check_reply_message (py_strip message)) (sdk call))"

definition social_result :: "(social_reply \<times> ustr \<times> int) \<times> generation_usage \<Rightarrow> social_generation" where
  "social_result = (\<lambda>((reply, message, emote), us). \<lparr>sg_message = message, sg_emote_id = emote,
     sg_contribution = sr_contribution reply, sg_claim_subject = sr_claim_subject reply,
     sg_evidence_ids = sr_evidence_ids reply, sg_memory_ids = sr_memory_ids reply, sg_usage = us\<rparr>)"

definition generate_social_reply ::
  "interpreter \<Rightarrow> unicode_tables \<Rightarrow> answer_schemas \<Rightarrow> (model_call \<Rightarrow> sdk_answer) \<Rightarrow> social_request \<Rightarrow>
   (generation_error + social_generation) provided" where
  "generate_social_reply env t schemas sdk r = and_then (social_call env t schemas r) (\<lambda>call.
     map_sum id (map_sum id social_result) (generate_structured social_reply_of
       (\<lambda>reply. map_sum id (Pair reply) (validate_social_reply env t reply r)) (sdk call)))"

definition assess_roleplay ::
  "unicode_tables \<Rightarrow> answer_schemas \<Rightarrow> (model_call \<Rightarrow> sdk_answer) \<Rightarrow> assessment_request \<Rightarrow>
   assessment_completion generated provided" where
  "assess_roleplay t schemas sdk r =
     generate_structured assessment_completion_of Inr (sdk (assessment_call t schemas r))"

definition generate_biography ::
  "unicode_tables \<Rightarrow> answer_schemas \<Rightarrow> (model_call \<Rightarrow> sdk_answer) \<Rightarrow> biography_request \<Rightarrow>
   members generated provided" where
  "generate_biography t schemas sdk r = (case biography_call schemas r of
     Inl e \<Rightarrow> Inr (Inl e)
   | Inr call \<Rightarrow> generate_structured biography_reply_of
       (\<lambda>reply. biography_fields_for_transport t reply r) (sdk call))"

definition generate_memories ::
  "unicode_tables \<Rightarrow> answer_schemas \<Rightarrow> (model_call \<Rightarrow> sdk_answer) \<Rightarrow> memory_request \<Rightarrow>
   members list generated provided" where
  "generate_memories t schemas sdk r = generate_structured memory_reply_of
     (\<lambda>candidates. validate_memory_reply t candidates r) (sdk (memory_call t schemas r))"

definition count_input_tokens ::
  "interpreter \<Rightarrow> answer_schemas \<Rightarrow> (count_call \<Rightarrow> sdk_count) \<Rightarrow> chat_request \<Rightarrow> history \<Rightarrow>
   (generation_error + int) provided" where
  "count_input_tokens env schemas sdk r history = and_then (reply_count env schemas r history) (\<lambda>call.
     Inr (counted_tokens (sdk call)))"

definition count_social_input_tokens ::
  "interpreter \<Rightarrow> unicode_tables \<Rightarrow> answer_schemas \<Rightarrow> (count_call \<Rightarrow> sdk_count) \<Rightarrow> social_request \<Rightarrow>
   (generation_error + int) provided" where
  "count_social_input_tokens env t schemas sdk r = and_then (social_count env t schemas r) (\<lambda>call.
     Inr (counted_tokens (sdk call)))"

definition count_roleplay_assessment_input_tokens ::
  "unicode_tables \<Rightarrow> answer_schemas \<Rightarrow> (count_call \<Rightarrow> sdk_count) \<Rightarrow> assessment_request \<Rightarrow> generation_error + int" where
  "count_roleplay_assessment_input_tokens t schemas sdk r =
     counted_tokens (sdk (assessment_count t schemas r))"

definition count_biography_input_tokens ::
  "answer_schemas \<Rightarrow> (count_call \<Rightarrow> sdk_count) \<Rightarrow> biography_request \<Rightarrow> generation_error + int" where
  "count_biography_input_tokens schemas sdk r = and_then (biography_count schemas r) (\<lambda>call.
     counted_tokens (sdk call))"

definition count_memory_input_tokens ::
  "unicode_tables \<Rightarrow> answer_schemas \<Rightarrow> (count_call \<Rightarrow> sdk_count) \<Rightarrow> memory_request \<Rightarrow> generation_error + int" where
  "count_memory_input_tokens t schemas sdk r = counted_tokens (sdk (memory_count t schemas r))"

end
