(* ===== verification/Gate_Facts.thy ===== *)
theory Gate_Facts
  imports Anthropic Service Bridge
begin

text \<open>
  What the gates on generated text guarantee: which lines, citations and memories are let through, what a
  refused answer costs, and which accepted answers the bridge can carry.
\<close>

section \<open>When a gate lets through\<close>

lemma refuse_if_Inr [simp]: "refuse_if b c = Inr x \<longleftrightarrow> \<not> b"
  by (simp add: refuse_if_def)

lemma check_length_Inr [simp]: "check_length n s c = Inr x \<longleftrightarrow> bytes_within n s"
  by (auto simp: check_length_def bytes_within_def)

lemma read_again_Inr [simp]: "read_again r = Inr x \<longleftrightarrow> r = Inr x"
  by (cases r) (auto simp: read_again_def)

lemma gate_all_Inr: "gate_all f xs = Inr x \<longleftrightarrow> (\<forall>y \<in> set xs. f y = Inr ())"
  by (induction xs) (auto simp: and_then_Inr_iff)

lemma u_contains_sublist: "u_contains x s \<longleftrightarrow> sublist x s"
proof (induction s)
  case (Cons c s)
  have "take (length x) (c # s) = x \<longleftrightarrow> prefix x (c # s)"
    by (metis append_eq_conv_conj append_take_drop_id prefix_def)
  with Cons show ?case by (auto simp: sublist_Cons_right)
qed simp

lemmas gate_simps = and_then_Inr_iff gate_all_Inr u_contains_sublist found_iff_occurs

section \<open>Lines\<close>

text \<open>What a line that passes the gate of one social line is.\<close>

definition speakable :: "unicode_tables \<Rightarrow> social_request \<Rightarrow> ustr \<Rightarrow> bool" where
  "speakable t r s \<longleftrightarrow> s \<noteq> [] \<and> py_strip s = s \<and> single_line s \<and> bytes_within max_response_message_bytes s \<and>
     (\<forall>m \<in> set social_leak_markers. \<not> sublist m (casefold t s)) \<and>
     (\<forall>m \<in> set social_structure_markers. \<not> sublist m s) \<and>
     (\<forall>term \<in> set slur_terms. \<not> occurs t False (whole_word term) (casefold t s)) \<and>
     (\<forall>p \<in> set unsafe_content_patterns. \<not> occurs t False p (casefold t s)) \<and>
     \<not> is_targeted_repetition t s \<and>
     \<not> prefix (casefold t (soc_bot_name r) @ [58]) (casefold t s)"

lemma py_strip_twice: "py_strip (py_strip s) = py_strip s"
proof -
  let ?d = "dropWhile py_space"
  define x where "x = ?d s"
  define y where "y = ?d (rev x)"
  have y: "y = [] \<or> \<not> py_space (hd y)" unfolding y_def by (metis hd_dropWhile)
  have x: "x = [] \<or> \<not> py_space (hd x)" unfolding x_def by (metis hd_dropWhile)
  have suf: "suffix y (rev x)" unfolding y_def by (rule suffix_dropWhile)
  have "rev y = [] \<or> \<not> py_space (hd (rev y))"
  proof (cases "rev y = []")
    case False
    from suf have "prefix (rev y) x" by (metis rev_rev_ident suffix_to_prefix)
    then have "hd (rev y) = hd x" "x \<noteq> []" using False by (auto simp: prefix_def)
    with x show ?thesis by simp
  qed simp
  then have "?d (rev y) = rev y" by (metis dropWhile_eq_self_iff)
  moreover have "?d y = y" using y by (metis dropWhile_eq_self_iff)
  ultimately show ?thesis unfolding py_strip_def x_def [symmetric] y_def [symmetric] by simp
qed

lemma unsafe_content_None:
  "unsafe_content_reason t s = None \<longleftrightarrow>
     (\<forall>term \<in> set slur_terms. \<not> occurs t False (whole_word term) (casefold t s)) \<and>
     (\<forall>p \<in> set unsafe_content_patterns. \<not> occurs t False p (casefold t s))"
  by (auto simp: unsafe_content_reason_def Let_def list_ex_iff found_iff_occurs)

lemma social_message_Inr:
  assumes "validate_social_message t s r = Inr m"
  shows "m = py_strip s" "speakable t r m"
proof -
  have m: "py_strip s = m" "m \<noteq> []" "\<not> list_ex (\<lambda>c. c < 32) m" "bytes_within max_response_message_bytes m"
    "\<not> list_ex (\<lambda>x. sublist x (casefold t m)) social_leak_markers"
    "\<not> list_ex (\<lambda>x. sublist x m) social_structure_markers" "unsafe_content_reason t m = None"
    "\<not> is_targeted_repetition t m" "\<not> prefix (casefold t (soc_bot_name r) @ [58]) (casefold t m)"
    using assms(1) by (auto simp: validate_social_message_def Let_def gate_simps)
  show "m = py_strip s" using m(1) by simp
  have "py_strip m = m" using m(1) py_strip_twice by blast
  with m(2-) show "speakable t r m"
    by (auto simp: speakable_def single_line_def list_ex_iff list_all_iff unsafe_content_None)
qed

section \<open>Citations\<close>

lemma social_reply_Inr:
  assumes "validate_social_reply env t rp r = Inr (m, e)" "sr_kind rp \<noteq> SilenceReply"
  obtains ctx cited where "parse_social_context env (soc_context r) = Inr ctx"
    and "set (sr_memory_ids rp) \<subseteq> (case ctx of None \<Rightarrow> {}
      | Some c \<Rightarrow> mem_id ` set (memories_within (soc_channel r) c))"
    and "map (map_of (rev (map (\<lambda>e. (ev_id e, e)) (soc_evidence r)))) (sr_evidence_ids rp) = map Some cited"
    and "check_citations rp r cited = Inr ()"
    and "sr_kind rp = EmoteReply \<longrightarrow> m = [] \<and> validate_social_emote (sr_emote rp) r = Inr e"
    and "sr_kind rp = MessageReply \<longrightarrow> e = 0 \<and> validate_social_message t (sr_message rp) r = Inr m \<and>
      check_claims t m rp r cited = Inr ()"
proof -
  let ?evidence = "map_of (rev (map (\<lambda>e. (ev_id e, e)) (soc_evidence r)))"
  obtain ctx where c: "parse_social_context env (soc_context r) = Inr ctx"
    and offered: "set (sr_memory_ids rp) \<subseteq> set (case ctx of None \<Rightarrow> []
      | Some c \<Rightarrow> map mem_id (memories_within (soc_channel r) c))"
    and rest: "(case those (map ?evidence (sr_evidence_ids rp)) of
        None \<Rightarrow> Inl (Refused (Some UnknownEvidence))
      | Some cited \<Rightarrow> and_then (check_citations rp r cited) (\<lambda>_.
          if sr_kind rp = EmoteReply then
            map_sum id (Pair []) (validate_social_emote (sr_emote rp) r)
          else and_then (validate_social_message t (sr_message rp) r) (\<lambda>message.
            and_then (check_claims t message rp r cited) (\<lambda>_. Inr (message, 0))))) = Inr (m, e)"
    using assms by (auto simp: validate_social_reply_def Let_def and_then_Inr_iff)
  obtain cited where cited: "map ?evidence (sr_evidence_ids rp) = map Some cited"
    "those (map ?evidence (sr_evidence_ids rp)) = Some cited"
    using rest by (auto simp: those_Some split: option.splits)
  show thesis
  proof (rule that [OF c _ cited(1)])
    show "set (sr_memory_ids rp) \<subseteq> (case ctx of None \<Rightarrow> {}
      | Some c \<Rightarrow> mem_id ` set (memories_within (soc_channel r) c))"
      using offered by (cases ctx) auto
    show "check_citations rp r cited = Inr ()" using rest cited(2) by (auto simp: and_then_Inr_iff)
    show "sr_kind rp = EmoteReply \<longrightarrow> m = [] \<and> validate_social_emote (sr_emote rp) r = Inr e"
      using rest cited(2) by (cases "validate_social_emote (sr_emote rp) r")
        (auto simp: and_then_Inr_iff)
    show "sr_kind rp = MessageReply \<longrightarrow> e = 0 \<and> validate_social_message t (sr_message rp) r = Inr m \<and>
        check_claims t m rp r cited = Inr ()"
      using rest cited(2) by (auto simp: and_then_Inr_iff)
  qed
qed

lemma cited_evidence:
  assumes "map (map_of (rev (map (\<lambda>e. (ev_id e, e)) es))) ids = map Some cited"
  shows "map ev_id cited = ids" "set cited \<subseteq> set es"
proof -
  have each: "ev_id e = i \<and> e \<in> set es" if "map_of (rev (map (\<lambda>e. (ev_id e, e)) es)) i = Some e" for i e
    using map_of_SomeD [OF that] by auto
  from assms show "map ev_id cited = ids" "set cited \<subseteq> set es"
    by (induction cited arbitrary: ids) (auto simp: Cons_eq_map_conv dest: each)
qed

lemma check_citations_Inr:
  assumes "check_citations rp r cited = Inr ()"
  shows "\<forall>e \<in> set cited. ev_subject e \<in> set (compatible_subjects (sr_claim_subject rp))"
    and "sr_memory_ids rp \<noteq> [] \<Longrightarrow> sr_claim_subject rp = u ''participant''"
    and "sr_contribution rp = u ''answer'' \<Longrightarrow>
      soc_expects_answer r \<noteq> 0 \<and> (cited \<noteq> [] \<or> sr_memory_ids rp \<noteq> [])"
    and "sr_claim_subject rp = u ''none'' \<Longrightarrow> cited = [] \<and> sr_memory_ids rp = []"
  using assms by (auto simp: check_citations_def Let_def and_then_Inr_iff list_ex_iff)

lemma check_claims_Inr:
  assumes "check_claims t m rp r cited = Inr ()"
  shows "literal_claim_refusal t m (sr_claim_subject rp) cited = None"
    and "\<forall>term \<in> set (unavailable_content (soc_expansion r)). \<not> sublist term (casefold t m)"
    and "occurs t True current_claim m \<Longrightarrow> cited \<noteq> []"
    and "sr_claim_subject rp \<noteq> u ''none'' \<Longrightarrow> cited \<noteq> [] \<or> sr_memory_ids rp \<noteq> []"
    and "occurs t True adopted_accomplishment m \<Longrightarrow>
      \<exists>e \<in> set cited. ev_subject e \<in> {u ''candidate_bot'', u ''source''}"
    and "sr_memory_ids rp \<noteq> [] \<Longrightarrow> occurs t True participant_current_claim m \<Longrightarrow> cited \<noteq> []"
proof -
  have c: "literal_claim_refusal t m (sr_claim_subject rp) cited = None"
    "\<not> list_ex (\<lambda>term. u_contains term (casefold t m)) (unavailable_content (soc_expansion r))"
    "\<not> (found t True current_claim m \<and> cited = [])"
    "\<not> (sr_claim_subject rp \<noteq> u ''none'' \<and> cited = [] \<and> sr_memory_ids rp = [])"
    "\<not> (found t True adopted_accomplishment m \<and>
      \<not> list_ex (\<lambda>e. ev_subject e \<in> {u ''candidate_bot'', u ''source''}) cited)"
    "\<not> (sr_memory_ids rp \<noteq> [] \<and> cited = [] \<and> found t True participant_current_claim m)"
    using assms unfolding check_claims_def Let_def and_then_Inr_iff refuse_if_Inr
    by (auto split: option.splits)
  then show "literal_claim_refusal t m (sr_claim_subject rp) cited = None"
    "\<forall>term \<in> set (unavailable_content (soc_expansion r)). \<not> sublist term (casefold t m)"
    "occurs t True current_claim m \<Longrightarrow> cited \<noteq> []"
    "sr_claim_subject rp \<noteq> u ''none'' \<Longrightarrow> cited \<noteq> [] \<or> sr_memory_ids rp \<noteq> []"
    "occurs t True adopted_accomplishment m \<Longrightarrow>
      \<exists>e \<in> set cited. ev_subject e \<in> {u ''candidate_bot'', u ''source''}"
    "sr_memory_ids rp \<noteq> [] \<Longrightarrow> occurs t True participant_current_claim m \<Longrightarrow> cited \<noteq> []"
    by (auto simp: list_ex_iff u_contains_sublist found_iff_occurs)
qed

lemma grounded:
  assumes "validate_social_reply env t rp r = Inr (m, e)" "sr_kind rp \<noteq> SilenceReply"
  shows "(\<forall>i \<in> set (sr_memory_ids rp). sr_claim_subject rp = u ''participant'' \<and>
      (\<exists>c. parse_social_context env (soc_context r) = Inr (Some c) \<and>
        i \<in> mem_id ` set (memories_within (soc_channel r) c))) \<and>
    (\<exists>cited. map ev_id cited = sr_evidence_ids rp \<and> set cited \<subseteq> set (soc_evidence r) \<and>
      (\<forall>x \<in> set cited. ev_subject x \<in> set (compatible_subjects (sr_claim_subject rp))) \<and>
      (sr_contribution rp = u ''answer'' \<longrightarrow>
        soc_expects_answer r \<noteq> 0 \<and> (cited \<noteq> [] \<or> sr_memory_ids rp \<noteq> [])) \<and>
      (sr_kind rp = MessageReply \<and> occurs t True current_claim m \<longrightarrow> cited \<noteq> []) \<and>
      (sr_kind rp = MessageReply \<and> occurs t True adopted_accomplishment m \<longrightarrow>
        (\<exists>x \<in> set cited. ev_subject x \<in> {u ''candidate_bot'', u ''source''}))) \<and>
    (if sr_kind rp = EmoteReply then m = [] \<and> e \<in> set social_emote_ids \<and>
        soc_channel r \<in> set social_emote_channels
      else e = 0 \<and> speakable t r m)"
proof -
  obtain ctx cited
    where c: "parse_social_context env (soc_context r) = Inr ctx"
    and mems: "set (sr_memory_ids rp) \<subseteq> (case ctx of None \<Rightarrow> {}
      | Some c \<Rightarrow> mem_id ` set (memories_within (soc_channel r) c))"
    and cited: "map (map_of (rev (map (\<lambda>e. (ev_id e, e)) (soc_evidence r)))) (sr_evidence_ids rp) =
      map Some cited"
    and ok: "check_citations rp r cited = Inr ()"
    and emote: "sr_kind rp = EmoteReply \<longrightarrow> m = [] \<and> validate_social_emote (sr_emote rp) r = Inr e"
    and message: "sr_kind rp = MessageReply \<longrightarrow> e = 0 \<and>
      validate_social_message t (sr_message rp) r = Inr m \<and> check_claims t m rp r cited = Inr ()"
    by (rule social_reply_Inr [OF assms])
  note ok = check_citations_Inr [OF ok]
  have "sr_claim_subject rp = u ''participant'' \<and>
      (\<exists>c. parse_social_context env (soc_context r) = Inr (Some c) \<and>
        i \<in> mem_id ` set (memories_within (soc_channel r) c))" if "i \<in> set (sr_memory_ids rp)" for i
    using that mems c ok(2) by (cases ctx; cases "sr_memory_ids rp") auto
  moreover have "e \<in> set social_emote_ids \<and> soc_channel r \<in> set social_emote_channels"
    if "sr_kind rp = EmoteReply"
  proof -
    have "(name, i) \<in> set social_emotes \<Longrightarrow> i \<in> set social_emote_ids" for name i
      by (auto simp: social_emotes_def social_emote_ids_def)
    then show ?thesis
      using emote that by (auto simp: validate_social_emote_def split: option.splits if_splits
          dest: map_of_SomeD)
  qed
  moreover have "speakable t r m" if "sr_kind rp = MessageReply"
    using message that social_message_Inr by blast
  ultimately show ?thesis
    using cited_evidence [OF cited] ok(1,3) emote message check_claims_Inr(3,5) [of t m rp r cited]
      assms(2)
    by (cases "sr_kind rp") (auto intro!: exI [of _ cited])
qed


section \<open>Memories\<close>

text \<open>
  What may be remembered, said without the gate: a paraphrase about someone who was there and who said
  the line it cites, under the privacy it was learned in, short, without anything that identifies a
  person or gives an order, and not a quote of the thread.
\<close>

definition memorable :: "unicode_tables \<Rightarrow> memory_request \<Rightarrow> memory_candidate \<Rightarrow> bool" where
  "memorable t r c \<longleftrightarrow>
     mc_about_guid c \<in> set (subject_guids r) \<and> mc_scope c = mreq_scope r \<and>
     (\<exists>l \<in> set (mreq_thread r). ml_source_event_id l = mc_source_event_id c \<and>
        ml_speaker_guid l = mc_about_guid c) \<and>
     (let text = py_strip (mc_paraphrase c) in
       text \<noteq> [] \<and> bytes_within max_social_context_entry_bytes text \<and>
       (\<forall>p \<in> set memory_forbidden_patterns. \<not> occurs t True p text) \<and>
       (\<forall>term \<in> set slur_terms. \<not> occurs t False (whole_word term) (casefold t text)) \<and>
       (\<forall>p \<in> set unsafe_content_patterns. \<not> occurs t False p (casefold t text)) \<and>
       (normalized t text \<noteq> [] \<longrightarrow> (\<forall>l \<in> set (mreq_thread r). \<not> sublist (normalized t text)
          (normalized t (ml_speaker_name l @ [58, 32] @ ml_text l)))))"

lemma map_of_unique:
  assumes "distinct (map f xs)"
  shows "map_of (rev (map (\<lambda>x. (f x, x)) xs)) k = Some y \<longleftrightarrow> y \<in> set xs \<and> f y = k"
proof -
  have "distinct (map fst (rev (map (\<lambda>x. (f x, x)) xs)))"
    using assms by (simp add: o_def flip: rev_map)
  then have "map_of (rev (map (\<lambda>x. (f x, x)) xs)) k = Some y \<longleftrightarrow>
      (k, y) \<in> set (rev (map (\<lambda>x. (f x, x)) xs))"
    by (rule map_of_eq_Some_iff)
  then show ?thesis by auto
qed

lemma check_memory_iff:
  assumes "distinct (map ml_source_event_id (mreq_thread r))"
  shows "check_memory t r c = Inr () \<longleftrightarrow> memorable t r c"
proof -
  let ?source = "map_of (rev (map (\<lambda>l. (ml_source_event_id l, l)) (mreq_thread r))) (mc_source_event_id c)"
  have "\<not> (case ?source of None \<Rightarrow> True | Some l \<Rightarrow> ml_speaker_guid l \<noteq> mc_about_guid c) \<longleftrightarrow>
      (\<exists>l. ?source = Some l \<and> ml_speaker_guid l = mc_about_guid c)"
    by (cases ?source) auto
  also have "\<dots> \<longleftrightarrow> (\<exists>l \<in> set (mreq_thread r). ml_source_event_id l = mc_source_event_id c \<and>
      ml_speaker_guid l = mc_about_guid c)"
    unfolding map_of_unique [OF assms] by auto
  finally show ?thesis
    unfolding check_memory_def memorable_def Let_def and_then_Inr_iff refuse_if_Inr check_length_Inr
      unsafe_content_None not_Some_eq
    by (simp add: list_ex_iff found_iff_occurs u_contains_sublist unsafe_content_None imp_conv_disj)
qed


section \<open>Bills\<close>

text \<open>Whether the SDK's answer reported a usage the caller can be charged by, and what it was.\<close>

definition reported_usage :: "(members \<Rightarrow> 'r option) \<Rightarrow> sdk_answer \<Rightarrow> generation_usage option" where
  "reported_usage schema answer = (case answer of
     Answered us content \<Rightarrow>
       if is_priceable (usage_totals us) \<and> (\<forall>v. content = Some v \<longrightarrow> json_members schema v \<noteq> None)
       then Some (usage_totals us) else None
   | _ \<Rightarrow> None)"

definition bill :: "('a \<Rightarrow> generation_usage) \<Rightarrow> generation_error + 'a \<Rightarrow> generation_usage option" where
  "bill usage g = (case g of Inl e \<Rightarrow> error_usage e | Inr x \<Rightarrow> Some (usage x))"

lemma gated_bill:
  "gated us out = Inr g \<Longrightarrow> bill snd g = Some us \<and> (\<forall>e. g = Inl e \<longrightarrow> billing_of e \<noteq> BillingImpossible)"
  by (auto simp: gated_def bill_def split: sum.splits gate_error.splits if_splits)

definition refused_unbilled :: "sdk_answer \<Rightarrow> bool" where
  "refused_unbilled answer \<longleftrightarrow> answer = ApiFailed ApiAuthentication \<or> answer = ApiFailed ApiRateLimit"

text \<open>
  A result that tells its bill: it carries the usage that can be charged, if there is one, and says that
  nothing can have been billed exactly when the API did not serve the call.
\<close>

definition tells_bill ::
  "('a \<Rightarrow> generation_usage) \<Rightarrow> (members \<Rightarrow> 'r option) \<Rightarrow> sdk_answer \<Rightarrow> generation_error + 'a \<Rightarrow> bool" where
  "tells_bill usage schema answer g \<longleftrightarrow> bill usage g = reported_usage schema answer \<and>
     ((\<exists>e. g = Inl e \<and> billing_of e = BillingImpossible) \<longleftrightarrow> refused_unbilled answer)"

lemma structured_bill:
  assumes "generate_structured schema gate answer = Inr g"
  shows "tells_bill snd schema answer g"
proof -
  consider (failed) e where "answer = ApiFailed e" "g = Inl (map_api_error e)"
    | (timeout) "answer = HttpTimeout" "g = Inl GenerationTimeout"
    | (unreadable) us where "answer = Unreadable us" "g = Inl (GenerationInvalidOutput None)"
    | (refused) us v where "answer = Answered us (Some v)" "g = Inl (GenerationInvalidOutput None)"
        "json_members schema v = None \<or> \<not> is_priceable (usage_totals us)"
    | (gated) us v r where "answer = Answered us (Some v)" "json_members schema v = Some r"
        "is_priceable (usage_totals us)" "gated (usage_totals us) (gate r) = Inr g"
    | (nothing) us where "answer = Answered us None" "g = Inl (GenerationInvalidOutput
        (if is_priceable (usage_totals us) then Some (usage_totals us) else None))"
    using assms by (auto simp: generate_structured_def Let_def split: sdk_answer.splits option.splits if_splits)
  then have "bill snd g = reported_usage schema answer \<and>
      ((\<exists>e. g = Inl e \<and> billing_of e = BillingImpossible) \<longleftrightarrow> refused_unbilled answer)"
  proof cases
    case (gated us v r)
    then show ?thesis
      using gated_bill [OF gated(4)] by (auto simp: reported_usage_def refused_unbilled_def)
  qed (auto simp: bill_def reported_usage_def refused_unbilled_def map_api_error_def split: api_error.splits)
  then show ?thesis unfolding tells_bill_def .
qed

lemma bill_social:
  "tells_bill snd schema answer g \<Longrightarrow> tells_bill sg_usage schema answer (map_sum id social_result g)"
  by (cases g) (auto simp: tells_bill_def bill_def social_result_def)

text \<open>
  C10. A generation says what it cost: whatever the SDK answers, the result
  carries exactly the usage the SDK reported when that can be charged and the answer fits its schema,
  on success and on every refusal of a gate alike; and it says that nothing can have been billed exactly
  when the API refused to authenticate or to serve.
  An answer that its schema refuses raises before its usage is read, and carries none.
\<close>

theorem generations_tell_their_bill:
  "(reply_call env schemas r h = Inr call \<and> generate_reply env schemas sdk r h = Inr g \<longrightarrow>
      (if is_career r then tells_bill snd career_reply_of (sdk call) g
       else tells_bill snd chat_reply_of (sdk call) g)) \<and>
   (social_call env t schemas sr = Inr call \<and> generate_social_reply env t schemas sdk sr = Inr gs \<longrightarrow>
      tells_bill sg_usage social_reply_of (sdk call) gs) \<and>
   (assess_roleplay t schemas sdk ar = Inr ga \<longrightarrow>
      tells_bill snd assessment_completion_of (sdk (assessment_call t schemas ar)) ga) \<and>
   (biography_call schemas br = Inr call \<and> generate_biography t schemas sdk br = Inr gb \<longrightarrow>
      tells_bill snd biography_reply_of (sdk call) gb) \<and>
   (generate_memories t schemas sdk mr = Inr gm \<longrightarrow>
      tells_bill snd memory_reply_of (sdk (memory_call t schemas mr)) gm)"
proof (intro conjI impI)
  assume a: "social_call env t schemas sr = Inr call \<and> generate_social_reply env t schemas sdk sr = Inr gs"
  then obtain g where g: "generate_structured social_reply_of
      (\<lambda>rp. map_sum id (Pair rp) (validate_social_reply env t rp sr)) (sdk call) = Inr g"
    "gs = map_sum id social_result g"
    by (cases "generate_structured social_reply_of
      (\<lambda>rp. map_sum id (Pair rp) (validate_social_reply env t rp sr)) (sdk call)")
      (auto simp: generate_social_reply_def)
  show "tells_bill sg_usage social_reply_of (sdk call) gs"
    unfolding g(2) by (rule bill_social [OF structured_bill [OF g(1)]])
qed (auto simp: generate_reply_def assess_roleplay_def generate_biography_def generate_memories_def
    intro: structured_bill)

section \<open>Accepted output can be sent\<close>

lemma reply_message_Inr: "check_reply_message s = Inr m \<Longrightarrow>
    m = s \<and> m \<noteq> [] \<and> single_line m \<and> bytes_within max_response_message_bytes m"
  by (auto simp: check_reply_message_def and_then_Inr_iff single_line_def list_ex_iff list_all_iff)

lemma gated_Inr: "gated us out = Inr (Inr x) \<Longrightarrow> \<exists>y. out = Inr y \<and> x = (y, us)"
  by (auto simp: gated_def split: sum.splits gate_error.splits)

lemma structured_Inr:
  assumes "generate_structured schema gate answer = Inr (Inr (x, us))"
  shows "\<exists>r. (\<exists>ms. schema ms = Some r) \<and> gate r = Inr x"
  using assms
  by (auto simp: generate_structured_def Let_def json_members_Some dest!: gated_Inr
      split: sdk_answer.splits option.splits if_splits)

lemma chat_can_be_sent:
  assumes "generate_reply env schemas sdk r h = Inr (Inr (m, us))" "valid_token tok"
    and "1 \<le> chat_request_id r" "chat_request_id r \<le> uint64_max"
  shows "\<exists>b. encode_response (chat_request_id r) m tok = Inr b"
proof -
  obtain x where "check_reply_message x = Inr m"
    using assms(1) by (auto simp: generate_reply_def and_then_Inr_iff dest!: structured_Inr split: if_splits)
  then have m: "m \<noteq> []" "single_line m" "bytes_within max_response_message_bytes m"
    using reply_message_Inr by blast+
  have "\<exists>b. json_bytes (response_payload (chat_request_id r) m tok) = Inr b"
    using m(3) assms(2)
    by (intro json_bytes_scalar) (simp add: response_payload_def key_eval is_scalar_def is_surrogate_def
        bytes_within_def valid_token_def)
  with m assms show ?thesis by (auto simp: encode_response_Inr)
qed

text \<open>A citation id, as requests and contexts have them, is one the encoder accepts.\<close>

lemma numbered_ok:
  assumes "\<forall>c. is_udigit c \<longrightarrow> py_digit env c"
  shows "is_numbered 103 i \<Longrightarrow> evidence_citation_ok env i" "is_numbered 109 i \<Longrightarrow> memory_citation_ok env i"
    and "is_numbered k i \<Longrightarrow> k < 128 \<Longrightarrow> list_all is_scalar i"
proof -
  have d: "49 \<le> c \<Longrightarrow> c \<le> 57 \<Longrightarrow> is_udigit c" for c :: nat by (simp add: is_udigit_def)
  have all: "list_all is_udigit s \<Longrightarrow> list_all (py_digit env) s" for s
    using assms by (auto simp: list_all_iff)
  show "is_numbered 103 i \<Longrightarrow> evidence_citation_ok env i" "is_numbered 109 i \<Longrightarrow> memory_citation_ok env i"
    using assms d all
    by (auto simp: is_numbered_def evidence_citation_ok_def memory_citation_ok_def split: list.splits)
  show "is_numbered k i \<Longrightarrow> k < 128 \<Longrightarrow> list_all is_scalar i"
    using scalar_digits by (auto simp: is_numbered_def is_scalar_def is_surrogate_def split: list.splits)
qed

lemma evidence_ids_numbered:
  assumes "social_fields_of env ms = Some r" "e \<in> set (soc_evidence r)"
  shows "is_numbered 103 (ev_id e)"
proof -
  have "\<exists>v. field (json_list (json_members social_evidence_of) 1 max_social_evidence_entries)
      (u ''evidence'') ms = Some (soc_evidence r)"
    using assms(1) unfolding social_fields_of_def bind_eq_Some_conv
    by (elim exE conjE, thin_tac "guarded (has_fields _ _ _) = _") (simp only: option.inject, hypsubst, simp)
  then obtain v where "json_list (json_members social_evidence_of) 1 max_social_evidence_entries v =
      Some (soc_evidence r)" by (auto simp: field_Some)
  from json_list_member [OF this assms(2)] obtain es where "social_evidence_of es = Some e"
    by (auto simp: json_members_Some)
  then show ?thesis by (auto simp: social_evidence_of_def bind_eq_Some_conv text_field_Some)
qed

lemma request_ids:
  assumes "social_fields_of env ms = Some r"
  shows "1 \<le> soc_request_token r \<and> soc_request_token r \<le> uint64_max \<and> 1 \<le> soc_bot_guid r \<and>
    soc_bot_guid r \<le> uint64_max"
  using assms unfolding social_fields_of_def bind_eq_Some_conv
  by (elim exE conjE, thin_tac "guarded (has_fields _ _ _) = _")
    (simp only: option.inject int_field_Some, elim conjE, hypsubst, simp)

lemma memory_ids_numbered:
  assumes "parse_social_context env s = Inr (Some c)" "m \<in> set (memories_within ch c)"
  shows "is_numbered 109 (mem_id m)"
proof -
  have m: "m \<in> set (ctx_memories c)" using assms(2) by (auto simp: memories_within_def split: if_splits)
  obtain ms where "social_context_of ms = Some c"
    using assms(1) by (auto simp: parse_social_context_def split: if_splits sum.splits json.splits json_error.splits)
  then have "context_fields_of ms = Some c" by (auto simp: social_context_of_def bind_eq_Some_conv)
  then obtain v where "default_field [] (field (json_list (json_members social_memory_of) 0
      max_social_context_entries)) (u ''memories'') ms = Some (ctx_memories c)"
    unfolding context_fields_of_def bind_eq_Some_conv
    by (elim exE conjE, thin_tac "guarded (has_fields _ _ _) = _") (simp only: option.inject, hypsubst, simp)
  then obtain v where "json_list (json_members social_memory_of) 0 max_social_context_entries v =
      Some (ctx_memories c)"
    using m by (auto simp: default_field_def field_Some split: if_splits)
  from json_list_member [OF this m] obtain es where "social_memory_of es = Some m"
    by (auto simp: json_members_Some)
  then show ?thesis by (auto simp: social_memory_of_def bind_eq_Some_conv text_field_Some)
qed

lemma social_reply_of_Some:
  assumes "social_reply_of ms = Some rp"
  shows "one_coherent_answer rp" "sr_contribution rp \<in> set contributions"
    "sr_claim_subject rp \<in> set claim_subjects"
proof -
  have same: "map_of (map (\<lambda>s. (s, s)) xs) s = Some y \<Longrightarrow> y \<in> set xs" for xs :: "ustr list" and s y
    by (auto dest!: map_of_SomeD)
  show "one_coherent_answer rp" "sr_contribution rp \<in> set contributions"
    "sr_claim_subject rp \<in> set claim_subjects"
    using assms unfolding social_reply_of_def bind_eq_Some_conv Let_def
    by (auto simp: choice_field_Some dest!: same)
qed

text \<open>What an accepted reply says, by its kind, and the citations it carries.\<close>

lemma accepted_form:
  assumes r: "social_fields_of env ms = Some r" and rp: "social_reply_of ks = Some rp"
    and v: "validate_social_reply env t rp r = Inr (m, e)"
  shows "\<forall>i \<in> set (sr_evidence_ids rp). is_numbered 103 i" "\<forall>i \<in> set (sr_memory_ids rp). is_numbered 109 i"
    and "sr_kind rp = SilenceReply \<Longrightarrow> m = [] \<and> e = 0"
    and "sr_kind rp = EmoteReply \<Longrightarrow> m = [] \<and> e \<in> set social_emote_ids \<and> e \<noteq> 0 \<and>
      soc_channel r \<in> set social_emote_channels"
    and "sr_kind rp = MessageReply \<Longrightarrow> e = 0 \<and> speakable t r m"
proof -
  note coherent = social_reply_of_Some(1) [OF rp]
  have both: "(\<forall>i \<in> set (sr_evidence_ids rp). is_numbered 103 i) \<and>
      (\<forall>i \<in> set (sr_memory_ids rp). is_numbered 109 i)"
  proof (cases "sr_kind rp = SilenceReply")
    case True
    then show ?thesis using coherent by (simp add: one_coherent_answer_def Let_def)
  next
    case False
    from grounded [OF v False] obtain cited where cited: "map ev_id cited = sr_evidence_ids rp"
      "set cited \<subseteq> set (soc_evidence r)"
      and mems: "\<forall>i \<in> set (sr_memory_ids rp). \<exists>c. parse_social_context env (soc_context r) = Inr (Some c) \<and>
        i \<in> mem_id ` set (memories_within (soc_channel r) c)" by blast
    have "is_numbered 103 i" if "i \<in> set (sr_evidence_ids rp)" for i
      using that cited evidence_ids_numbered [OF r] unfolding cited(1) [symmetric] by auto
    moreover have "is_numbered 109 i" if "i \<in> set (sr_memory_ids rp)" for i
      using bspec [OF mems that] memory_ids_numbered by blast
    ultimately show ?thesis by blast
  qed
  show "\<forall>i \<in> set (sr_evidence_ids rp). is_numbered 103 i" using both by (rule conjunct1)
  show "\<forall>i \<in> set (sr_memory_ids rp). is_numbered 109 i" using both by (rule conjunct2)
  show "sr_kind rp = SilenceReply \<Longrightarrow> m = [] \<and> e = 0"
    using v by (simp add: validate_social_reply_def)
  have zero: "(0 :: int) \<notin> set social_emote_ids" by (simp add: social_emote_ids_def)
  show "sr_kind rp = EmoteReply \<Longrightarrow> m = [] \<and> e \<in> set social_emote_ids \<and> e \<noteq> 0 \<and>
      soc_channel r \<in> set social_emote_channels"
    using grounded [OF v] zero by auto
  show "sr_kind rp = MessageReply \<Longrightarrow> e = 0 \<and> speakable t r m" using grounded [OF v] by simp
qed

text \<open>The lines and gestures that pass every gate have the form the encoder wants.\<close>

lemma proposal_sendable:
  assumes d: "\<forall>c. is_udigit c \<longrightarrow> py_digit env c"
    and r: "social_fields_of env ms = Some r" and rp: "social_reply_of ks = Some rp"
    and v: "validate_social_reply env t rp r = Inr (m, e)"
    and a: "a = proposal_answer r (social_result ((rp, m, e), us)) md"
  shows "check_answer_form a = Inr a" "check_proposal env a = Inr ()"
    and "list_all is_scalar m" "list_all (list_all is_scalar) (sr_evidence_ids rp)"
      "list_all (list_all is_scalar) (sr_memory_ids rp)"
proof -
  note coherent = social_reply_of_Some [OF rp]
  note form = accepted_form [OF r rp v]
  have a': "sa_regenerate a = False" "sa_message a = m" "sa_emote_id a = e" "sa_channel a = soc_channel r"
    "sa_metadata a = Some md" "sa_contribution a = Some (sr_contribution rp)"
    "sa_claim_subject a = Some (sr_claim_subject rp)" "sa_evidence_ids a = sr_evidence_ids rp"
    "sa_memory_ids a = sr_memory_ids rp"
    by (simp_all add: a proposal_answer_def social_result_def)
  note speak = form(5) [unfolded speakable_def]
  show "check_answer_form a = Inr a"
    using form(3,4) speak unfolding check_answer_form_def a'
    by (cases "sr_kind rp") (simp_all add: and_then_Inr_iff response_message_Inr)
  have three: "sr_contribution rp \<in> {u ''answer'', u ''specific_reaction'', u ''fact_free_banter''}"
    if "sr_kind rp = MessageReply"
    using that coherent(1,2) by (auto simp: one_coherent_answer_def Let_def contributions_def)
  have "proposal_coherent a"
    using form(3,4) speak three coherent(1) unfolding proposal_coherent_def one_coherent_answer_def a'
    by (cases "sr_kind rp") (auto simp: Let_def)
  moreover have "list_all (evidence_citation_ok env) (sr_evidence_ids rp)"
    "list_all (memory_citation_ok env) (sr_memory_ids rp)"
    using form(1,2) numbered_ok(1,2) [OF d] by (auto simp: list_all_iff)
  ultimately show "check_proposal env a = Inr ()"
    using coherent unfolding check_proposal_def a' by (auto simp: one_coherent_answer_def)
  show "list_all is_scalar m"
    using form(3,4) speak by (cases "sr_kind rp") (auto simp: bytes_within_def)
  show "list_all (list_all is_scalar) (sr_evidence_ids rp)" "list_all (list_all is_scalar) (sr_memory_ids rp)"
    using form(1,2) numbered_ok(3) [OF d] by (auto simp: list_all_iff [of "list_all is_scalar"])
qed

lemma map_both_Inr: "map_sum id (map_sum id f) y = Inr (Inr z) \<longleftrightarrow> (\<exists>x. y = Inr (Inr x) \<and> z = f x)"
  by (cases y; cases "projr y") auto

lemma map_sum_Pair_Inr: "map_sum id (Pair a) y = Inr z \<longleftrightarrow> (\<exists>x. y = Inr x \<and> z = (a, x))"
  by (cases y) auto

lemma chat_ids:
  assumes "chat_request_of env ms = Inr r"
  shows "1 \<le> chat_request_id r \<and> chat_request_id r \<le> uint64_max"
  using chat_request_fields [OF assms] unfolding chat_fields_of_def bind_eq_Some_conv
  by (elim exE conjE, thin_tac "guarded (has_fields _ _ _) = _")
    (simp only: option.inject int_field_Some, elim conjE, hypsubst, simp)

lemma metadata_scalar:
  assumes "valid_metadata md"
  shows "list_all is_scalar (md_model md)" "list_all is_scalar (md_cost_usd md)"
proof -
  let ?s = "md_cost_usd md"
  show "list_all is_scalar (md_model md)" using assms by (simp add: valid_metadata_def bytes_within_def)
  obtain rest where s: "?s = takeWhile is_udigit ?s @ 46 # tl (dropWhile is_udigit ?s)"
    and d: "list_all is_udigit (tl (dropWhile is_udigit ?s))"
    using assms unfolding valid_metadata_def is_cost_usd_def Let_def
    by (metis (no_types, lifting) list.collapse list.size(3) numeral_eq_Suc old.nat.distinct(1)
        takeWhile_dropWhile_id)
  have "list_all is_udigit (takeWhile is_udigit ?s)" by (auto simp: list_all_iff dest: set_takeWhileD)
  with d have "list_all is_scalar (takeWhile is_udigit ?s @ 46 # tl (dropWhile is_udigit ?s))"
    by (simp add: scalar_digits is_scalar_def is_surrogate_def)
  then show "list_all is_scalar ?s" unfolding s [symmetric] .
qed

lemma indexed_scalar:
  assumes "list_all is_scalar (u name)" "list_all (list_all is_scalar) vs"
  shows "list_all (\<lambda>(k, v). list_all is_scalar k \<and>
    (case v of PInt n \<Rightarrow> True | PStr s \<Rightarrow> list_all is_scalar s)) (indexed name vs)"
  using assms scalar_digits [OF u_show_nat(1)]
  by (auto simp: indexed_def list_all_iff enumerate_eq_zip dest: set_zip_rightD)

lemma proposal_bytes:
  assumes "valid_token tok" "valid_metadata md" "list_all is_scalar m"
    "list_all is_scalar (sr_contribution rp)" "list_all is_scalar (sr_claim_subject rp)"
    "list_all (list_all is_scalar) (sr_evidence_ids rp)" "list_all (list_all is_scalar) (sr_memory_ids rp)"
  shows "\<exists>b. json_bytes (social_payload (proposal_answer r (social_result ((rp, m, e), us)) md) tok) = Inr b"
proof (rule json_bytes_scalar)
  have tok: "list_all is_scalar tok" using assms(1) by (simp add: valid_token_def bytes_within_def)
  have ix: "list_all (\<lambda>(k, v). list_all is_scalar k \<and>
      (case v of PInt n \<Rightarrow> True | PStr s \<Rightarrow> list_all is_scalar s)) (indexed ''citation_'' (sr_evidence_ids rp))"
    "list_all (\<lambda>(k, v). list_all is_scalar k \<and>
      (case v of PInt n \<Rightarrow> True | PStr s \<Rightarrow> list_all is_scalar s)) (indexed ''memory_citation_'' (sr_memory_ids rp))"
    using assms by (auto intro!: indexed_scalar simp: key_eval is_scalar_def is_surrogate_def)
  show "list_all (\<lambda>(k, v). list_all is_scalar k \<and>
      (case v of PInt n \<Rightarrow> True | PStr s \<Rightarrow> list_all is_scalar s))
    (social_payload (proposal_answer r (social_result ((rp, m, e), us)) md) tok)"
    using assms metadata_scalar [OF assms(2)] tok ix
    by (simp add: social_payload_def proposal_answer_def social_result_def metadata_payload_def key_eval)
      (simp add: is_scalar_def is_surrogate_def)
qed

text \<open>
  C11. A chat line or a social proposal that passed its gates, and was paid
  for, is never lost to the encoder: whatever the model wrote, the accepted reply encodes for the bridge
  under a valid session token, with metadata in bounds for a social proposal.
  Biographies and memories have no such promise: \<open>Gate_Example\<close> has accepted ones that are refused.
\<close>

theorem accepted_output_can_be_sent:
  assumes "valid_token tok" "\<forall>c. is_udigit c \<longrightarrow> py_digit env c"
  shows "(chat_request_of env ms = Inr r \<and> generate_reply env schemas sdk r h = Inr (Inr (m, us)) \<longrightarrow>
      (\<exists>b. encode_response (chat_request_id r) m tok = Inr b)) \<and>
    (social_request_of env ms = Some sr \<and> valid_metadata md \<and>
        generate_social_reply env t schemas sdk sr = Inr (Inr g) \<longrightarrow>
      (\<exists>b. encode_social_response env (proposal_answer sr g md) tok = Inr b))"
proof (intro conjI impI)
  assume "chat_request_of env ms = Inr r \<and> generate_reply env schemas sdk r h = Inr (Inr (m, us))"
  then show "\<exists>b. encode_response (chat_request_id r) m tok = Inr b"
    using chat_can_be_sent [OF _ assms(1)] chat_ids by blast
next
  assume a: "social_request_of env ms = Some sr \<and> valid_metadata md \<and>
    generate_social_reply env t schemas sdk sr = Inr (Inr g)"
  then have r: "social_fields_of env ms = Some sr" using social_request_of_Some(1) by blast
  obtain call x where "generate_structured social_reply_of
      (\<lambda>rp. map_sum id (Pair rp) (validate_social_reply env t rp sr)) (sdk call) = Inr (Inr x)"
    and g: "g = social_result x"
    using a by (auto simp: generate_social_reply_def and_then_Inr_iff map_both_Inr)
  then obtain rp m e us ks where g: "g = social_result ((rp, m, e), us)"
    and rp: "social_reply_of ks = Some rp" "validate_social_reply env t rp sr = Inr (m, e)"
    by (cases x) (fastforce dest!: structured_Inr simp: map_sum_Pair_Inr)
  note sendable = proposal_sendable [where us = us and md = md, OF assms(2) r rp refl]
  have scalar: "list_all is_scalar s" if "s \<in> set contributions \<union> set claim_subjects" for s
    using that by (auto simp: contributions_def claim_subjects_def key_eval is_scalar_def is_surrogate_def)
  have "\<exists>b. json_bytes (social_payload (proposal_answer sr g md) tok) = Inr b"
    unfolding g using a assms(1) sendable(3-) scalar social_reply_of_Some(2,3) [OF rp(1)]
    by (intro proposal_bytes) auto
  moreover have "sa_request_token (proposal_answer sr g md) = soc_request_token sr"
    "sa_bot_guid (proposal_answer sr g md) = soc_bot_guid sr"
    "sa_channel (proposal_answer sr g md) = soc_channel sr"
    by (simp_all add: proposal_answer_def)
  ultimately show "\<exists>b. encode_social_response env (proposal_answer sr g md) tok = Inr b"
    using sendable(1,2) request_ids [OF r] social_fields_facts [OF r] assms(1) unfolding g
    by (simp add: encode_social_response_def encoder_token_def check_id_def)
qed

end
